(* ===== verification/Prelude.thy ===== *)
theory Prelude
  imports Main "HOL-Library.Sublist" "HOL-Library.Word"
begin

text \<open>
  Shared vocabulary of the development: the ways a C++ operation of the server can fail
  (\<open>fault\<close>), the result type of fallible code (\<open>outcome\<close>) with its sequencing operator
  \<open>obind\<close>, machine integer types, and the list facts the component theories share.

  A thrown exception, a null dereference and a read the language leaves undefined are all
  values of \<open>fault\<close>, so that every early exit of the code is a branch of the model.
\<close>

named_theorems handler_laws "a handler answers with a reply whose status is set"

section \<open>Faults and outcomes\<close>

datatype fault =
    Out_of_range             \<comment> \<open>\<open>std::out_of_range\<close> from \<open>substr\<close>, \<open>replace\<close> or \<open>stoi\<close>\<close>
  | Invalid_argument         \<comment> \<open>\<open>std::invalid_argument\<close> from \<open>stoi\<close>\<close>
  | Config_parser_exception  \<comment> \<open>\<open>ConfigParserException\<close>\<close>
  | Bad_lexical_cast         \<comment> \<open>\<open>boost::bad_lexical_cast\<close>\<close>
  | Null_dereference         \<comment> \<open>a null or never assigned pointer is dereferenced\<close>
  | Bad_index                \<comment> \<open>\<open>operator[]\<close> or \<open>back()\<close> of a \<open>std::vector\<close> out of range\<close>
  | Indeterminate_value      \<comment> \<open>a variable is read that was never assigned\<close>
  | Regex_not_modelled       \<comment> \<open>a \<open>std::regex\<close> pattern outside the modelled subset\<close>
  | Signed_overflow          \<comment> \<open>an \<open>int\<close> addition leaves the range of \<open>int\<close>\<close>
  | Not_representable        \<comment> \<open>\<open>atoi\<close> of a number that is not an \<open>int\<close>\<close>
  | System_error             \<comment> \<open>\<open>boost::system::system_error\<close>\<close>

type_synonym 'a outcome = "fault + 'a"

definition obind :: "'a outcome \<Rightarrow> ('a \<Rightarrow> 'b outcome) \<Rightarrow> 'b outcome" where
  "obind m f = (case m of Inl e \<Rightarrow> Inl e | Inr x \<Rightarrow> f x)"

lemma obind_simps [simp]:
  "obind (Inl e) f = Inl e"
  "obind (Inr x) f = f x"
  by (simp_all add: obind_def)

lemma obind_cong [fundef_cong]:
  "m = m' \<Longrightarrow> (\<And>x. m' = Inr x \<Longrightarrow> f x = g x) \<Longrightarrow> obind m f = obind m' g"
  by (cases m') simp_all

lemma obind_Inr_iff: "obind m f = Inr y \<longleftrightarrow> (\<exists>x. m = Inr x \<and> f x = Inr y)"
  by (cases m) simp_all

lemma obind_Inl_iff:
  "obind m f = Inl e \<longleftrightarrow> m = Inl e \<or> (\<exists>x. m = Inr x \<and> f x = Inl e)"
  by (cases m) simp_all

lemma obind_assoc: "obind (obind m f) g = obind m (\<lambda>x. obind (f x) g)"
  by (cases m) simp_all

section \<open>Machine integers\<close>

type_synonym size_t = "64 word"
type_synonym uint32_t = "32 word"
type_synonym unsigned_short = "16 word"

definition int_min :: int where "int_min = - (2 ^ 31)"
definition int_max :: int where "int_max = 2 ^ 31 - 1"

section \<open>Lists\<close>

lemma prefix_drop_append:
  assumes "prefix pat (drop i s)"
  shows "s = take i s @ pat @ drop (i + length pat) s"
proof -
  from assms obtain t where t: "drop i s = pat @ t" by (auto simp: prefix_def)
  then have "drop (i + length pat) s = t"
    by (metis add.commute append_eq_conv_conj drop_drop)
  with t show ?thesis by (metis append_take_drop_id)
qed

lemma prefix_drop_le: "prefix pat (drop i s) \<Longrightarrow> pat \<noteq> [] \<Longrightarrow> i + length pat \<le> length s"
  using prefix_length_le [of pat "drop i s"] by (cases "i \<le> length s") auto

lemma length_filter_update:
  assumes "k < length xs"
  shows "length (filter P (xs[k := x])) + (if P (xs ! k) then 1 else 0) =
    length (filter P xs) + (if P x then 1 else 0)"
proof -
  have "filter P xs = filter P (take k xs @ xs ! k # drop (Suc k) xs)"
    using id_take_nth_drop [OF assms] by simp
  moreover have "filter P (xs[k := x]) = filter P (take k xs @ x # drop (Suc k) xs)"
    by (simp add: upd_conv_take_nth_drop assms)
  ultimately show ?thesis by simp
qed

lemma snoc_cases: "xs = [] \<or> (\<exists>ys y. xs = ys @ [y])"
  by (cases xs rule: rev_cases) auto

end
