(* ===== verification/Cpp_String.thy ===== *)
theory Cpp_String
  imports Prelude "HOL-Library.Char_ord" "HOL-Library.List_Lexorder"
begin

text \<open>
  The part of the C++ standard library on \<open>std::string\<close> that the server uses: \<open>find\<close>,
  \<open>rfind\<close>, \<open>substr\<close>, \<open>replace\<close>, \<open>std::to_string\<close>, \<open>std::stoi\<close>, \<open>std::atoi\<close> and
  \<open>::tolower\<close>. A string is a list of bytes. A search returns \<open>Some\<close> position or \<open>None\<close>
  for \<open>npos\<close>; \<open>pos_size\<close> reads the result as the 64-bit \<open>size_t\<close> the code computes with,
  where \<open>npos\<close> is the largest value and additions wrap. Strings are compared byte by byte
  (\<open>Char_ord\<close> and \<open>List_Lexorder\<close>), which is the order \<open>std::map\<close> iterates in.

  The lemmas characterise a successful search as the first occurrence, and show that
  reading back a printed number gives the number.
\<close>

section \<open>Searching\<close>

fun index_of :: "string \<Rightarrow> string \<Rightarrow> nat option" where
  "index_of pat [] = (if pat = [] then Some 0 else None)"
| "index_of pat (c # cs) =
     (if prefix pat (c # cs) then Some 0 else map_option Suc (index_of pat cs))"

definition find_from :: "string \<Rightarrow> string \<Rightarrow> nat \<Rightarrow> nat option" where
  "find_from s pat pos =
     (if length s < pos then None else map_option (\<lambda>i. pos + i) (index_of pat (drop pos s)))"

definition find_str :: "string \<Rightarrow> string \<Rightarrow> nat option" where
  "find_str s pat = find_from s pat 0"

fun rindex_of :: "string \<Rightarrow> string \<Rightarrow> nat option" where
  "rindex_of pat [] = (if pat = [] then Some 0 else None)"
| "rindex_of pat (c # cs) =
     (case rindex_of pat cs of
        Some i \<Rightarrow> Some (Suc i)
      | None \<Rightarrow> if prefix pat (c # cs) then Some 0 else None)"

definition rfind_str :: "string \<Rightarrow> string \<Rightarrow> nat option" where
  "rfind_str s pat = rindex_of pat s"

definition npos :: size_t where "npos = - 1"

definition pos_size :: "nat option \<Rightarrow> size_t" where
  "pos_size p = (case p of None \<Rightarrow> npos | Some i \<Rightarrow> of_nat i)"

lemma find_str_eq: "find_str s pat = index_of pat s"
  by (cases "index_of pat s") (simp_all add: find_str_def find_from_def)

lemma index_of_SomeD:
  "index_of pat s = Some i \<Longrightarrow>
     i \<le> length s \<and> prefix pat (drop i s) \<and> (\<forall>j<i. \<not> prefix pat (drop j s))"
proof (induction pat s arbitrary: i rule: index_of.induct)
  case (1 pat)
  then show ?case by (auto split: if_splits)
next
  case (2 pat c cs)
  show ?case
  proof (cases "prefix pat (c # cs)")
    case True
    with "2.prems" show ?thesis by simp
  next
    case False
    with "2.prems" obtain k where k: "index_of pat cs = Some k" and i: "i = Suc k" by auto
    from "2.IH" [OF False k] False show ?thesis
      unfolding i by (auto simp: less_Suc_eq_0_disj)
  qed
qed

lemma index_of_NoneD: "index_of pat s = None \<Longrightarrow> \<not> prefix pat (drop j s)"
proof (induction pat s arbitrary: j rule: index_of.induct)
  case (1 pat)
  then show ?case by (auto split: if_splits)
next
  case (2 pat c cs)
  from "2.prems" have np: "\<not> prefix pat (c # cs)" and none: "index_of pat cs = None"
    by (auto split: if_splits)
  show ?case using np "2.IH" [OF np none] by (cases j) auto
qed

lemma index_of_SomeI:
  assumes "prefix pat (drop i s)" and "\<forall>j<i. \<not> prefix pat (drop j s)" and "i \<le> length s"
  shows "index_of pat s = Some i"
proof (cases "index_of pat s")
  case None
  with assms(1) index_of_NoneD show ?thesis by blast
next
  case (Some k)
  with assms index_of_SomeD [OF Some] show ?thesis by (metis linorder_neqE_nat)
qed

lemma index_of_first_iff:
  "index_of pat s = Some i \<longleftrightarrow>
     i \<le> length s \<and> prefix pat (drop i s) \<and> (\<forall>j<i. \<not> prefix pat (drop j s))"
  using index_of_SomeD index_of_SomeI by blast

lemma index_of_None_iff: "index_of pat s = None \<longleftrightarrow> \<not> sublist pat s"
proof
  assume none: "index_of pat s = None"
  show "\<not> sublist pat s"
  proof
    assume "sublist pat s"
    then obtain ps ss where "s = ps @ pat @ ss" by (auto simp: sublist_def)
    then have "prefix pat (drop (length ps) s)" by simp
    with index_of_NoneD [OF none] show False by blast
  qed
next
  assume ns: "\<not> sublist pat s"
  show "index_of pat s = None"
  proof (cases "index_of pat s")
    case (Some i)
    then have "s = take i s @ pat @ drop (i + length pat) s"
      by (auto dest: index_of_SomeD intro: prefix_drop_append)
    with ns show ?thesis by (metis sublist_appendI)
  qed simp
qed

lemma index_of_split:
  assumes "index_of pat s = Some i"
  shows "s = take i s @ pat @ drop (i + length pat) s"
  using assms by (auto dest: index_of_SomeD intro: prefix_drop_append)

lemma index_of_le: "index_of pat s = Some i \<Longrightarrow> pat \<noteq> [] \<Longrightarrow> i + length pat \<le> length s"
  by (auto dest: index_of_SomeD intro: prefix_drop_le)

subsection \<open>Searching for one character\<close>

lemma index_of_char_notin [simp]: "c \<notin> set s \<Longrightarrow> index_of [c] s = None"
  by (induction s) auto

lemma index_of_char_None_iff: "index_of [c] s = None \<longleftrightarrow> c \<notin> set s"
  by (induction s) auto

lemma index_of_char_append:
  "c \<notin> set xs \<Longrightarrow> index_of [c] (xs @ c # ys) = Some (length xs)"
  by (induction xs) auto

lemma index_of_char_SomeD:
  assumes "index_of [c] s = Some i"
  shows "i < length s \<and> s = take i s @ c # drop (Suc i) s \<and> c \<notin> set (take i s)"
proof -
  have "c \<notin> set (take i s)"
  proof
    assume "c \<in> set (take i s)"
    then obtain j where j: "j < i" "j < length s" "s ! j = c"
      by (auto simp: in_set_conv_nth)
    then have "prefix [c] (drop j s)" by (simp add: Cons_nth_drop_Suc [symmetric])
    with index_of_SomeD [OF assms] j show False by blast
  qed
  then show ?thesis
    using index_of_split [OF assms] index_of_le [OF assms] by simp
qed

section \<open>Substrings\<close>

definition substr :: "string \<Rightarrow> nat \<Rightarrow> nat \<Rightarrow> string outcome" where
  "substr s pos n = (if length s < pos then Inl Out_of_range else Inr (take n (drop pos s)))"

definition substr_from :: "string \<Rightarrow> nat \<Rightarrow> string outcome" where
  "substr_from s pos = (if length s < pos then Inl Out_of_range else Inr (drop pos s))"

definition replace_str :: "string \<Rightarrow> nat \<Rightarrow> nat \<Rightarrow> string \<Rightarrow> string outcome" where
  "replace_str s pos n r =
     (if length s < pos then Inl Out_of_range else Inr (take pos s @ r @ drop (pos + n) s))"

lemma substr_simps [simp]:
  "pos \<le> length s \<Longrightarrow> substr s pos n = Inr (take n (drop pos s))"
  "pos \<le> length s \<Longrightarrow> substr_from s pos = Inr (drop pos s)"
  "pos \<le> length s \<Longrightarrow> replace_str s pos n r = Inr (take pos s @ r @ drop (pos + n) s)"
  by (simp_all add: substr_def substr_from_def replace_str_def)

lemma substr_from_Inr_iff: "substr_from s pos = Inr t \<longleftrightarrow> pos \<le> length s \<and> t = drop pos s"
  by (auto simp: substr_from_def)

section \<open>Characters\<close>

definition is_digit :: "char \<Rightarrow> bool" where
  "is_digit c \<longleftrightarrow> 48 \<le> (of_char c :: nat) \<and> (of_char c :: nat) \<le> 57"

definition digit_val :: "char \<Rightarrow> nat" where
  "digit_val c = of_char c - 48"

definition digit_char :: "nat \<Rightarrow> char" where
  "digit_char d = char_of (48 + d)"

text \<open>\<open>std::isspace\<close> in the C locale: space and the characters 9 to 13.\<close>

definition is_space :: "char \<Rightarrow> bool" where
  "is_space c \<longleftrightarrow> of_char c = (32 :: nat) \<or> (9 \<le> (of_char c :: nat) \<and> (of_char c :: nat) \<le> 13)"

text \<open>\<open>::tolower\<close> in the C locale.\<close>

definition to_lower :: "char \<Rightarrow> char" where
  "to_lower c = (if 65 \<le> (of_char c :: nat) \<and> (of_char c :: nat) \<le> 90
                 then char_of ((of_char c :: nat) + 32) else c)"

text \<open>What a C API sees of a string passed as \<open>c_str()\<close>: the bytes before the first NUL.\<close>

definition c_str :: "string \<Rightarrow> string" where
  "c_str s = takeWhile (\<lambda>c. c \<noteq> CHR 0x00) s"

lemma of_char_digit: "d < 10 \<Longrightarrow> of_char (digit_char d) = 48 + d"
  by (simp add: digit_char_def of_char_of)

lemma digit_char_simps [simp]:
  "d < 10 \<Longrightarrow> is_digit (digit_char d)"
  "d < 10 \<Longrightarrow> digit_val (digit_char d) = d"
  by (simp_all add: is_digit_def digit_val_def of_char_digit)

lemma digit_not_special:
  assumes "is_digit c"
  shows "\<not> is_space c" and "c \<noteq> CHR ''-''" and "c \<noteq> CHR ''+''" and "c \<noteq> CHR '' ''"
    and "c \<noteq> CHR '':''" and "c \<noteq> CHR 0x0D" and "c \<noteq> CHR 0x0A"
  using assms by (auto simp: is_digit_def is_space_def)

section \<open>Numbers\<close>

fun digits_of :: "nat \<Rightarrow> string" where
  "digits_of n = (if n < 10 then [digit_char n] else digits_of (n div 10) @ [digit_char (n mod 10)])"

declare digits_of.simps [simp del]

text \<open>\<open>std::to_string\<close> on every integer type the server prints.\<close>

definition to_string :: "int \<Rightarrow> string" where
  "to_string z = (if z < 0 then CHR ''-'' # digits_of (nat (- z)) else digits_of (nat z))"

definition digits_value :: "string \<Rightarrow> nat" where
  "digits_value ds = foldl (\<lambda>a c. 10 * a + digit_val c) 0 ds"

text \<open>
  The conversion \<open>strtol\<close> in base 10, which \<open>stoi\<close> and \<open>atoi\<close> share: white space, an
  optional sign, as many digits as there are; \<open>None\<close> when there is no digit.
\<close>

definition split_sign :: "string \<Rightarrow> bool \<times> string" where
  "split_sign s = (case s of
      [] \<Rightarrow> (False, [])
    | c # cs \<Rightarrow> if c = CHR ''-'' then (True, cs) else if c = CHR ''+'' then (False, cs)
               else (False, c # cs))"

definition strtol :: "string \<Rightarrow> int option" where
  "strtol s =
     (let (neg, rest) = split_sign (dropWhile is_space s);
          ds = takeWhile is_digit rest;
          v = int (digits_value ds)
      in if ds = [] then None else Some (if neg then - v else v))"

definition fits_int :: "int \<Rightarrow> bool" where
  "fits_int v \<longleftrightarrow> int_min \<le> v \<and> v \<le> int_max"

definition stoi :: "string \<Rightarrow> int outcome" where
  "stoi s = (case strtol s of
      None \<Rightarrow> Inl Invalid_argument
    | Some v \<Rightarrow> if fits_int v then Inr v else Inl Out_of_range)"

text \<open>
  \<open>std::atoi\<close> returns 0 when there is no number; a number that is no \<open>int\<close> is undefined
  behaviour in C, which the model makes a fault.
\<close>

definition atoi :: "string \<Rightarrow> int outcome" where
  "atoi s = (case strtol s of
      None \<Rightarrow> Inr 0
    | Some v \<Rightarrow> if fits_int v then Inr v else Inl Not_representable)"

lemma digits_of_nonempty: "digits_of n \<noteq> []"
  by (subst digits_of.simps) simp

lemma digits_of_digits: "\<forall>c \<in> set (digits_of n). is_digit c"
proof (induction n rule: digits_of.induct)
  case (1 n)
  then show ?case by (cases "n < 10") (auto simp: digits_of.simps [of n])
qed

lemma digits_value_snoc: "digits_value (ds @ [c]) = 10 * digits_value ds + digit_val c"
  by (simp add: digits_value_def)

lemma digits_value_digits_of: "digits_value (digits_of n) = n"
proof (induction n rule: digits_of.induct)
  case (1 n)
  show ?case
  proof (cases "n < 10")
    case True
    then show ?thesis by (simp add: digits_of.simps [of n] digits_value_def)
  next
    case False
    with 1 show ?thesis by (simp add: digits_of.simps [of n] digits_value_snoc)
  qed
qed

lemma takeWhile_digits_of:
  "rest = [] \<or> \<not> is_digit (hd rest) \<Longrightarrow> takeWhile is_digit (digits_of n @ rest) = digits_of n"
  using digits_of_digits [of n] by (cases rest) (auto simp: takeWhile_append2)

lemma digits_of_Cons:
  obtains d ds where "digits_of n = d # ds" and "is_digit d"
  using digits_of_nonempty [of n] digits_of_digits [of n] by (cases "digits_of n") auto

lemma split_sign_to_string:
  "split_sign (dropWhile is_space (to_string z @ rest)) =
     (z < 0, digits_of (nat \<bar>z\<bar>) @ rest)"
proof (cases "z < 0")
  case True
  then show ?thesis by (simp add: to_string_def split_sign_def is_space_def)
next
  case False
  obtain d ds where "digits_of (nat z) = d # ds" and "is_digit d" by (rule digits_of_Cons)
  with False digit_not_special [of d] show ?thesis
    by (simp add: to_string_def split_sign_def)
qed

lemma strtol_to_string:
  "rest = [] \<or> \<not> is_digit (hd rest) \<Longrightarrow> strtol (to_string z @ rest) = Some z"
  by (simp add: strtol_def split_sign_to_string takeWhile_digits_of digits_of_nonempty
      digits_value_digits_of Let_def)

lemma strtol_to_string_exact [simp]: "strtol (to_string z) = Some z"
  using strtol_to_string [of "[]" z] by simp

lemma stoi_to_string: "fits_int z \<Longrightarrow> stoi (to_string z) = Inr z"
  by (simp add: stoi_def)

lemma atoi_to_string: "fits_int z \<Longrightarrow> atoi (to_string z) = Inr z"
  by (simp add: atoi_def)

lemma stoi_empty [simp]: "stoi [] = Inl Invalid_argument"
  by (simp add: stoi_def strtol_def split_sign_def)

lemma to_string_nonneg_digits: "0 \<le> z \<Longrightarrow> \<forall>c \<in> set (to_string z). is_digit c"
  using digits_of_digits by (simp add: to_string_def)

lemma to_string_chars:
  "c \<in> set (to_string z) \<Longrightarrow> is_digit c \<or> c = CHR ''-''"
  using digits_of_digits by (auto simp: to_string_def split: if_splits)

lemma to_string_nonempty [simp]: "to_string z \<noteq> []"
  by (simp add: to_string_def digits_of_nonempty)

lemma to_string_inj: "to_string a = to_string b \<longleftrightarrow> a = b"
  by (metis option.inject strtol_to_string_exact)

section \<open>Reference text operations\<close>

text \<open>
  \<open>replace_all m r s\<close> is the result of replacing every occurrence of \<open>m\<close> in \<open>s\<close>, found from
  left to right and not overlapping, by \<open>r\<close>; the replacement text is not searched again.
  \<open>split_any seps s\<close> cuts \<open>s\<close> at every character of \<open>seps\<close>, keeping empty pieces.
\<close>

fun replace_all :: "string \<Rightarrow> string \<Rightarrow> string \<Rightarrow> string" where
  "replace_all m r [] = []"
| "replace_all m r (c # cs) =
     (if m \<noteq> [] \<and> prefix m (c # cs) then r @ replace_all m r (drop (length m - 1) cs)
      else c # replace_all m r cs)"

fun split_any :: "string \<Rightarrow> string \<Rightarrow> string list" where
  "split_any seps [] = [[]]"
| "split_any seps (c # cs) =
     (if c \<in> set seps then [] # split_any seps cs
      else (case split_any seps cs of [] \<Rightarrow> [[c]] | p # ps \<Rightarrow> (c # p) # ps))"

lemma split_any_nonempty [simp]: "split_any seps s \<noteq> []"
  by (induction s) (auto split: list.split)

lemma split_any_no_sep: "set s \<inter> set seps = {} \<Longrightarrow> split_any seps s = [s]"
  by (induction s) auto

lemma split_any_append:
  "set s \<inter> set seps = {} \<Longrightarrow> c \<in> set seps \<Longrightarrow> split_any seps (s @ c # t) = s # split_any seps t"
  by (induction s) auto

lemma replace_all_index:
  "m \<noteq> [] \<Longrightarrow> replace_all m r s =
     (case index_of m s of
        None \<Rightarrow> s
      | Some i \<Rightarrow> take i s @ r @ replace_all m r (drop (i + length m) s))"
proof (induction m s rule: index_of.induct)
  case (1 m)
  then show ?case by simp
next
  case (2 m c cs)
  show ?case
  proof (cases "prefix m (c # cs)")
    case True
    with "2.prems" show ?thesis by (cases m) auto
  next
    case False
    with 2 show ?thesis by (auto split: option.splits)
  qed
qed

lemma replace_all_None: "index_of m s = None \<Longrightarrow> replace_all m r s = s"
  by (cases "m = []") (auto simp: replace_all_index split: list.splits elim: index_of.elims)

end
