(* ===== verification/Boost_Api.thy ===== *)
theory Boost_Api
  imports Cpp_String
begin

text \<open>
  The functions of Boost the server calls are not part of the repository, so they are
  parameters: a \<open>boost_api\<close> is an argument of every definition whose code calls Boost.
  \<open>boost_documented\<close> states what the Boost documentation promises of them; it is a
  hypothesis of the theorems that need it, and \<open>boost_model\<close> is one instance that satisfies it.
\<close>

record boost_api =
  boost_split :: "string \<Rightarrow> string \<Rightarrow> string list"
    \<comment> \<open>\<open>boost::split(result, input, boost::is_any_of(separators))\<close>\<close>
  boost_iequals :: "string \<Rightarrow> string \<Rightarrow> bool"
    \<comment> \<open>\<open>boost::iequals\<close>\<close>
  boost_replace_all :: "string \<Rightarrow> string \<Rightarrow> string \<Rightarrow> string"
    \<comment> \<open>\<open>boost::replace_all(input, search, format)\<close>\<close>
  boost_lexical_cast_size :: "string \<Rightarrow> size_t option"
    \<comment> \<open>\<open>boost::lexical_cast<std::size_t>\<close>, \<open>None\<close> for \<open>bad_lexical_cast\<close>\<close>

definition boost_documented :: "boost_api \<Rightarrow> bool" where
  "boost_documented b \<longleftrightarrow>
     (\<forall>s seps. boost_split b s seps = split_any seps s) \<and>
     (\<forall>s t. boost_iequals b s t \<longleftrightarrow> map to_lower s = map to_lower t) \<and>
     (\<forall>s m r. m \<noteq> [] \<longrightarrow> boost_replace_all b s m r = replace_all m r s)"

definition boost_model :: boost_api where
  "boost_model =
     \<lparr>boost_split = (\<lambda>s seps. split_any seps s),
      boost_iequals = (\<lambda>s t. map to_lower s = map to_lower t),
      boost_replace_all = (\<lambda>s m r. replace_all m r s),
      boost_lexical_cast_size =
        (\<lambda>s. if s \<noteq> [] \<and> list_all is_digit s \<and> digits_value s < 2 ^ 64
             then Some (of_nat (digits_value s)) else None)\<rparr>"

lemma boost_model_documented: "boost_documented boost_model"
  by (simp add: boost_documented_def boost_model_def)

lemma boost_splitD: "boost_documented b \<Longrightarrow> boost_split b s seps = split_any seps s"
  by (simp add: boost_documented_def)

lemma boost_iequalsD:
  "boost_documented b \<Longrightarrow> boost_iequals b s t \<longleftrightarrow> map to_lower s = map to_lower t"
  by (simp add: boost_documented_def)

lemma boost_replace_allD:
  "boost_documented b \<Longrightarrow> m \<noteq> [] \<Longrightarrow> boost_replace_all b s m r = replace_all m r s"
  by (simp add: boost_documented_def)

end
