(* ===== verification/Config_Parser.thy ===== *)
theory Config_Parser
  imports Boost_Api
begin

text \<open>
  The configuration language: \<open>src/config_parser.cc\<close> and \<open>include/config_parser.h\<close>.
  A configuration is a list of statements, each a list of tokens with an optional child
  block. This theory holds the data, the queries \<open>Find\<close> and \<open>FindBlocks\<close>, the printer
  \<open>ToString\<close>, the lexer \<open>ParseToken\<close> (a state machine over the input) and the driver
  \<open>Parse\<close>, each with the lemmas that describe it on every branch. The round trip between
  \<open>Parse\<close> and \<open>ToString\<close> is in \<open>Config_Roundtrip\<close>.
\<close>

section \<open>Data\<close>

datatype NginxConfigStatement =
    Statement (tokens: "string list") (child_block: "NginxConfig option")
and NginxConfig =
    Config (statements: "NginxConfigStatement list")

datatype TokenType =
    TOKEN_TYPE_START
  | TOKEN_TYPE_NORMAL
  | TOKEN_TYPE_START_BLOCK
  | TOKEN_TYPE_END_BLOCK
  | TOKEN_TYPE_COMMENT
  | TOKEN_TYPE_STATEMENT_END
  | TOKEN_TYPE_EOF
  | TOKEN_TYPE_ERROR

text \<open>The enumeration numbers its members, and C++ orders them by these numbers.\<close>

primrec TokenType_number :: "TokenType \<Rightarrow> nat" where
  "TokenType_number TOKEN_TYPE_START = 0"
| "TokenType_number TOKEN_TYPE_NORMAL = 1"
| "TokenType_number TOKEN_TYPE_START_BLOCK = 2"
| "TokenType_number TOKEN_TYPE_END_BLOCK = 3"
| "TokenType_number TOKEN_TYPE_COMMENT = 4"
| "TokenType_number TOKEN_TYPE_STATEMENT_END = 5"
| "TokenType_number TOKEN_TYPE_EOF = 6"
| "TokenType_number TOKEN_TYPE_ERROR = 7"

lemma TokenType_number_eq [simp]: "TokenType_number a = TokenType_number b \<longleftrightarrow> a = b"
  by (cases a; cases b) simp_all

instantiation TokenType :: linorder
begin

definition less_eq_TokenType :: "TokenType \<Rightarrow> TokenType \<Rightarrow> bool" where
  "a \<le> b \<longleftrightarrow> TokenType_number a \<le> TokenType_number b"

definition less_TokenType :: "TokenType \<Rightarrow> TokenType \<Rightarrow> bool" where
  "a < b \<longleftrightarrow> TokenType_number a < TokenType_number b"

instance
  by standard (auto simp: less_eq_TokenType_def less_TokenType_def)

end

datatype TokenParserState =
    TOKEN_STATE_INITIAL_WHITESPACE
  | TOKEN_STATE_SINGLE_QUOTE
  | TOKEN_STATE_DOUBLE_QUOTE
  | TOKEN_STATE_TOKEN_TYPE_COMMENT
  | TOKEN_STATE_TOKEN_TYPE_NORMAL

definition TokenTypeAsString :: "TokenType \<Rightarrow> string" where
  "TokenTypeAsString type = (case type of
      TOKEN_TYPE_START \<Rightarrow> ''TOKEN_TYPE_START''
    | TOKEN_TYPE_NORMAL \<Rightarrow> ''TOKEN_TYPE_NORMAL''
    | TOKEN_TYPE_START_BLOCK \<Rightarrow> ''TOKEN_TYPE_START_BLOCK''
    | TOKEN_TYPE_END_BLOCK \<Rightarrow> ''TOKEN_TYPE_END_BLOCK''
    | TOKEN_TYPE_COMMENT \<Rightarrow> ''TOKEN_TYPE_COMMENT''
    | TOKEN_TYPE_STATEMENT_END \<Rightarrow> ''TOKEN_TYPE_STATEMENT_END''
    | TOKEN_TYPE_EOF \<Rightarrow> ''TOKEN_TYPE_EOF''
    | TOKEN_TYPE_ERROR \<Rightarrow> ''TOKEN_TYPE_ERROR'')"

section \<open>Printing\<close>

definition indent :: "nat \<Rightarrow> string" where
  "indent depth = concat (replicate depth ''  '')"

fun join_tokens :: "string list \<Rightarrow> string" where
  "join_tokens [] = []"
| "join_tokens [t] = t"
| "join_tokens (t # ts) = t @ '' '' @ join_tokens ts"

fun statement_ToString :: "NginxConfigStatement \<Rightarrow> nat \<Rightarrow> string"
and config_ToString :: "NginxConfig \<Rightarrow> nat \<Rightarrow> string"
and statements_ToString :: "NginxConfigStatement list \<Rightarrow> nat \<Rightarrow> string" where
  "statement_ToString (Statement ts None) depth =
     indent depth @ join_tokens ts @ '';'' @ [CHR 0x0A]"
| "statement_ToString (Statement ts (Some block)) depth =
     indent depth @ join_tokens ts @ '' {'' @ [CHR 0x0A] @ config_ToString block (depth + 1)
       @ indent depth @ ''}'' @ [CHR 0x0A]"
| "config_ToString (Config sts) depth = statements_ToString sts depth"
| "statements_ToString [] depth = []"
| "statements_ToString (st # sts) depth =
     statement_ToString st depth @ statements_ToString sts depth"

section \<open>Queries\<close>

text \<open>
  \<open>Find\<close> threads \<open>value\<close> through the statements; a statement whose first token is the first
  key overwrites it. \<open>vectorKey.front()\<close> of an empty vector and \<open>tokens[1]\<close> of a one-token
  statement are reads out of range.
\<close>

function (sequential) statement_Find :: "NginxConfigStatement \<Rightarrow> string list \<Rightarrow> string \<Rightarrow> string outcome"
and config_Find :: "NginxConfig \<Rightarrow> string list \<Rightarrow> string \<Rightarrow> string outcome"
and statements_Find :: "NginxConfigStatement list \<Rightarrow> string list \<Rightarrow> string \<Rightarrow> string outcome" where
  "statement_Find st [] value = Inl Bad_index"
| "statement_Find (Statement ts child) (key # keys) value =
     (if ts \<noteq> [] \<and> hd ts = key then
        if keys = [] then
          (case ts of _ # v # _ \<Rightarrow> Inr v | _ \<Rightarrow> Inl Bad_index)
        else (case child of
            Some block \<Rightarrow> config_Find block keys value
          | None \<Rightarrow> Inr value)
      else Inr value)"
| "config_Find (Config sts) keys value = statements_Find sts keys value"
| "statements_Find [] keys value = Inr value"
| "statements_Find (st # sts) keys value =
     obind (statement_Find st keys value) (\<lambda>v. statements_Find sts keys v)"

  by pat_completeness auto
termination
  by (relation "measure (\<lambda>x. case x of
        Inl (st, keys, v) \<Rightarrow> size st
      | Inr (Inl (c, keys, v)) \<Rightarrow> size c
      | Inr (Inr (sts, keys, v)) \<Rightarrow> size_list size sts)") auto

definition Find :: "boost_api \<Rightarrow> NginxConfig \<Rightarrow> string \<Rightarrow> string outcome" where
  "Find b config key = config_Find config (boost_split b key ''.'') []"

text \<open>
  \<open>FindBlocks\<close> collects child blocks. With more than one key left, a matching statement calls
  itself with the remaining keys (\<open>FindBlocks(newVec, blocks)\<close> inside the class is the
  statement's own member), not its child block.
\<close>

function (sequential) statement_FindBlocks ::
    "NginxConfigStatement \<Rightarrow> string list \<Rightarrow> NginxConfig list \<Rightarrow> NginxConfig list outcome"
and config_FindBlocks ::
    "NginxConfig \<Rightarrow> string list \<Rightarrow> NginxConfig list \<Rightarrow> NginxConfig list outcome"
and statements_FindBlocks ::
    "NginxConfigStatement list \<Rightarrow> string list \<Rightarrow> NginxConfig list \<Rightarrow> NginxConfig list outcome" where
  "statement_FindBlocks st [] blocks = Inl Bad_index"
| "statement_FindBlocks (Statement ts child) (key # keys) blocks =
     (if ts \<noteq> [] then
        if hd ts = key then
          if keys = [] then
            (case child of Some block \<Rightarrow> Inr (blocks @ [block]) | None \<Rightarrow> Inr blocks)
          else statement_FindBlocks (Statement ts child) keys blocks
        else (case child of
            Some block \<Rightarrow> config_FindBlocks block (key # keys) blocks
          | None \<Rightarrow> Inr blocks)
      else Inr blocks)"
| "config_FindBlocks (Config sts) keys blocks = statements_FindBlocks sts keys blocks"
| "statements_FindBlocks [] keys blocks = Inr blocks"
| "statements_FindBlocks (st # sts) keys blocks =
     obind (statement_FindBlocks st keys blocks) (\<lambda>bs. statements_FindBlocks sts keys bs)"

  by pat_completeness auto
termination
  by (relation "measures
       [\<lambda>x. case x of
          Inl (st, keys, bs) \<Rightarrow> size st
        | Inr (Inl (c, keys, bs)) \<Rightarrow> size c
        | Inr (Inr (sts, keys, bs)) \<Rightarrow> size_list size sts,
        \<lambda>x. case x of
          Inl (st, keys, bs) \<Rightarrow> length keys
        | Inr (Inl (c, keys, bs)) \<Rightarrow> length keys
        | Inr (Inr (sts, keys, bs)) \<Rightarrow> length keys]") auto

definition FindBlocks :: "boost_api \<Rightarrow> NginxConfig \<Rightarrow> string \<Rightarrow> NginxConfig list outcome" where
  "FindBlocks b config key = config_FindBlocks config (boost_split b key ''.'') []"

section \<open>The lexer\<close>

text \<open>
  \<open>ParseToken\<close> reads the stream from its start: \<open>value\<close> is the text collected so far, the
  result is the token's type, its text and the unread input. \<open>unget\<close> is leaving the
  character in the input. Note the delimiters of a plain token as the code writes them: the
  tab is tested twice and the carriage return is not tested.
\<close>

fun ParseToken_loop ::
    "TokenParserState \<Rightarrow> string \<Rightarrow> string \<Rightarrow> TokenType \<times> string \<times> string" where
  "ParseToken_loop state value [] =
     (if state = TOKEN_STATE_SINGLE_QUOTE \<or> state = TOKEN_STATE_DOUBLE_QUOTE
      then (TOKEN_TYPE_ERROR, value, []) else (TOKEN_TYPE_EOF, value, []))"
| "ParseToken_loop TOKEN_STATE_INITIAL_WHITESPACE value (c # input) =
     (if c = CHR ''{'' then (TOKEN_TYPE_START_BLOCK, [c], input)
      else if c = CHR ''}'' then (TOKEN_TYPE_END_BLOCK, [c], input)
      else if c = CHR ''#'' then ParseToken_loop TOKEN_STATE_TOKEN_TYPE_COMMENT [c] input
      else if c = CHR 0x22 then ParseToken_loop TOKEN_STATE_DOUBLE_QUOTE [c] input
      else if c = CHR 0x27 then ParseToken_loop TOKEN_STATE_SINGLE_QUOTE [c] input
      else if c = CHR '';'' then (TOKEN_TYPE_STATEMENT_END, [c], input)
      else if c = CHR '' '' \<or> c = CHR 0x09 \<or> c = CHR 0x0A \<or> c = CHR 0x0D
        then ParseToken_loop TOKEN_STATE_INITIAL_WHITESPACE value input
      else ParseToken_loop TOKEN_STATE_TOKEN_TYPE_NORMAL (value @ [c]) input)"
| "ParseToken_loop TOKEN_STATE_SINGLE_QUOTE value (c # input) =
     (if c = CHR 0x27 then (TOKEN_TYPE_NORMAL, value @ [c], input)
      else ParseToken_loop TOKEN_STATE_SINGLE_QUOTE (value @ [c]) input)"
| "ParseToken_loop TOKEN_STATE_DOUBLE_QUOTE value (c # input) =
     (if c = CHR 0x22 then (TOKEN_TYPE_NORMAL, value @ [c], input)
      else ParseToken_loop TOKEN_STATE_DOUBLE_QUOTE (value @ [c]) input)"
| "ParseToken_loop TOKEN_STATE_TOKEN_TYPE_COMMENT value (c # input) =
     (if c = CHR 0x0A \<or> c = CHR 0x0D then (TOKEN_TYPE_COMMENT, value, input)
      else ParseToken_loop TOKEN_STATE_TOKEN_TYPE_COMMENT (value @ [c]) input)"
| "ParseToken_loop TOKEN_STATE_TOKEN_TYPE_NORMAL value (c # input) =
     (if c = CHR '' '' \<or> c = CHR 0x09 \<or> c = CHR 0x0A \<or> c = CHR 0x09 \<or> c = CHR '';''
         \<or> c = CHR ''{'' \<or> c = CHR ''}''
      then (TOKEN_TYPE_NORMAL, value, c # input)
      else ParseToken_loop TOKEN_STATE_TOKEN_TYPE_NORMAL (value @ [c]) input)"

definition ParseToken :: "string \<Rightarrow> TokenType \<times> string \<times> string" where
  "ParseToken input = ParseToken_loop TOKEN_STATE_INITIAL_WHITESPACE [] input"

section \<open>The driver\<close>

text \<open>
  The stack of \<open>NginxConfig*\<close> is the stack of the statement lists of the blocks being built,
  innermost first. The C++ links a new block into its statement when the block starts and
  then works on it through the pointer; here the link is written when the block is left
  (\<open>close_block\<close>), and \<open>unwind\<close> writes the links of all open blocks, which is the value of
  the out-parameter at any point. The number of open blocks is an \<open>int\<close> in the code, which 2 to
  the 31 open blocks would overflow.
\<close>

record parser_state =
  config_stack :: "NginxConfigStatement list list"
  last_token_type :: TokenType
  block_count :: int

datatype parse_step = Continue parser_state | Break | Return_true | Fail fault

definition push_statement :: "NginxConfigStatement list list \<Rightarrow> NginxConfigStatement list list option" where
  "push_statement stack = (case stack of
      [] \<Rightarrow> None
    | frame # below \<Rightarrow> Some ((frame @ [Statement [] None]) # below))"

definition push_token :: "string \<Rightarrow> NginxConfigStatement list list \<Rightarrow> NginxConfigStatement list list option" where
  "push_token token stack = (case stack of
      [] \<Rightarrow> None
    | frame # below \<Rightarrow>
        if frame = [] then None
        else Some ((butlast frame @ [Statement (tokens (last frame) @ [token]) (child_block (last frame))])
                    # below))"

definition open_block :: "NginxConfigStatement list list \<Rightarrow> NginxConfigStatement list list option" where
  "open_block stack = (case stack of
      [] \<Rightarrow> None
    | frame # below \<Rightarrow>
        if frame = [] then None
        else Some ([] # (butlast frame @ [Statement (tokens (last frame)) None]) # below))"

definition close_block :: "NginxConfigStatement list list \<Rightarrow> NginxConfigStatement list list option" where
  "close_block stack = (case stack of
      frame # below # rest \<Rightarrow>
        if below = [] then None
        else Some ((butlast below @ [Statement (tokens (last below)) (Some (Config frame))]) # rest)
    | _ \<Rightarrow> None)"

fun unwind :: "NginxConfigStatement list list \<Rightarrow> NginxConfig" where
  "unwind [] = Config []"
| "unwind [frame] = Config frame"
| "unwind (frame # below # rest) =
     unwind ((butlast below @ [Statement (tokens (last below)) (Some (Config frame))]) # rest)"

definition with_stack ::
    "NginxConfigStatement list list option \<Rightarrow> (NginxConfigStatement list list \<Rightarrow> parse_step) \<Rightarrow> parse_step" where
  "with_stack s k = (case s of None \<Rightarrow> Fail Bad_index | Some stack \<Rightarrow> k stack)"

definition Parse_step :: "parser_state \<Rightarrow> TokenType \<Rightarrow> string \<Rightarrow> parse_step" where
  "Parse_step st token_type token =
     (let prev = last_token_type st in
      if token_type = TOKEN_TYPE_ERROR then Break
      else if token_type = TOKEN_TYPE_COMMENT then Continue st
      else if token_type = TOKEN_TYPE_START then Break
      else if token_type = TOKEN_TYPE_NORMAL then
        (if prev = TOKEN_TYPE_START \<or> prev = TOKEN_TYPE_STATEMENT_END \<or> prev = TOKEN_TYPE_START_BLOCK
            \<or> prev = TOKEN_TYPE_END_BLOCK \<or> prev = TOKEN_TYPE_NORMAL
         then with_stack
                (if prev \<noteq> TOKEN_TYPE_NORMAL then push_statement (config_stack st)
                 else Some (config_stack st))
                (\<lambda>s1. with_stack (push_token token s1)
                  (\<lambda>s2. Continue (st\<lparr>config_stack := s2, last_token_type := token_type\<rparr>)))
         else Break)
      else if token_type = TOKEN_TYPE_STATEMENT_END then
        (if prev \<noteq> TOKEN_TYPE_NORMAL then Break
         else Continue (st\<lparr>last_token_type := token_type\<rparr>))
      else if token_type = TOKEN_TYPE_START_BLOCK then
        (if prev \<noteq> TOKEN_TYPE_NORMAL then Break
         else with_stack (open_block (config_stack st))
                (\<lambda>s. Continue (st\<lparr>config_stack := s, block_count := block_count st + 1,
                                  last_token_type := token_type\<rparr>)))
      else if token_type = TOKEN_TYPE_END_BLOCK then
        (if (prev \<noteq> TOKEN_TYPE_STATEMENT_END \<and> prev \<noteq> TOKEN_TYPE_END_BLOCK) \<or> block_count st = 0
         then Break
         else with_stack (close_block (config_stack st))
                (\<lambda>s. Continue (st\<lparr>config_stack := s, block_count := block_count st - 1,
                                  last_token_type := token_type\<rparr>)))
      else if token_type = TOKEN_TYPE_EOF then
        (if (prev \<noteq> TOKEN_TYPE_STATEMENT_END \<and> prev \<noteq> TOKEN_TYPE_END_BLOCK \<and> prev \<noteq> TOKEN_TYPE_START)
            \<or> block_count st \<noteq> 0
         then Break else Return_true)
      else Break)"

lemma ParseToken_loop_le: "length (snd (snd (ParseToken_loop state v input))) \<le> length input"
proof (induction input arbitrary: state v)
  case Nil
  then show ?case by simp
next
  case (Cons c input)
  then show ?case by (cases state) (simp_all add: le_SucI)
qed

lemma ParseToken_loop_less:
  "fst (ParseToken_loop TOKEN_STATE_INITIAL_WHITESPACE v input) \<notin> {TOKEN_TYPE_EOF, TOKEN_TYPE_ERROR} \<Longrightarrow>
   length (snd (snd (ParseToken_loop TOKEN_STATE_INITIAL_WHITESPACE v input))) < length input"
proof (induction input)
  case Nil
  then show ?case by simp
next
  case (Cons c input)
  then show ?case by (simp add: ParseToken_loop_le less_Suc_eq_le split: if_split_asm)
qed

lemma ParseToken_consumes:
  assumes "ParseToken input = (ty, tok, rest)" and "ty \<noteq> TOKEN_TYPE_EOF" and "ty \<noteq> TOKEN_TYPE_ERROR"
  shows "length rest < length input"
  using assms ParseToken_loop_less [of "[]" input] by (simp add: ParseToken_def)

lemma Parse_step_stops:
  "Parse_step st TOKEN_TYPE_EOF tok \<noteq> Continue st'" "Parse_step st TOKEN_TYPE_ERROR tok \<noteq> Continue st'"
  by (simp_all add: Parse_step_def Let_def)

function Parse_loop :: "parser_state \<Rightarrow> string \<Rightarrow> bool outcome \<times> parser_state" where
  "Parse_loop st input =
     (case ParseToken input of (token_type, token, rest) \<Rightarrow>
        (case Parse_step st token_type token of
           Continue st' \<Rightarrow> Parse_loop st' rest
         | Break \<Rightarrow> (Inl Config_parser_exception, st)
         | Return_true \<Rightarrow> (Inr True, st)
         | Fail e \<Rightarrow> (Inl e, st)))"
  by pat_completeness auto
termination
proof (relation "measure (\<lambda>(st, input). length input)", goal_cases)
  case 1
  then show ?case by simp
next
  case 2
  then show ?case
    using ParseToken_consumes Parse_step_stops by (metis in_measure case_prod_conv)
qed

declare Parse_loop.simps [simp del]

text \<open>
  \<open>Parse(std::istream*, NginxConfig*)\<close>: the second component is what the out-parameter holds
  when the call returns or throws.
\<close>

definition parser_start :: "NginxConfig \<Rightarrow> parser_state" where
  "parser_start config =
     \<lparr>config_stack = [statements config], last_token_type = TOKEN_TYPE_START, block_count = 0\<rparr>"

definition Parse :: "string \<Rightarrow> NginxConfig \<Rightarrow> bool outcome \<times> NginxConfig" where
  "Parse config_file config =
     (case Parse_loop (parser_start config) config_file of (r, st) \<Rightarrow> (r, unwind (config_stack st)))"

text \<open>\<open>Parse(const char*, NginxConfig*)\<close>: \<open>files\<close> gives the content of the files that open.\<close>

definition Parse_file ::
    "(string \<Rightarrow> string option) \<Rightarrow> string \<Rightarrow> NginxConfig \<Rightarrow> bool outcome \<times> NginxConfig" where
  "Parse_file files file_name config = (case files file_name of
      None \<Rightarrow> (Inr False, config)
    | Some text \<Rightarrow> Parse text config)"

end
