(* ===== verification/Config_Roundtrip.thy ===== *)
theory Config_Roundtrip
  imports Config_Parser
begin

text \<open>
  What \<open>Parse\<close> and \<open>ToString\<close> guarantee together. \<open>wf_config\<close> describes the configurations
  the parser can produce; the parser's loop keeps \<open>parser_inv\<close>, so it never reads the back of
  an empty vector or the top of an empty stack and what it accepts is well formed; and
  printing any well-formed configuration and parsing the text gives the configuration back.
\<close>

section \<open>Well-formed configurations\<close>

definition blank :: "char \<Rightarrow> bool" where
  "blank c \<longleftrightarrow> c = CHR '' '' \<or> c = CHR 0x09 \<or> c = CHR 0x0A \<or> c = CHR 0x0D"

definition ends_plain :: "char \<Rightarrow> bool" where
  "ends_plain c \<longleftrightarrow> c = CHR '' '' \<or> c = CHR 0x09 \<or> c = CHR 0x0A \<or> c = CHR '';''
     \<or> c = CHR ''{'' \<or> c = CHR ''}''"

definition starts_plain :: "char \<Rightarrow> bool" where
  "starts_plain c \<longleftrightarrow> \<not> ends_plain c \<and> c \<noteq> CHR 0x0D \<and> c \<noteq> CHR ''#'' \<and> c \<noteq> CHR 0x22 \<and> c \<noteq> CHR 0x27"

definition plain_token :: "string \<Rightarrow> bool" where
  "plain_token t \<longleftrightarrow> t \<noteq> [] \<and> starts_plain (hd t) \<and> list_all (\<lambda>c. \<not> ends_plain c) (tl t)"

definition quoted_token :: "string \<Rightarrow> bool" where
  "quoted_token t \<longleftrightarrow> 2 \<le> length t \<and> (hd t = CHR 0x22 \<or> hd t = CHR 0x27) \<and> last t = hd t
     \<and> hd t \<notin> set (butlast (tl t))"

definition wf_token :: "string \<Rightarrow> bool" where
  "wf_token t \<longleftrightarrow> plain_token t \<or> quoted_token t"

fun wf_statement :: "NginxConfigStatement \<Rightarrow> bool"
and wf_config :: "NginxConfig \<Rightarrow> bool"
and wf_statements :: "NginxConfigStatement list \<Rightarrow> bool" where
  "wf_statement (Statement ts None) = (ts \<noteq> [] \<and> list_all wf_token ts)"
| "wf_statement (Statement ts (Some block)) =
     (ts \<noteq> [] \<and> list_all wf_token ts \<and> statements block \<noteq> [] \<and> wf_config block)"
| "wf_config (Config sts) = wf_statements sts"
| "wf_statements [] = True"
| "wf_statements (st # sts) = (wf_statement st \<and> wf_statements sts)"

lemma wf_statements_iff: "wf_statements sts \<longleftrightarrow> (\<forall>st \<in> set sts. wf_statement st)"
  by (induction sts) auto

lemma wf_config_iff: "wf_config c \<longleftrightarrow> wf_statements (statements c)"
  by (cases c) simp

lemma wf_statementD:
  "wf_statement st \<Longrightarrow> tokens st \<noteq> [] \<and> list_all wf_token (tokens st)"
  by (cases st rule: wf_statement.cases) auto

section \<open>Reading one token\<close>

lemma ParseToken_blank: "blank c \<Longrightarrow> ParseToken (c # s) = ParseToken s"
  by (auto simp: ParseToken_def blank_def)

lemma ParseToken_blanks: "list_all blank ws \<Longrightarrow> ParseToken (ws @ s) = ParseToken s"
  by (induction ws) (simp_all add: ParseToken_blank)

lemma ParseToken_loop_plain:
  "list_all (\<lambda>c. \<not> ends_plain c) t \<Longrightarrow> ends_plain d \<Longrightarrow>
   ParseToken_loop TOKEN_STATE_TOKEN_TYPE_NORMAL v (t @ d # s) = (TOKEN_TYPE_NORMAL, v @ t, d # s)"
proof (induction t arbitrary: v)
  case Nil
  then show ?case by (simp add: ends_plain_def split: if_split_asm) blast
next
  case (Cons c t)
  then have "\<not> ends_plain c" by simp
  then have "ParseToken_loop TOKEN_STATE_TOKEN_TYPE_NORMAL v ((c # t) @ d # s)
      = ParseToken_loop TOKEN_STATE_TOKEN_TYPE_NORMAL (v @ [c]) (t @ d # s)"
    by (simp add: ends_plain_def)
  with Cons show ?case by simp
qed

lemma ParseToken_loop_plain_eof:
  "list_all (\<lambda>c. \<not> ends_plain c) t \<Longrightarrow>
   ParseToken_loop TOKEN_STATE_TOKEN_TYPE_NORMAL v t = (TOKEN_TYPE_EOF, v @ t, [])"
proof (induction t arbitrary: v)
  case Nil
  then show ?case by simp
next
  case (Cons c t)
  then have "\<not> ends_plain c" by simp
  then have "ParseToken_loop TOKEN_STATE_TOKEN_TYPE_NORMAL v (c # t)
      = ParseToken_loop TOKEN_STATE_TOKEN_TYPE_NORMAL (v @ [c]) t"
    by (simp add: ends_plain_def)
  with Cons show ?case by simp
qed

lemma ParseToken_starts_plain:
  "starts_plain c \<Longrightarrow>
   ParseToken (c # s) = ParseToken_loop TOKEN_STATE_TOKEN_TYPE_NORMAL [c] s"
  by (simp add: ParseToken_def starts_plain_def ends_plain_def)

lemma ParseToken_plain:
  assumes "plain_token t" and "ends_plain d"
  shows "ParseToken (t @ d # s) = (TOKEN_TYPE_NORMAL, t, d # s)"
  using assms by (cases t) (simp_all add: plain_token_def ParseToken_starts_plain ParseToken_loop_plain)

lemma ParseToken_loop_double:
  "CHR 0x22 \<notin> set t \<Longrightarrow> ParseToken_loop TOKEN_STATE_DOUBLE_QUOTE v (t @ CHR 0x22 # s)
     = (TOKEN_TYPE_NORMAL, v @ t @ [CHR 0x22], s)"
  by (induction t arbitrary: v) auto

lemma ParseToken_loop_single:
  "CHR 0x27 \<notin> set t \<Longrightarrow> ParseToken_loop TOKEN_STATE_SINGLE_QUOTE v (t @ CHR 0x27 # s)
     = (TOKEN_TYPE_NORMAL, v @ t @ [CHR 0x27], s)"
  by (induction t arbitrary: v) auto

lemma quoted_tokenE:
  assumes "quoted_token t"
  obtains q body where "t = q # body @ [q]" and "q = CHR 0x22 \<or> q = CHR 0x27" and "q \<notin> set body"
proof -
  from assms have "tl t \<noteq> []" and "t \<noteq> []"
    by (cases t; simp add: quoted_token_def; cases "tl t"; simp)+
  then obtain q u where t: "t = q # u" and u: "u \<noteq> []" by (cases t) simp_all
  from u have "u = butlast u @ [last u]" by simp
  with assms t u show thesis by (intro that [of q "butlast u"]) (auto simp: quoted_token_def)
qed

lemma quoted_tokenI:
  "q = CHR 0x22 \<or> q = CHR 0x27 \<Longrightarrow> q \<notin> set body \<Longrightarrow> quoted_token (q # body @ [q])"
  by (auto simp: quoted_token_def)

lemma ParseToken_quoted:
  assumes "quoted_token t"
  shows "ParseToken (t @ s) = (TOKEN_TYPE_NORMAL, t, s)"
proof -
  from assms obtain q body where "t = q # body @ [q]" "q = CHR 0x22 \<or> q = CHR 0x27" "q \<notin> set body"
    by (rule quoted_tokenE)
  then show ?thesis
    by (elim disjE) (simp_all add: ParseToken_def ParseToken_loop_double ParseToken_loop_single)
qed

lemma ParseToken_wf:
  assumes "wf_token t" and "ends_plain d"
  shows "ParseToken (t @ d # s) = (TOKEN_TYPE_NORMAL, t, d # s)"
  using assms ParseToken_plain ParseToken_quoted by (auto simp: wf_token_def)

lemma ParseToken_punct [simp]:
  "ParseToken (CHR '';'' # s) = (TOKEN_TYPE_STATEMENT_END, '';'', s)"
  "ParseToken (CHR ''{'' # s) = (TOKEN_TYPE_START_BLOCK, ''{'', s)"
  "ParseToken (CHR ''}'' # s) = (TOKEN_TYPE_END_BLOCK, ''}'', s)"
  "ParseToken [] = (TOKEN_TYPE_EOF, [], [])"
  by (simp_all add: ParseToken_def)

text \<open>Every token the lexer calls NORMAL is well formed.\<close>

lemma ParseToken_loop_normal_state:
  "ParseToken_loop TOKEN_STATE_TOKEN_TYPE_NORMAL v s = (TOKEN_TYPE_NORMAL, tok, rest) \<Longrightarrow>
   plain_token v \<Longrightarrow> plain_token tok"
proof (induction s arbitrary: v)
  case Nil
  then show ?case by simp
next
  case (Cons c s)
  show ?case
  proof (cases "ends_plain c")
    case True
    with Cons.prems show ?thesis by (auto simp: ends_plain_def)
  next
    case False
    with Cons.prems(2) have "plain_token (v @ [c])" by (cases v) (auto simp: plain_token_def)
    moreover from False Cons.prems(1)
    have "ParseToken_loop TOKEN_STATE_TOKEN_TYPE_NORMAL (v @ [c]) s = (TOKEN_TYPE_NORMAL, tok, rest)"
      by (simp add: ends_plain_def)
    ultimately show ?thesis using Cons.IH by blast
  qed
qed

lemma ParseToken_loop_double_state:
  "ParseToken_loop TOKEN_STATE_DOUBLE_QUOTE (CHR 0x22 # v) s = (TOKEN_TYPE_NORMAL, tok, rest) \<Longrightarrow>
   CHR 0x22 \<notin> set v \<Longrightarrow> quoted_token tok"
proof (induction s arbitrary: v)
  case Nil
  then show ?case by simp
next
  case (Cons c s)
  show ?case
  proof (cases "c = CHR 0x22")
    case True
    with Cons.prems show ?thesis using quoted_tokenI [of "CHR 0x22" v] by auto
  next
    case False
    with Cons show ?thesis by simp
  qed
qed

lemma ParseToken_loop_single_state:
  "ParseToken_loop TOKEN_STATE_SINGLE_QUOTE (CHR 0x27 # v) s = (TOKEN_TYPE_NORMAL, tok, rest) \<Longrightarrow>
   CHR 0x27 \<notin> set v \<Longrightarrow> quoted_token tok"
proof (induction s arbitrary: v)
  case Nil
  then show ?case by simp
next
  case (Cons c s)
  show ?case
  proof (cases "c = CHR 0x27")
    case True
    with Cons.prems show ?thesis using quoted_tokenI [of "CHR 0x27" v] by auto
  next
    case False
    with Cons show ?thesis by simp
  qed
qed

lemma ParseToken_loop_comment_state:
  "ParseToken_loop TOKEN_STATE_TOKEN_TYPE_COMMENT v s \<noteq> (TOKEN_TYPE_NORMAL, tok, rest)"
  by (induction s arbitrary: v) auto

lemma char_class:
  "\<not> blank c \<Longrightarrow> \<not> starts_plain c \<Longrightarrow>
   c = CHR 0x22 \<or> c = CHR 0x27 \<or> c = CHR ''#'' \<or> (c = CHR '';'' \<or> c = CHR ''{'' \<or> c = CHR ''}'')"
  by (rule ccontr) (simp add: blank_def starts_plain_def ends_plain_def)

lemma char_cases:
  obtains (blank) "blank c" | (plain) "starts_plain c" | (double) "c = CHR 0x22"
    | (single) "c = CHR 0x27" | (comment) "c = CHR ''#''"
    | (punct) "c = CHR '';'' \<or> c = CHR ''{'' \<or> c = CHR ''}''"
proof (cases "blank c")
  case True
  then show thesis by (rule blank)
next
  case nb: False
  show thesis
  proof (cases "starts_plain c")
    case True
    then show thesis by (rule plain)
  next
    case False
    from char_class [OF nb this] show thesis
      by (elim disjE) (rule double single comment punct; simp)+
  qed
qed

lemma ParseToken_normal_wf: "ParseToken s = (TOKEN_TYPE_NORMAL, tok, rest) \<Longrightarrow> wf_token tok"
proof (induction s)
  case Nil
  then show ?case by simp
next
  case (Cons c s)
  show ?case
  proof (cases rule: char_cases [of c])
    case blank
    with Cons show ?thesis by (simp add: ParseToken_blank)
  next
    case plain
    with Cons.prems have "plain_token tok"
      using ParseToken_loop_normal_state [of "[c]" s tok rest]
      by (simp add: ParseToken_starts_plain plain_token_def)
    then show ?thesis by (simp add: wf_token_def)
  next
    case double
    with Cons.prems show ?thesis
      using ParseToken_loop_double_state [of "[]" s tok rest] by (simp add: ParseToken_def wf_token_def)
  next
    case single
    with Cons.prems show ?thesis
      using ParseToken_loop_single_state [of "[]" s tok rest] by (simp add: ParseToken_def wf_token_def)
  next
    case comment
    with Cons.prems show ?thesis by (simp add: ParseToken_def ParseToken_loop_comment_state)
  next
    case punct
    then have "fst (ParseToken (c # s)) \<noteq> TOKEN_TYPE_NORMAL"
      by (elim disjE) (simp_all only: ParseToken_punct fst_conv TokenType.distinct simp_thms)
    with Cons.prems show ?thesis by simp
  qed
qed

section \<open>The driver on printed text\<close>

definition ready :: "parser_state \<Rightarrow> bool" where
  "ready st \<longleftrightarrow> config_stack st \<noteq> [] \<and> 0 \<le> block_count st \<and>
     last_token_type st \<in> {TOKEN_TYPE_START, TOKEN_TYPE_STATEMENT_END, TOKEN_TYPE_START_BLOCK,
                            TOKEN_TYPE_END_BLOCK}"

definition end_type :: "NginxConfigStatement \<Rightarrow> TokenType" where
  "end_type st = (case child_block st of None \<Rightarrow> TOKEN_TYPE_STATEMENT_END | Some _ \<Rightarrow> TOKEN_TYPE_END_BLOCK)"

text \<open>The state after reading the statements \<open>sts\<close> in the block on top of the stack.\<close>

definition after_statements :: "NginxConfigStatement list \<Rightarrow> parser_state \<Rightarrow> parser_state" where
  "after_statements sts st =
     st\<lparr>config_stack := (hd (config_stack st) @ sts) # tl (config_stack st),
        last_token_type := (if sts = [] then last_token_type st else end_type (last sts))\<rparr>"

lemma Parse_loop_Continue:
  "ParseToken s = (ty, tok, rest) \<Longrightarrow> Parse_step st ty tok = Continue st' \<Longrightarrow>
   Parse_loop st s = Parse_loop st' rest"
  by (simp add: Parse_loop.simps)

lemma Parse_loop_blanks: "list_all blank ws \<Longrightarrow> Parse_loop st (ws @ s) = Parse_loop st s"
  by (simp add: Parse_loop.simps [of st "ws @ s"] Parse_loop.simps [of st s] ParseToken_blanks)

lemma blank_indent: "list_all blank (indent n)"
  by (induction n) (simp_all add: indent_def blank_def)

lemma Parse_loop_newline: "Parse_loop st (CHR 0x0A # s) = Parse_loop st s"
  using Parse_loop_blanks [of "[CHR 0x0A]" st s] by (simp add: blank_def)

lemma Parse_loop_space: "Parse_loop st (CHR '' '' # s) = Parse_loop st s"
  using Parse_loop_blanks [of "'' ''" st s] by (simp add: blank_def)

lemma ready_nonempty: "ready st \<Longrightarrow> config_stack st = hd (config_stack st) # tl (config_stack st)"
  by (simp add: ready_def)

text \<open>The tokens of a statement: the first starts it, the others extend it.\<close>

definition in_statement :: "string list \<Rightarrow> parser_state \<Rightarrow> parser_state" where
  "in_statement ts st =
     st\<lparr>config_stack := (hd (config_stack st) @ [Statement ts None]) # tl (config_stack st),
        last_token_type := TOKEN_TYPE_NORMAL\<rparr>"

lemma Parse_step_first_token:
  "ready st \<Longrightarrow> Parse_step st TOKEN_TYPE_NORMAL t = Continue (in_statement [t] st)"
  by (cases "config_stack st")
    (auto simp: ready_def Parse_step_def with_stack_def push_statement_def push_token_def in_statement_def)

lemma Parse_step_next_token:
  "Parse_step (in_statement ts st) TOKEN_TYPE_NORMAL t = Continue (in_statement (ts @ [t]) st)"
  by (simp add: Parse_step_def with_stack_def push_token_def in_statement_def)

lemma Parse_loop_more_tokens:
  "list_all wf_token us \<Longrightarrow> us \<noteq> [] \<Longrightarrow> ends_plain d \<Longrightarrow>
   Parse_loop (in_statement ts st) (join_tokens us @ d # s) = Parse_loop (in_statement (ts @ us) st) (d # s)"
proof (induction us arbitrary: ts rule: join_tokens.induct)
  case 1
  then show ?case by simp
next
  case (2 t)
  then have "ParseToken (t @ d # s) = (TOKEN_TYPE_NORMAL, t, d # s)"
    by (simp add: ParseToken_wf)
  from Parse_loop_Continue [OF this Parse_step_next_token] show ?case by simp
next
  case (3 t u us)
  have "ends_plain (CHR '' '')" by (simp add: ends_plain_def)
  with 3 have "ParseToken (t @ CHR '' '' # join_tokens (u # us) @ d # s)
      = (TOKEN_TYPE_NORMAL, t, CHR '' '' # join_tokens (u # us) @ d # s)"
    by (intro ParseToken_wf) simp_all
  from Parse_loop_Continue [OF this Parse_step_next_token] 3 show ?case
    by (simp add: Parse_loop_space)
qed

lemma Parse_loop_tokens:
  assumes "list_all wf_token ts" and "ts \<noteq> []" and "ends_plain d" and "ready st"
  shows "Parse_loop st (join_tokens ts @ d # s) = Parse_loop (in_statement ts st) (d # s)"
proof (cases ts rule: join_tokens.cases)
  case (2 t)
  with assms have "ParseToken (t @ d # s) = (TOKEN_TYPE_NORMAL, t, d # s)"
    by (simp add: ParseToken_wf)
  from Parse_loop_Continue [OF this Parse_step_first_token [OF assms(4)]] 2 show ?thesis by simp
next
  case (3 t u us)
  have "ends_plain (CHR '' '')" by (simp add: ends_plain_def)
  with assms 3 have "ParseToken (t @ CHR '' '' # join_tokens (u # us) @ d # s)
      = (TOKEN_TYPE_NORMAL, t, CHR '' '' # join_tokens (u # us) @ d # s)"
    by (intro ParseToken_wf) simp_all
  from Parse_loop_Continue [OF this Parse_step_first_token [OF assms(4)]] 3 assms show ?thesis
    by (simp add: Parse_loop_space Parse_loop_more_tokens)
qed (use assms in simp)

lemma Parse_step_semicolon:
  "Parse_step (in_statement ts st) TOKEN_TYPE_STATEMENT_END tok =
     Continue (after_statements [Statement ts None] st)"
  by (simp add: Parse_step_def in_statement_def after_statements_def end_type_def)

definition in_block :: "string list \<Rightarrow> parser_state \<Rightarrow> parser_state" where
  "in_block ts st =
     st\<lparr>config_stack := [] # (hd (config_stack st) @ [Statement ts None]) # tl (config_stack st),
        block_count := block_count st + 1, last_token_type := TOKEN_TYPE_START_BLOCK\<rparr>"

lemma Parse_step_open:
  "Parse_step (in_statement ts st) TOKEN_TYPE_START_BLOCK tok = Continue (in_block ts st)"
  by (simp add: Parse_step_def with_stack_def open_block_def in_statement_def in_block_def)

lemma ready_in_block: "ready st \<Longrightarrow> ready (in_block ts st)"
  by (simp add: ready_def in_block_def)

lemma Parse_step_close:
  assumes "ready st" and "sts \<noteq> []"
  shows "Parse_step (after_statements sts (in_block ts st)) TOKEN_TYPE_END_BLOCK tok =
     Continue (after_statements [Statement ts (Some (Config sts))] st)"
  using assms by (cases "child_block (last sts)")
    (simp_all add: Parse_step_def with_stack_def close_block_def after_statements_def in_block_def
      ready_def end_type_def)

lemma ready_after: "ready st \<Longrightarrow> ready (after_statements sts st)"
  by (simp add: ready_def after_statements_def end_type_def split: option.split)

lemma after_statements_Nil: "ready st \<Longrightarrow> after_statements [] st = st"
  by (cases "config_stack st") (simp_all add: ready_def after_statements_def)

lemma after_statements_Cons:
  "after_statements sts (after_statements [st1] st) = after_statements (st1 # sts) st"
  by (simp add: after_statements_def)

lemma Parse_loop_print:
  "wf_statement st1 \<Longrightarrow> ready st \<Longrightarrow>
     Parse_loop st (statement_ToString st1 n @ s) = Parse_loop (after_statements [st1] st) s"
  "wf_config c \<Longrightarrow> ready st \<Longrightarrow>
     Parse_loop st (config_ToString c n @ s) = Parse_loop (after_statements (statements c) st) s"
  "wf_statements sts \<Longrightarrow> ready st \<Longrightarrow>
     Parse_loop st (statements_ToString sts n @ s) = Parse_loop (after_statements sts st) s"
proof (induction st1 n and c n and sts n arbitrary: st s and st s and st s
    rule: statement_ToString_config_ToString_statements_ToString.induct)
  case (1 ts depth)
  have "ends_plain (CHR '';'')" by (simp add: ends_plain_def)
  with 1 show ?case
    by (simp add: Parse_loop_blanks [OF blank_indent] Parse_loop_tokens Parse_loop_newline
        Parse_loop_Continue [OF ParseToken_punct(1) Parse_step_semicolon])
next
  case (2 ts block depth)
  have "ends_plain (CHR '' '')" by (simp add: ends_plain_def)
  obtain sts where block: "block = Config sts" by (cases block)
  with "2.prems" have sts: "sts \<noteq> []" by simp
  have "Parse_loop st (statement_ToString (Statement ts (Some block)) depth @ s)
      = Parse_loop (in_block ts st)
          (config_ToString block (depth + 1) @ indent depth @ ''}'' @ [CHR 0x0A] @ s)"
    using "2.prems" \<open>ends_plain (CHR '' '')\<close>
    by (simp add: Parse_loop_blanks [OF blank_indent] Parse_loop_tokens Parse_loop_space
        Parse_loop_newline Parse_loop_Continue [OF ParseToken_punct(2) Parse_step_open])
  also have "\<dots> = Parse_loop (after_statements sts (in_block ts st)) (CHR ''}'' # CHR 0x0A # s)"
    using "2.IH" "2.prems" block ready_in_block
    by (simp add: Parse_loop_blanks [OF blank_indent])
  also have "\<dots> = Parse_loop (after_statements [Statement ts (Some block)] st) s"
    using Parse_loop_Continue [OF ParseToken_punct(3) Parse_step_close [OF "2.prems"(2) sts]] block
    by (simp add: Parse_loop_newline)
  finally show ?case .
next
  case (5 st1 sts depth)
  then show ?case by (simp add: ready_after after_statements_Cons)
qed (simp_all add: after_statements_Nil)

lemma ready_start: "ready (parser_start config)"
  by (simp add: ready_def parser_start_def)

lemma after_statements_start:
  "after_statements sts (parser_start (Config [])) =
     \<lparr>config_stack = [sts], last_token_type = (if sts = [] then TOKEN_TYPE_START else end_type (last sts)),
      block_count = 0\<rparr>"
  by (simp add: after_statements_def parser_start_def)

lemma Parse_loop_eof:
  assumes "fst (ParseToken s) = TOKEN_TYPE_EOF"
  shows "Parse_loop (after_statements sts (parser_start (Config []))) s =
     (Inr True, after_statements sts (parser_start (Config [])))"
proof -
  obtain tok rest where "ParseToken s = (TOKEN_TYPE_EOF, tok, rest)"
    using assms by (cases "ParseToken s") auto
  then show ?thesis
    by (simp add: Parse_loop.simps after_statements_start Parse_step_def end_type_def split: option.split)
qed

lemma Parse_print_eof:
  assumes "wf_config c" and "fst (ParseToken s) = TOKEN_TYPE_EOF"
  shows "Parse (config_ToString c n @ s) (Config []) = (Inr True, c)"
  using assms Parse_loop_eof [OF assms(2), of "statements c"]
  by (simp add: Parse_def Parse_loop_print(2) ready_start after_statements_start)

section \<open>The driver's invariant\<close>

definition parser_inv :: "parser_state \<Rightarrow> bool" where
  "parser_inv st \<longleftrightarrow>
     0 \<le> block_count st \<and> length (config_stack st) = nat (block_count st) + 1 \<and>
     list_all wf_statements (config_stack st) \<and>
     list_all (\<lambda>frame. frame \<noteq> []) (tl (config_stack st)) \<and>
     (last_token_type st \<in> {TOKEN_TYPE_NORMAL, TOKEN_TYPE_STATEMENT_END, TOKEN_TYPE_END_BLOCK} \<longrightarrow>
        hd (config_stack st) \<noteq> [])"

lemma parser_inv_start: "wf_config c \<Longrightarrow> parser_inv (parser_start c)"
  by (simp add: parser_inv_def parser_start_def wf_config_iff)

lemma parser_invE:
  assumes "parser_inv st"
  obtains frame below where "config_stack st = frame # below" and "wf_statements frame"
    and "list_all wf_statements below" and "list_all (\<lambda>frame. frame \<noteq> []) below"
    and "length below = nat (block_count st)" and "0 \<le> block_count st"
  using assms by (cases "config_stack st") (auto simp: parser_inv_def)

lemma wf_statements_butlast: "wf_statements sts \<Longrightarrow> wf_statements (butlast sts)"
  by (auto simp: wf_statements_iff dest: in_set_butlastD)

lemma wf_statements_append [simp]: "wf_statements (a @ b) \<longleftrightarrow> wf_statements a \<and> wf_statements b"
  by (auto simp: wf_statements_iff)

lemma wf_statements_last: "wf_statements sts \<Longrightarrow> sts \<noteq> [] \<Longrightarrow> wf_statement (last sts)"
  by (simp add: wf_statements_iff)

lemma wf_statement_block:
  "wf_statement st \<Longrightarrow> wf_statement (Statement (tokens st) None)"
  "wf_statement st \<Longrightarrow> block \<noteq> [] \<Longrightarrow> wf_statements block \<Longrightarrow>
     wf_statement (Statement (tokens st) (Some (Config block)))"
  "wf_statement st \<Longrightarrow> wf_token t \<Longrightarrow> wf_statement (Statement (tokens st @ [t]) (child_block st))"
  by (cases st rule: wf_statement.cases; simp)+

definition step_safe :: "parse_step \<Rightarrow> bool" where
  "step_safe r = (case r of Continue st \<Rightarrow> parser_inv st | Fail e \<Rightarrow> False | _ \<Rightarrow> True)"

lemma Parse_step_normal_safe:
  assumes "parser_inv st" and "wf_token tok"
  shows "step_safe (Parse_step st TOKEN_TYPE_NORMAL tok)"
proof -
  from assms(1) obtain frame below where st: "config_stack st = frame # below" "wf_statements frame"
    "list_all wf_statements below" "list_all (\<lambda>frame. frame \<noteq> []) below"
    "length below = nat (block_count st)" "0 \<le> block_count st"
    by (rule parser_invE)
  have "last_token_type st = TOKEN_TYPE_NORMAL \<Longrightarrow> frame \<noteq> []"
    using assms(1) st(1) by (simp add: parser_inv_def)
  moreover have "wf_statement (Statement (tokens (last frame) @ [tok]) (child_block (last frame)))"
    if "frame \<noteq> []"
    using that st(2) assms(2) by (intro wf_statement_block wf_statements_last)
  ultimately show ?thesis
    using st assms(2)
    by (auto simp: step_safe_def Parse_step_def Let_def with_stack_def push_statement_def
        push_token_def parser_inv_def wf_statements_butlast split: if_splits)
qed

lemma Parse_step_open_safe:
  assumes "parser_inv st"
  shows "step_safe (Parse_step st TOKEN_TYPE_START_BLOCK tok)"
proof -
  from assms(1) obtain frame below where st: "config_stack st = frame # below" "wf_statements frame"
    "list_all wf_statements below" "list_all (\<lambda>frame. frame \<noteq> []) below"
    "length below = nat (block_count st)" "0 \<le> block_count st"
    by (rule parser_invE)
  have "last_token_type st = TOKEN_TYPE_NORMAL \<Longrightarrow> frame \<noteq> []"
    using assms(1) st(1) by (simp add: parser_inv_def)
  moreover have "wf_statement (Statement (tokens (last frame)) None)" if "frame \<noteq> []"
    using that st(2) by (intro wf_statement_block wf_statements_last)
  ultimately show ?thesis
    using st by (auto simp: step_safe_def Parse_step_def with_stack_def open_block_def
        parser_inv_def wf_statements_butlast nat_add_distrib)
qed

lemma Parse_step_close_safe:
  assumes "parser_inv st"
  shows "step_safe (Parse_step st TOKEN_TYPE_END_BLOCK tok)"
proof (cases "(last_token_type st \<noteq> TOKEN_TYPE_STATEMENT_END \<and> last_token_type st \<noteq> TOKEN_TYPE_END_BLOCK)
    \<or> block_count st = 0")
  case True
  then show ?thesis by (auto simp: step_safe_def Parse_step_def)
next
  case False
  from assms(1) obtain frame below where st: "config_stack st = frame # below" "wf_statements frame"
    "list_all wf_statements below" "list_all (\<lambda>frame. frame \<noteq> []) below"
    "length below = nat (block_count st)" "0 \<le> block_count st"
    by (rule parser_invE)
  from False st(5,6) obtain par rest where below: "below = par # rest"
    by (cases below) auto
  have "frame \<noteq> []" using assms st(1) False by (auto simp: parser_inv_def)
  then have "wf_statement (Statement (tokens (last par)) (Some (Config frame)))"
    using st below by (intro wf_statement_block wf_statements_last) simp_all
  then show ?thesis
    using st below False by (auto simp: step_safe_def Parse_step_def with_stack_def close_block_def
        parser_inv_def wf_statements_butlast)
qed

lemma Parse_step_safe:
  assumes "parser_inv st" and "ty = TOKEN_TYPE_NORMAL \<Longrightarrow> wf_token tok"
  shows "step_safe (Parse_step st ty tok)"
proof (cases ty)
  case TOKEN_TYPE_NORMAL
  with assms show ?thesis by (simp add: Parse_step_normal_safe)
next
  case TOKEN_TYPE_START_BLOCK
  with assms show ?thesis by (simp add: Parse_step_open_safe)
next
  case TOKEN_TYPE_END_BLOCK
  with assms show ?thesis by (simp add: Parse_step_close_safe)
qed (use assms(1) in \<open>simp_all add: step_safe_def Parse_step_def Let_def parser_inv_def\<close>)

lemma Return_true_unwind:
  assumes "parser_inv st" and "Parse_step st ty tok = Return_true"
  shows "wf_config (unwind (config_stack st))"
proof -
  from assms(2) have "block_count st = 0"
    by (simp add: Parse_step_def with_stack_def Let_def split: if_splits option.splits)
  with assms(1) obtain frame where "config_stack st = [frame]" "wf_statements frame"
    by (auto elim: parser_invE)
  then show ?thesis by simp
qed

lemma Parse_loop_safe:
  "parser_inv st \<Longrightarrow> Parse_loop st s = (r, st') \<Longrightarrow>
     parser_inv st' \<and> (r = Inl Config_parser_exception \<or> r = Inr True \<and> wf_config (unwind (config_stack st')))"
proof (induction st s rule: Parse_loop.induct)
  case (1 st s)
  obtain ty tok rest where tok: "ParseToken s = (ty, tok, rest)" by (cases "ParseToken s") auto
  have safe: "step_safe (Parse_step st ty tok)"
    using "1.prems"(1) ParseToken_normal_wf tok by (intro Parse_step_safe) auto
  show ?case
  proof (cases "Parse_step st ty tok")
    case (Continue st1)
    then have "Parse_loop st1 rest = (r, st')"
      using "1.prems"(2) tok by (simp add: Parse_loop_Continue)
    moreover from Continue safe have "parser_inv st1" by (simp add: step_safe_def)
    ultimately show ?thesis using "1.IH" [OF tok [symmetric] refl Continue] by blast
  next
    case Return_true
    with "1.prems" tok Return_true_unwind show ?thesis by (auto simp: Parse_loop.simps [of st s])
  qed (use "1.prems" tok safe in \<open>auto simp: Parse_loop.simps [of st s] step_safe_def\<close>)
qed

section \<open>Properties\<close>

text \<open>
  Claim C1. Printing a well-formed configuration and parsing the text gives the same
  configuration back, whatever indentation depth the printer starts at: \<open>Parse\<close> inverts
  \<open>ToString\<close>.
\<close>

theorem Parse_ToString: "wf_config c \<Longrightarrow> Parse (config_ToString c n) (Config []) = (Inr True, c)"
  using Parse_print_eof [of c "[]" n] by simp

theorem Parse_ToString_witness:
  "Parse (config_ToString (Config [Statement [''handler'', ''echo'']
       (Some (Config [Statement [''location'', ''/echo''] None]))]) 1) (Config [])
   = (Inr True, Config [Statement [''handler'', ''echo'']
       (Some (Config [Statement [''location'', ''/echo''] None]))])"
  by (rule Parse_ToString)
    (simp add: wf_token_def plain_token_def starts_plain_def ends_plain_def)

text \<open>
  Claim C11. Whatever text is accepted, the configuration it produces is well formed, and
  its printed form is accepted and means the same: comments, blank space and layout are the
  only things the printer loses.
\<close>

theorem Parse_normalises:
  "Parse s (Config []) = (Inr True, c) \<Longrightarrow>
     wf_config c \<and> Parse (config_ToString c n) (Config []) = (Inr True, c)"
proof -
  assume acc: "Parse s (Config []) = (Inr True, c)"
  obtain st where loop: "Parse_loop (parser_start (Config [])) s = (Inr True, st)"
    and c: "c = unwind (config_stack st)"
    using acc by (auto simp: Parse_def split: prod.splits)
  have "wf_config c"
    using Parse_loop_safe [OF parser_inv_start loop] c by simp
  then show ?thesis using Parse_print_eof [of c "[]" n] by simp
qed

theorem Parse_normalises_witness:
  "wf_config (Config [Statement [''port'', ''80''] None]) \<and>
   Parse (config_ToString (Config [Statement [''port'', ''80''] None]) 3) (Config [])
     = (Inr True, Config [Statement [''port'', ''80''] None])"
  by (rule Parse_normalises [of "''port 80;''"])
    (simp add: Parse_def Parse_loop.simps ParseToken_def parser_start_def Parse_step_def with_stack_def
      push_statement_def push_token_def)

text \<open>
  Claim C18. The parser is safe on every input: started on a well-formed configuration it
  returns \<open>true\<close> or throws \<open>ConfigParserException\<close>. It never returns \<open>false\<close>, never reads
  the back of an empty statement vector and never uses the top of an empty block stack.
\<close>

theorem Parse_safe:
  "wf_config config \<Longrightarrow> fst (Parse s config) \<in> {Inr True, Inl Config_parser_exception}"
proof -
  assume wf: "wf_config config"
  obtain r st where loop: "Parse_loop (parser_start config) s = (r, st)"
    by (cases "Parse_loop (parser_start config) s") auto
  show ?thesis
    using Parse_loop_safe [OF parser_inv_start [OF wf] loop] loop by (auto simp: Parse_def)
qed

theorem Parse_safe_witness: "fst (Parse ''server {};'' (Config [])) \<in> {Inr True, Inl Config_parser_exception}"
  by (rule Parse_safe) simp

text \<open>
  Claim C40. An accepted text stays accepted, with the same meaning, when a plain token with
  no terminator is appended to it: the lexer reports the end of the file for such a token
  and the driver then returns \<open>true\<close>. (The test suite expects \<open>key value\<close> without a
  semicolon to be refused; it is refused only because another token precedes it.)
\<close>

theorem Parse_drops_trailing_token:
  "wf_config c \<Longrightarrow> plain_token t \<Longrightarrow> Parse (config_ToString c n @ t) (Config []) = (Inr True, c)"
proof (rule Parse_print_eof)
  assume "plain_token t"
  then show "fst (ParseToken t) = TOKEN_TYPE_EOF"
    by (cases t) (simp_all add: plain_token_def ParseToken_starts_plain ParseToken_loop_plain_eof)
qed

theorem Parse_drops_trailing_token_witness:
  "Parse (config_ToString (Config [Statement [''port'', ''80''] None]) 0 @ ''root'') (Config [])
     = (Inr True, Config [Statement [''port'', ''80''] None])"
  by (rule Parse_drops_trailing_token)
    (simp_all add: wf_token_def plain_token_def starts_plain_def ends_plain_def)

end
