(* ===== verification/Config_Query.thy ===== *)
theory Config_Query
  imports Config_Roundtrip
begin

text \<open>
  What the queries \<open>Find\<close> and \<open>FindBlocks\<close> of \<open>src/config_parser.cc\<close> return, against
  reference definitions: the last matching statement of the block, and every block of the
  given name at any depth that is not inside another one.
\<close>

section \<open>Find\<close>

definition keyed :: "string \<Rightarrow> NginxConfigStatement list \<Rightarrow> NginxConfigStatement list" where
  "keyed key sts = [st \<leftarrow> sts. tokens st \<noteq> [] \<and> hd (tokens st) = key]"

lemma statement_Find_single:
  "statement_Find st [key] v =
     (if tokens st = [key] then Inl Bad_index
      else if tokens st \<noteq> [] \<and> hd (tokens st) = key then Inr (tokens st ! 1)
      else Inr v)"
proof -
  obtain ts child where st: "st = Statement ts child" by (cases st) auto
  show ?thesis by (cases ts; cases "tl ts") (auto simp: st)
qed

lemma statements_Find_single:
  "statements_Find sts [key] v =
     (if \<exists>st \<in> set sts. tokens st = [key] then Inl Bad_index
      else Inr (last (v # map (\<lambda>st. tokens st ! 1) (keyed key sts))))"
  by (induction sts arbitrary: v) (auto simp: statement_Find_single keyed_def)

lemma Find_single:
  assumes "boost_documented b" and "CHR ''.'' \<notin> set key"
  shows "Find b (Config sts) key =
     (if \<exists>st \<in> set sts. tokens st = [key] then Inl Bad_index
      else Inr (last ([] # map (\<lambda>st. tokens st ! 1) (keyed key sts))))"
  using assms by (simp add: Find_def boost_splitD split_any_no_sep statements_Find_single)

section \<open>FindBlocks\<close>

fun statement_blocks :: "string \<Rightarrow> NginxConfigStatement \<Rightarrow> NginxConfig list"
and config_blocks :: "string \<Rightarrow> NginxConfig \<Rightarrow> NginxConfig list"
and statements_blocks :: "string \<Rightarrow> NginxConfigStatement list \<Rightarrow> NginxConfig list" where
  "statement_blocks key (Statement ts None) = []"
| "statement_blocks key (Statement ts (Some block)) =
     (if ts = [] then [] else if hd ts = key then [block] else config_blocks key block)"
| "config_blocks key (Config sts) = statements_blocks key sts"
| "statements_blocks key [] = []"
| "statements_blocks key (st # sts) = statement_blocks key st @ statements_blocks key sts"

lemma FindBlocks_single_aux:
  "statement_FindBlocks st [key] bs = Inr (bs @ statement_blocks key st)"
  "config_FindBlocks c [key] bs = Inr (bs @ config_blocks key c)"
  "statements_FindBlocks sts [key] bs = Inr (bs @ statements_blocks key sts)"
  by (induction key st and key c and key sts arbitrary: bs and bs and bs
      rule: statement_blocks_config_blocks_statements_blocks.induct) simp_all

lemma FindBlocks_single:
  assumes "boost_documented b" and "CHR ''.'' \<notin> set key"
  shows "FindBlocks b c key = Inr (config_blocks key c)"
  using assms by (simp add: FindBlocks_def boost_splitD split_any_no_sep FindBlocks_single_aux)

lemma FindBlocks_repeat_aux:
  "statement_FindBlocks st [key, key] bs = Inr (bs @ statement_blocks key st)"
  "config_FindBlocks c [key, key] bs = Inr (bs @ config_blocks key c)"
  "statements_FindBlocks sts [key, key] bs = Inr (bs @ statements_blocks key sts)"
  by (induction key st and key c and key sts arbitrary: bs and bs and bs
      rule: statement_blocks_config_blocks_statements_blocks.induct) simp_all

section \<open>Properties\<close>

text \<open>
  Looking up a key without dots returns the value of the LAST statement of the
  block that starts with the key, and the empty string when there is none; it reads past
  the end of the token vector exactly when some statement consists of the key alone. (The
  header says that the value of the first matching key is returned.)
\<close>

theorem Find_last_value:
  "boost_documented b \<Longrightarrow> CHR ''.'' \<notin> set key \<Longrightarrow>
   Find b (Config sts) key =
     (if \<exists>st \<in> set sts. tokens st = [key] then Inl Bad_index
      else Inr (last ([] # map (\<lambda>st. tokens st ! 1) (keyed key sts))))"
  by (rule Find_single)

theorem Find_last_value_witness:
  "Find boost_model (Config [Statement [''port'', ''80''] None, Statement [''port'', ''8080''] None]) ''port''
     = Inr ''8080''"
  using Find_last_value [OF boost_model_documented, of "''port''"
      "[Statement [''port'', ''80''] None, Statement [''port'', ''8080''] None]"]
  by (simp add: keyed_def)

text \<open>
  Looking up blocks by a key without dots never fails and returns, in textual
  order, exactly the child blocks of statements that start with the key, at any depth, not
  descending into a block that was taken.
\<close>

theorem FindBlocks_blocks:
  "boost_documented b \<Longrightarrow> CHR ''.'' \<notin> set key \<Longrightarrow> FindBlocks b c key = Inr (config_blocks key c)"
  by (rule FindBlocks_single)

theorem FindBlocks_blocks_witness:
  "FindBlocks boost_model
     (Config [Statement [''handler'', ''echo''] (Some (Config [Statement [''name'', ''echo''] None]))]) ''handler''
   = Inr [Config [Statement [''name'', ''echo''] None]]"
  using FindBlocks_blocks [OF boost_model_documented, of "''handler''"
      "Config [Statement [''handler'', ''echo''] (Some (Config [Statement [''name'', ''echo''] None]))]"]
  by simp

text \<open>
  The dotted path \<open>k.k\<close> finds the same blocks as \<open>k\<close>: a statement that matches
  the first key is asked again with the remaining keys itself, so the path does not descend
  into its block.
\<close>

theorem FindBlocks_repeated_key:
  "boost_documented b \<Longrightarrow> CHR ''.'' \<notin> set key \<Longrightarrow>
   FindBlocks b c (key @ ''.'' @ key) = FindBlocks b c key"
  by (simp add: FindBlocks_def boost_splitD split_any_append split_any_no_sep FindBlocks_repeat_aux
      FindBlocks_single_aux)

theorem FindBlocks_repeated_key_witness:
  "FindBlocks boost_model
     (Config [Statement [''a''] (Some (Config [Statement [''a''] (Some (Config []))]))]) (''a'' @ ''.'' @ ''a'')
   = FindBlocks boost_model
     (Config [Statement [''a''] (Some (Config [Statement [''a''] (Some (Config []))]))]) ''a''"
  by (rule FindBlocks_repeated_key [OF boost_model_documented]) simp

end
