(* ===== verification/Cpp_Map.thy ===== *)
theory Cpp_Map
  imports Cpp_String
begin

text \<open>
  \<open>std::map\<close>, the container behind request parameters, reply headers, the memes handed to
  the HTML builder and the request counters. The model is the list of its entries in key
  order, so iteration (\<open>begin()\<close> to \<open>end()\<close>) is the list itself.

  The locale \<open>ordered_map\<close> is the contract the clients rely on; their lemmas about storing a
  sequence of pairs and about rebuilding a map from its printed entries are proved in it
  once, and the interpretation \<open>cm\<close> gives them for the model's own operations.
\<close>

section \<open>The operations\<close>

type_synonym ('k, 'v) cmap = "('k \<times> 'v) list"
type_synonym params = "(string, string) cmap"

text \<open>\<open>m[k] = v\<close>\<close>

fun map_put :: "'k::linorder \<Rightarrow> 'v \<Rightarrow> ('k, 'v) cmap \<Rightarrow> ('k, 'v) cmap" where
  "map_put k v [] = [(k, v)]"
| "map_put k v ((a, b) # ps) =
     (if k < a then (k, v) # (a, b) # ps
      else if k = a then (k, v) # ps
      else (a, b) # map_put k v ps)"

text \<open>\<open>m.find(k)\<close>\<close>

fun map_find :: "('k::linorder, 'v) cmap \<Rightarrow> 'k \<Rightarrow> 'v option" where
  "map_find [] k = None"
| "map_find ((a, b) # ps) k = (if k = a then Some b else map_find ps k)"

text \<open>
  \<open>m[k]\<close> as a value: a missing key reads as the default value (the empty string, 0). The
  entry the operator inserts is written with \<open>map_touch\<close> where the code uses the map again.
\<close>

definition map_at :: "'v \<Rightarrow> ('k::linorder, 'v) cmap \<Rightarrow> 'k \<Rightarrow> 'v" where
  "map_at d m k = (case map_find m k of None \<Rightarrow> d | Some v \<Rightarrow> v)"

definition map_touch :: "'v \<Rightarrow> 'k::linorder \<Rightarrow> ('k, 'v) cmap \<Rightarrow> ('k, 'v) cmap" where
  "map_touch d k m = (case map_find m k of None \<Rightarrow> map_put k d m | Some v \<Rightarrow> m)"

definition map_ok :: "('k::linorder, 'v) cmap \<Rightarrow> bool" where
  "map_ok m \<longleftrightarrow> sorted_wrt (<) (map fst m)"

section \<open>The contract\<close>

locale ordered_map =
  fixes empty :: "'m"
    and put :: "'k::linorder \<Rightarrow> 'v \<Rightarrow> 'm \<Rightarrow> 'm"
    and lookup :: "'m \<Rightarrow> 'k \<Rightarrow> 'v option"
    and entries :: "'m \<Rightarrow> ('k \<times> 'v) list"
    and ok :: "'m \<Rightarrow> bool"
  assumes ok_empty: "ok empty"
    and ok_put: "ok m \<Longrightarrow> ok (put k v m)"
    and lookup_empty: "lookup empty k = None"
    and lookup_put: "lookup (put k v m) k' = (if k' = k then Some v else lookup m k')"
    and entries_sorted: "ok m \<Longrightarrow> sorted_wrt (<) (map fst (entries m))"
    and entries_lookup: "ok m \<Longrightarrow> map_of (entries m) = lookup m"
begin

abbreviation puts :: "('k \<times> 'v) list \<Rightarrow> 'm \<Rightarrow> 'm" where
  "puts kvs m \<equiv> foldl (\<lambda>m kv. put (fst kv) (snd kv) m) m kvs"

lemma ok_puts: "ok m \<Longrightarrow> ok (puts kvs m)"
  by (induction kvs arbitrary: m) (auto intro: ok_put)

lemma lookup_puts: "lookup (puts kvs m) k = (lookup m ++ map_of (rev kvs)) k"
proof (induction kvs arbitrary: m)
  case Nil
  then show ?case by simp
next
  case (Cons kv kvs)
  then show ?case
    by (cases kv) (auto simp: lookup_put map_add_def split: option.splits)
qed

lemma entries_unique:
  assumes "ok m" and "ok m'" and "lookup m = lookup m'"
  shows "entries m = entries m'"
proof -
  have sorted: "sorted (map fst (entries m))" "sorted (map fst (entries m'))"
    and distinct: "distinct (map fst (entries m))" "distinct (map fst (entries m'))"
    using assms(1,2) entries_sorted by (auto simp: strict_sorted_iff)
  have "map_of (entries m) = map_of (entries m')"
    using assms entries_lookup by simp
  with distinct have "set (entries m) = set (entries m')"
    by (metis map_of_inject_set)
  then show ?thesis
    using sorted distinct by (metis map_sorted_distinct_set_unique distinct_map Un_absorb)
qed

lemma puts_entries:
  assumes "ok m"
  shows "entries (puts (entries m) empty) = entries m"
proof (rule entries_unique)
  show "ok (puts (entries m) empty)" by (rule ok_puts [OF ok_empty])
  have "distinct (map fst (entries m))"
    using entries_sorted [OF assms] by (simp add: strict_sorted_iff)
  then have "map_of (rev (entries m)) = map_of (entries m)"
    by (subst map_of_inject_set) (simp_all add: rev_map [symmetric])
  then have "map_of (rev (entries m)) = lookup m"
    using entries_lookup [OF assms] by simp
  then show "lookup (puts (entries m) empty) = lookup m"
    by (simp add: fun_eq_iff lookup_puts lookup_empty map_add_def split: option.splits)
qed (rule assms)

end

section \<open>The operations satisfy the contract\<close>

lemma map_find_put: "map_find (map_put k v m) k' = (if k' = k then Some v else map_find m k')"
  by (induction k v m rule: map_put.induct) auto

lemma set_keys_put: "fst ` set (map_put k v m) = insert k (fst ` set m)"
  by (induction k v m rule: map_put.induct) auto

lemma map_ok_put: "map_ok m \<Longrightarrow> map_ok (map_put k v m)"
proof (induction k v m rule: map_put.induct)
  case (2 k v a b ps)
  show ?case
  proof (cases "k < a \<or> k = a")
    case True
    with "2.prems" show ?thesis by (force simp: map_ok_def)
  next
    case False
    with 2 have "map_ok (map_put k v ps)" by (simp add: map_ok_def)
    moreover have "\<forall>x \<in> fst ` set (map_put k v ps). a < x"
      using False "2.prems" by (auto simp: set_keys_put map_ok_def)
    ultimately show ?thesis using False by (auto simp: map_ok_def)
  qed
qed (simp add: map_ok_def)

lemma map_of_find: "map_of m = map_find m"
  by (rule ext) (induction m, auto)

lemma map_ok_sorted: "map_ok m \<Longrightarrow> sorted_wrt (<) (map fst m)"
  by (simp add: map_ok_def)

interpretation cm: ordered_map "[]" map_put map_find "\<lambda>m. m" map_ok
  by unfold_locales
    (simp_all add: map_ok_put map_find_put map_of_find map_ok_sorted, simp add: map_ok_def)

section \<open>Reading\<close>

lemma map_at_put: "map_at d (map_put k v m) k' = (if k' = k then v else map_at d m k')"
  by (simp add: map_at_def map_find_put)

lemma map_at_empty [simp]: "map_at d [] k = d"
  by (simp add: map_at_def)

lemma map_at_touch [simp]: "map_at d (map_touch d k m) k' = map_at d m k'"
  by (simp add: map_touch_def map_at_def map_find_put split: option.splits)

lemma map_ok_touch: "map_ok m \<Longrightarrow> map_ok (map_touch d k m)"
  by (simp add: map_touch_def map_ok_put split: option.split)

lemma map_ok_Nil [simp]: "map_ok []"
  by (simp add: map_ok_def)

lemma map_ok_Cons_iff:
  "map_ok ((k, v) # m) \<longleftrightarrow> (\<forall>x \<in> set m. k < fst x) \<and> map_ok m"
  by (auto simp: map_ok_def)

end
