(* ===== verification/Http_Text.thy ===== *)
theory Http_Text
  imports Cpp_String
begin

text \<open>
  The layout of an HTTP message: a head of lines that end in CR LF, an empty line, a body.
  The lemmas locate the first empty line of such a text, which is how the request parser
  and the reverse proxy find the body.
\<close>

abbreviation CR :: char where "CR \<equiv> CHR 0x0D"
abbreviation LF :: char where "LF \<equiv> CHR 0x0A"

definition crlf :: string where "crlf = [CR, LF]"
definition crlf2 :: string where "crlf2 = [CR, LF, CR, LF]"

definition head_text :: "string list \<Rightarrow> string" where
  "head_text ls = concat (map (\<lambda>l. l @ crlf) ls)"

definition head_line :: "string \<Rightarrow> bool" where
  "head_line l \<longleftrightarrow> l \<noteq> [] \<and> CR \<notin> set l \<and> LF \<notin> set l"

lemma head_text_simps [simp]:
  "head_text [] = []"
  "head_text (l # ls) = l @ crlf @ head_text ls"
  by (simp_all add: head_text_def)

lemma index_of_skip:
  "c \<notin> set xs \<Longrightarrow> index_of (c # p) (xs @ s) = map_option ((+) (length xs)) (index_of (c # p) s)"
proof (induction xs)
  case Nil
  then show ?case by (cases "index_of (c # p) s") simp_all
next
  case (Cons x xs)
  then show ?case by (cases "index_of (c # p) s") auto
qed

lemma index_of_crlf2_skip:
  assumes "rest \<noteq> []" and "hd rest \<noteq> CR"
  shows "index_of crlf2 (crlf @ rest) = map_option ((+) 2) (index_of crlf2 rest)"
proof -
  from assms have "\<not> prefix [CR, LF] rest" by (cases rest) auto
  then show ?thesis by (cases "index_of crlf2 rest") (simp_all add: crlf2_def crlf_def)
qed

lemma index_of_crlf2:
  "ls \<noteq> [] \<Longrightarrow> list_all head_line ls \<Longrightarrow>
   index_of crlf2 (head_text ls @ crlf @ body) = Some (length (head_text ls) - 2)"
proof (induction ls rule: induct_list012)
  case 1
  then show ?case by simp
next
  case (2 l)
  then have "CR \<notin> set l" by (simp add: head_line_def)
  then show ?case by (simp add: crlf2_def crlf_def index_of_skip)
next
  case (3 l k ls)
  then obtain x xs where k: "k = x # xs" and x: "x \<noteq> CR" and l: "CR \<notin> set l"
    by (cases k) (auto simp: head_line_def)
  let ?rest = "head_text (k # ls) @ crlf @ body"
  have "index_of crlf2 (crlf @ ?rest) = map_option ((+) 2) (index_of crlf2 ?rest)"
    using x by (intro index_of_crlf2_skip) (simp_all add: k)
  also have "\<dots> = Some (2 + (length (head_text (k # ls)) - 2))"
    using 3 by simp
  finally have "index_of crlf2 (crlf @ ?rest) = Some (length (head_text (k # ls)))"
    by (simp add: crlf_def)
  with l show ?case
    by (simp add: crlf2_def index_of_skip) (simp add: crlf_def)
qed

lemma drop_head_text:
  "ls \<noteq> [] \<Longrightarrow> drop (length (head_text ls) - 2 + 4) (head_text ls @ crlf @ body) = body"
  by (cases ls rule: rev_cases) (simp_all add: head_text_def crlf_def)

lemma take_head_text:
  "take (length (head_text (ls @ [l])) - 2) (head_text (ls @ [l]) @ crlf @ body) = head_text ls @ l"
  by (simp add: head_text_def crlf_def)

end
