(* ===== verification/Request.thy ===== *)
theory Request
  imports Boost_Api Cpp_Map Http_Text
begin

text \<open>
  HTTP requests: \<open>src/request.cc\<close> and \<open>include/request.h\<close>. \<open>ParseRequest\<close> scans the request
  line character by character, \<open>set_params\<close> reads the form parameters of the body. The
  lemmas give the scanner a reference definition by words, describe valid and invalid
  requests, and show that well-formed request texts and forms are read back.
\<close>

section \<open>Data and operations\<close>

record Request =
  m_valid :: bool
  m_original_request :: string
  m_method :: string
  m_uri :: string
  m_version :: string
  m_body :: string
  m_params :: params

text \<open>
  The loop of \<open>set_params\<close>: the positions come from \<open>find\<close>, so \<open>substr\<close> is \<open>take\<close> and \<open>drop\<close>
  here. When no ampersand follows, the code takes the rest as the value and keeps it as the
  text to search next.
\<close>

function params_loop :: "params \<Rightarrow> string \<Rightarrow> params" where
  "params_loop params_map body =
     (case find_str body ''='' of
        None \<Rightarrow> params_map
      | Some pos \<Rightarrow>
          let key = take pos body; rest = drop (pos + 1) body in
          (case find_str rest ''&'' of
             Some pos2 \<Rightarrow> params_loop (map_put key (take pos2 rest) params_map) (drop (pos2 + 1) rest)
           | None \<Rightarrow> params_loop (map_put key rest params_map) rest))"
  by pat_completeness auto
termination
  by (relation "measure (\<lambda>(m, body). length body)")
    (auto simp: find_str_eq dest!: index_of_char_SomeD)

declare params_loop.simps [simp del]

definition set_params :: "string \<Rightarrow> Request \<Rightarrow> Request" where
  "set_params body req = req\<lparr>m_params := params_loop [] body\<rparr>"

definition set_uri :: "string \<Rightarrow> Request \<Rightarrow> Request" where
  "set_uri url req = req\<lparr>m_uri := url\<rparr>"

definition add_char :: "nat \<Rightarrow> char \<Rightarrow> string \<times> string \<times> string \<Rightarrow> string \<times> string \<times> string" where
  "add_char count c acc = (case acc of (method, url, version) \<Rightarrow>
     if count = 0 then (method @ [c], url, version)
     else if count = 1 then (method, url @ [c], version)
     else if count = 2 then (method, url, version @ [c])
     else (method, url, version))"

text \<open>
  The scanning loop: \<open>prev\<close> is the previous character, none at the start; \<open>None\<close> is the
  early return on a leading or doubled space. The code's index is an \<open>unsigned int\<close>: a text
  of 2 to the 32 characters or more without a carriage return makes it wrap around and the
  loop never ends, so the model is the code for texts shorter than 2 to the 32, which the
  theorems assume. For these the \<open>int\<close> that counts the spaces cannot overflow
  (\<open>scan_count_fits\<close>).
\<close>

fun scan_line ::
    "char option \<Rightarrow> nat \<Rightarrow> string \<times> string \<times> string \<Rightarrow> string \<Rightarrow> (string \<times> string \<times> string) option" where
  "scan_line prev count acc [] = Some acc"
| "scan_line prev count acc (c # cs) =
     (if c = CR then Some acc
      else if c = CHR '' '' then
        (if prev = None then None
         else if prev = Some (CHR '' '') then None
         else scan_line (Some c) (count + 1) acc cs)
      else scan_line (Some c) count (add_char count c acc) cs)"

definition fresh_request :: "string \<Rightarrow> Request" where
  "fresh_request original_request =
     \<lparr>m_valid = False, m_original_request = original_request, m_method = [], m_uri = [],
      m_version = [], m_body = [], m_params = []\<rparr>"

definition ParseRequest :: "boost_api \<Rightarrow> string \<Rightarrow> Request outcome" where
  "ParseRequest b original_request =
     (let req = fresh_request original_request;
          refused = req\<lparr>m_original_request := []\<rparr>
      in case scan_line None 0 ([], [], []) original_request of
           None \<Rightarrow> Inr refused
         | Some (method, url, version) \<Rightarrow>
             if \<not> boost_iequals b method ''GET'' \<and> \<not> boost_iequals b method ''POST'' then Inr refused
             else if version \<noteq> ''HTTP/1.1'' then Inr refused
             else
               let req = (if length url < 1 then req\<lparr>m_original_request := []\<rparr> else req);
                   headers_end = pos_size (find_str original_request crlf2)
               in obind (substr_from original_request (unat (headers_end + 4)))
                   (\<lambda>body. Inr ((set_params body
                      (req\<lparr>m_method := method, m_uri := url, m_version := version, m_body := body\<rparr>))
                      \<lparr>m_valid := True\<rparr>)))"

text \<open>
  The spaces the loop counts from a position on. No two of them are adjacent and none comes
  first, so they are at most half of the characters and the \<open>int\<close> does not overflow.
\<close>

fun scan_spaces :: "char option \<Rightarrow> string \<Rightarrow> nat" where
  "scan_spaces prev [] = 0"
| "scan_spaces prev (c # cs) =
     (if c = CR then 0
      else if c = CHR '' '' then
        (if prev = None \<or> prev = Some (CHR '' '') then 0 else Suc (scan_spaces (Some c) cs))
      else scan_spaces (Some c) cs)"

lemma scan_spaces_half:
  "2 * scan_spaces prev s \<le> length s + (if prev = None \<or> prev = Some (CHR '' '') then 0 else 1)"
proof (induction prev s rule: scan_spaces.induct)
  case (2 prev c cs)
  then show ?case by (cases "c = CR"; cases "c = CHR '' ''") auto
qed simp

lemma scan_count_fits: "length s < 2 ^ 32 \<Longrightarrow> int (scan_spaces None s) \<le> int_max"
  using scan_spaces_half [of None s] by (simp add: int_max_def)

section \<open>The scanner by words\<close>

definition request_words :: "string \<Rightarrow> string list" where
  "request_words s = split_any '' '' (takeWhile (\<lambda>c. c \<noteq> CR) s)"

definition word :: "string list \<Rightarrow> nat \<Rightarrow> string" where
  "word ws i = (if i < length ws then ws ! i else [])"

definition add_word :: "nat \<Rightarrow> string \<Rightarrow> string \<times> string \<times> string \<Rightarrow> string \<times> string \<times> string" where
  "add_word n w acc = (case acc of (m, u, v) \<Rightarrow>
     (if n = 0 then m @ w else m, if n = 1 then u @ w else u, if n = 2 then v @ w else v))"

fun add_words :: "nat \<Rightarrow> string \<times> string \<times> string \<Rightarrow> string list \<Rightarrow> string \<times> string \<times> string" where
  "add_words n acc [] = acc"
| "add_words n acc (w # ws) = add_words (Suc n) (add_word n w acc) ws"

lemma add_word_simps [simp]:
  "add_word n [] acc = acc"
  "add_word n w (add_char n c acc) = add_word n (c # w) acc"
  by (auto simp: add_word_def add_char_def split: prod.split)

lemma add_words_from_3: "3 \<le> n \<Longrightarrow> add_words n acc ws = acc"
  by (induction ws arbitrary: n) (auto simp: add_word_def split: prod.split)

lemma add_words_start: "add_words 0 ([], [], []) ws = (word ws 0, word ws 1, word ws 2)"
proof (cases ws)
  case (Cons w1 ws1)
  then show ?thesis
  proof (cases ws1)
    case (Cons w2 ws2)
    then show ?thesis using \<open>ws = w1 # ws1\<close>
      by (cases ws2) (simp_all add: add_word_def word_def add_words_from_3 numeral_3_eq_3 numeral_2_eq_2)
  qed (simp add: add_word_def word_def)
qed (simp add: word_def)

lemma split_any_Cons_other:
  "c \<notin> set seps \<Longrightarrow> split_any seps (c # cs) = (c # hd (split_any seps cs)) # tl (split_any seps cs)"
  by (cases "split_any seps cs") simp_all

lemma scan_line_words:
  "scan_line prev n acc s =
     (let ws = request_words s in
      if ((prev = None \<or> prev = Some (CHR '' '')) \<and> tl ws \<noteq> [] \<and> hd ws = []) \<or> [] \<in> set (butlast (tl ws))
      then None else Some (add_words n acc ws))"
proof (induction prev n acc s rule: scan_line.induct)
  case (1 prev count acc)
  then show ?case by (simp add: request_words_def)
next
  case (2 prev count acc c cs)
  consider (cr) "c = CR" | (space) "c = CHR '' ''" | (other) "c \<noteq> CR" "c \<noteq> CHR '' ''" by blast
  then show ?case
  proof cases
    case cr
    then show ?thesis by (simp add: request_words_def)
  next
    case space
    have ne: "request_words cs \<noteq> []" by (simp add: request_words_def)
    have ws: "request_words (c # cs) = [] # request_words cs"
      using space by (simp add: request_words_def)
    show ?thesis
    proof (cases "prev = None \<or> prev = Some (CHR '' '')")
      case True
      with space ne ws show ?thesis by (auto simp: Let_def)
    next
      case False
      then obtain p where "prev = Some p" and "p \<noteq> CHR '' ''" by (cases prev) auto
      with space have "scan_line prev count acc (c # cs) = scan_line (Some (CHR '' '')) (count + 1) acc cs"
        by simp
      moreover have "[] \<in> set (butlast (request_words cs)) \<longleftrightarrow>
          (tl (request_words cs) \<noteq> [] \<and> hd (request_words cs) = []) \<or> [] \<in> set (butlast (tl (request_words cs)))"
        using ne by (cases "request_words cs") auto
      ultimately show ?thesis using 2 False space ws by (simp add: Let_def)
    qed
  next
    case other
    then have ws: "request_words (c # cs) = (c # hd (request_words cs)) # tl (request_words cs)"
      by (simp add: request_words_def split_any_Cons_other del: split_any.simps)
    have ne: "request_words cs = hd (request_words cs) # tl (request_words cs)"
      by (simp add: request_words_def)
    have "scan_line prev count acc (c # cs) = scan_line (Some c) count (add_char count c acc) cs"
      using other by simp
    also have "\<dots> = (if [] \<in> set (butlast (tl (request_words cs))) then None
        else Some (add_words count (add_char count c acc) (request_words cs)))"
      using 2 other by (simp add: Let_def)
    also have "add_words count (add_char count c acc) (request_words cs)
        = add_words count acc (request_words (c # cs))"
      by (subst ne) (simp add: ws)
    finally show ?thesis by (simp add: ws Let_def)
  qed
qed

lemma scan_line_start:
  "scan_line None 0 ([], [], []) s =
     (let ws = request_words s in
      if [] \<in> set (butlast ws) then None else Some (word ws 0, word ws 1, word ws 2))"
proof -
  obtain w ws where "request_words s = w # ws"
    by (cases "request_words s") (simp_all add: request_words_def)
  then show ?thesis
    by (auto simp: scan_line_words add_words_start Let_def simp del: add_words.simps)
qed

section \<open>What is accepted\<close>

definition acceptable :: "string \<Rightarrow> bool" where
  "acceptable s \<longleftrightarrow>
     (let ws = request_words s in
      [] \<notin> set (butlast ws) \<and> map to_lower (word ws 0) \<in> {''get'', ''post''} \<and> word ws 2 = ''HTTP/1.1'')"

definition request_body :: "string \<Rightarrow> string" where
  "request_body s = (case index_of crlf2 s of Some i \<Rightarrow> drop (i + 4) s | None \<Rightarrow> drop 3 s)"

definition accepted_request :: "string \<Rightarrow> Request" where
  "accepted_request s =
     \<lparr>m_valid = True, m_original_request = s, m_method = word (request_words s) 0,
      m_uri = word (request_words s) 1, m_version = ''HTTP/1.1'', m_body = request_body s,
      m_params = params_loop [] (request_body s)\<rparr>"

lemma split_any_length: "w \<in> set (split_any seps s) \<Longrightarrow> length w \<le> length s"
proof (induction s arbitrary: w)
  case (Cons c cs)
  then show ?case by (cases "split_any seps cs") (fastforce split: if_splits)+
qed simp

lemma split_any_no_seps: "w \<in> set (split_any seps s) \<Longrightarrow> set w \<subseteq> set s - set seps"
proof (induction s arbitrary: w)
  case (Cons c cs)
  then show ?case by (cases "split_any seps cs") (fastforce split: if_splits)+
qed simp

lemma word_in: "word ws i \<noteq> [] \<Longrightarrow> word ws i \<in> set ws"
  by (auto simp: word_def split: if_splits)

lemma acceptable_length: "acceptable s \<Longrightarrow> 8 \<le> length s"
proof -
  assume "acceptable s"
  then have w: "word (request_words s) 2 = ''HTTP/1.1''" by (simp add: acceptable_def Let_def)
  have "word (request_words s) 2 \<in> set (request_words s)" by (rule word_in) (simp add: w)
  then have "''HTTP/1.1'' \<in> set (split_any '' '' (takeWhile (\<lambda>c. c \<noteq> CR) s))"
    unfolding w by (simp only: request_words_def)
  then have "length ''HTTP/1.1'' \<le> length (takeWhile (\<lambda>c. c \<noteq> CR) s)"
    by (rule split_any_length)
  also have "\<dots> \<le> length s" by (rule length_takeWhile_le)
  finally show ?thesis by simp
qed

lemma acceptable_uri: "acceptable s \<Longrightarrow> word (request_words s) 1 \<noteq> []"
proof -
  assume a: "acceptable s"
  let ?ws = "request_words s"
  from a have "word ?ws 2 \<noteq> []" and nb: "[] \<notin> set (butlast ?ws)"
    by (auto simp: acceptable_def Let_def)
  then have "2 < length ?ws" by (simp add: word_def split: if_splits)
  then have "butlast ?ws ! 1 = ?ws ! 1" and "1 < length (butlast ?ws)"
    by (simp_all add: nth_butlast)
  with nb \<open>2 < length ?ws\<close> show ?thesis by (metis (no_types) word_def nth_mem one_less_numeral_iff less_trans semiring_norm(76))
qed

lemma acceptable_uri_chars:
  "c \<in> set (word (request_words s) i) \<Longrightarrow> c \<noteq> CHR '' '' \<and> c \<noteq> CR"
proof -
  assume c: "c \<in> set (word (request_words s) i)"
  then have "word (request_words s) i \<in> set (request_words s)" by (intro word_in) auto
  then have "set (word (request_words s) i) \<subseteq> set (takeWhile (\<lambda>c. c \<noteq> CR) s) - set '' ''"
    unfolding request_words_def by (rule split_any_no_seps)
  with c show ?thesis by (auto dest: set_takeWhileD)
qed

lemma body_substr:
  assumes "acceptable s" and "length s < 2 ^ 32"
  shows "substr_from s (unat (pos_size (find_str s crlf2) + 4)) = Inr (request_body s)"
proof (cases "index_of crlf2 s")
  case None
  have "unat (npos + 4 :: size_t) = 3" by (simp add: npos_def)
  with None show ?thesis
    using acceptable_length [OF assms(1)]
    by (simp add: find_str_eq pos_size_def request_body_def del: add_2_eq_Suc')
next
  case (Some i)
  then have le: "i + 4 \<le> length s" by (auto dest!: index_of_le simp: crlf2_def)
  have "unat (of_nat (i + 4) :: size_t) = i + 4"
    using le assms(2) unat_of_nat [of "i + 4", where 'a = 64] by simp
  then have "unat (of_nat i + 4 :: size_t) = i + 4" by (simp add: add.commute)
  with Some le show ?thesis by (simp add: find_str_eq pos_size_def request_body_def)
qed

lemma ParseRequest_eq:
  assumes "boost_documented b" and "length s < 2 ^ 32"
  shows "ParseRequest b s =
     Inr (if acceptable s then accepted_request s else fresh_request [])"
proof (cases "[] \<in> set (butlast (request_words s))")
  case True
  then show ?thesis
    by (simp add: ParseRequest_def scan_line_start acceptable_def fresh_request_def Let_def)
next
  case False
  let ?m = "word (request_words s) 0"
  have "map to_lower ''GET'' = ''get''" "map to_lower ''POST'' = ''post''"
    by code_simp+
  then have lower: "boost_iequals b w ''GET'' \<longleftrightarrow> map to_lower w = ''get''"
      "boost_iequals b w ''POST'' \<longleftrightarrow> map to_lower w = ''post''" for w
    using boost_iequalsD [OF assms(1)] by (simp_all only:)
  show ?thesis
  proof (cases "acceptable s")
    case True
    then have "word (request_words s) 1 \<noteq> []" by (rule acceptable_uri)
    with True False show ?thesis
      using body_substr [OF True assms(2)]
      by (auto simp: ParseRequest_def scan_line_start acceptable_def Let_def fresh_request_def
          accepted_request_def set_params_def lower)
  next
    case na: False
    with False have "map to_lower ?m \<notin> {''get'', ''post''} \<or> word (request_words s) 2 \<noteq> ''HTTP/1.1''"
      by (simp add: acceptable_def Let_def)
    with na False show ?thesis
      by (auto simp: ParseRequest_def scan_line_start Let_def fresh_request_def lower)
  qed
qed

section \<open>Form parameters\<close>

text \<open>A form body as a browser sends it: \<open>key=value\<close> pairs joined by ampersands.\<close>

fun form_encode :: "(string \<times> string) list \<Rightarrow> string" where
  "form_encode [] = []"
| "form_encode [(k, v)] = k @ ''='' @ v"
| "form_encode ((k, v) # kvs) = k @ ''='' @ v @ ''&'' @ form_encode kvs"

definition form_key :: "string \<Rightarrow> bool" where
  "form_key k \<longleftrightarrow> CHR ''='' \<notin> set k"

definition form_value :: "string \<Rightarrow> bool" where
  "form_value v \<longleftrightarrow> CHR ''&'' \<notin> set v"

definition form_pairs :: "(string \<times> string) list \<Rightarrow> bool" where
  "form_pairs kvs \<longleftrightarrow> list_all (\<lambda>(k, v). form_key k \<and> form_value v) kvs \<and>
     (kvs \<noteq> [] \<longrightarrow> CHR ''='' \<notin> set (snd (last kvs)))"

lemma params_loop_none: "CHR ''='' \<notin> set body \<Longrightarrow> params_loop m body = m"
  by (simp add: params_loop.simps find_str_eq)

lemma params_loop_pair:
  "form_key k \<Longrightarrow> form_value v \<Longrightarrow>
   params_loop m (k @ CHR ''='' # v @ CHR ''&'' # rest) = params_loop (map_put k v m) rest"
  by (simp add: params_loop.simps [of m "k @ CHR ''='' # v @ CHR ''&'' # rest"] find_str_eq
      index_of_char_append form_key_def form_value_def)

lemma params_loop_last:
  "form_key k \<Longrightarrow> form_value v \<Longrightarrow>
   params_loop m (k @ CHR ''='' # v) = params_loop (map_put k v m) v"
  by (simp add: params_loop.simps [of m "k @ CHR ''='' # v"] find_str_eq
      index_of_char_append form_key_def form_value_def)

lemma params_loop_encode:
  "form_pairs kvs \<Longrightarrow> params_loop m (form_encode kvs) = cm.puts kvs m"
proof (induction kvs arbitrary: m rule: form_encode.induct)
  case (2 k v)
  then show ?case by (simp add: form_pairs_def params_loop_last params_loop_none)
next
  case (3 k v kv kvs)
  then show ?case by (simp add: form_pairs_def params_loop_pair)
qed (simp add: params_loop_none)

lemma params_loop_ok: "map_ok m \<Longrightarrow> map_ok (params_loop m body)"
proof (induction m body rule: params_loop.induct)
  case (1 m body)
  show ?case
  proof (cases "find_str body ''=''")
    case None
    then show ?thesis using "1.prems" by (simp add: params_loop.simps [of m body])
  next
    case (Some pos)
    then show ?thesis using 1
      by (cases "find_str (drop (pos + 1) body) ''&''")
        (simp_all add: params_loop.simps [of m body] map_ok_put Let_def)
  qed
qed

section \<open>Properties\<close>

text \<open>
  Claim C15. \<open>ParseRequest\<close> never throws, and its result is determined by the words of the
  request line: the request is valid exactly when no word but the last is empty, the first
  is GET or POST up to case and the third is HTTP/1.1; then the fields are those words, the
  untouched text and the body; otherwise every field is empty. Words after the third are
  ignored. The position after the header end wraps around: with no empty line the body is
  taken from index 3.
\<close>

theorem ParseRequest_words:
  "boost_documented b \<Longrightarrow> length s < 2 ^ 32 \<Longrightarrow>
   ParseRequest b s = Inr (if acceptable s then accepted_request s else fresh_request [])"
  by (rule ParseRequest_eq)

theorem ParseRequest_words_witness:
  "ParseRequest boost_model ''GET / HTTP/1.1'' =
     Inr (fresh_request ''GET / HTTP/1.1''\<lparr>m_valid := True, m_method := ''GET'', m_uri := ''/'',
            m_version := ''HTTP/1.1'', m_body := '' / HTTP/1.1''\<rparr>)"
proof -
  have "acceptable ''GET / HTTP/1.1''" by code_simp
  moreover have "accepted_request ''GET / HTTP/1.1'' =
      fresh_request ''GET / HTTP/1.1''\<lparr>m_valid := True, m_method := ''GET'', m_uri := ''/'',
            m_version := ''HTTP/1.1'', m_body := '' / HTTP/1.1''\<rparr>"
    by (simp add: accepted_request_def fresh_request_def request_words_def word_def request_body_def
        crlf2_def params_loop_none)
  ultimately show ?thesis
    using ParseRequest_words [OF boost_model_documented, of "''GET / HTTP/1.1''"] by simp
qed

text \<open>
  Claim C34. What the session may rely on in a parsed request: if it is valid, its method is GET
  or POST up to case, its version HTTP/1.1, its text the given one, and its URI is not empty
  (so the branch of the parser for an empty URI is never taken) and has no blank and no carriage
  return; if it is not valid, it is the fresh request with an empty text, whatever was read.
\<close>

theorem ParseRequest_fields:
  "boost_documented b \<Longrightarrow> length s < 2 ^ 32 \<Longrightarrow> ParseRequest b s = Inr req \<Longrightarrow>
   (if m_valid req
    then map to_lower (m_method req) \<in> {''get'', ''post''} \<and> m_version req = ''HTTP/1.1'' \<and>
         m_uri req \<noteq> [] \<and> set (m_uri req) \<inter> {CHR '' '', CR} = {} \<and> m_original_request req = s
    else req = fresh_request [])"
proof -
  assume "boost_documented b" "length s < 2 ^ 32" "ParseRequest b s = Inr req"
  then have req: "req = (if acceptable s then accepted_request s else fresh_request [])"
    by (simp add: ParseRequest_eq)
  show ?thesis
  proof (cases "acceptable s")
    case True
    moreover have "set (word (request_words s) 1) \<inter> {CHR '' '', CR} = {}"
      using acceptable_uri_chars [of _ s 1] by blast
    moreover note acceptable_uri [OF True]
    ultimately show ?thesis by (simp add: req accepted_request_def acceptable_def Let_def)
  next
    case False
    then show ?thesis by (simp add: req fresh_request_def)
  qed
qed

theorem ParseRequest_fields_witness:
  "(\<exists>req. ParseRequest boost_model ''GET /a HTTP/1.1'' = Inr req \<and> m_valid req \<and>
      m_uri req \<noteq> [] \<and> m_version req = ''HTTP/1.1'' \<and> m_original_request req = ''GET /a HTTP/1.1'') \<and>
   (\<exists>req. ParseRequest boost_model ''GO /a HTTP/1.1'' = Inr req \<and> \<not> m_valid req \<and> req = fresh_request [])"
proof -
  have texts: "acceptable ''GET /a HTTP/1.1''" "\<not> acceptable ''GO /a HTTP/1.1''" by code_simp+
  have short: "length ''GET /a HTTP/1.1'' < 2 ^ 32" "length ''GO /a HTTP/1.1'' < 2 ^ 32" by simp_all
  note parsed = ParseRequest_eq [OF boost_model_documented short(1)] ParseRequest_eq [OF boost_model_documented short(2)]
  have "m_valid (accepted_request ''GET /a HTTP/1.1'')" "\<not> m_valid (fresh_request [])"
    by (simp_all add: accepted_request_def fresh_request_def)
  with parsed texts
    ParseRequest_fields [OF boost_model_documented short(1) parsed(1)]
    ParseRequest_fields [OF boost_model_documented short(2) parsed(2)]
  show ?thesis by simp
qed

text \<open>
  Form parameters round trip: a body of pairs whose keys have no equals sign,
  whose values have no ampersand and whose last value has no equals sign is read back as
  the map that stores the pairs in order, later ones winning.
\<close>

theorem set_params_form:
  "form_pairs kvs \<Longrightarrow>
   m_params (set_params (form_encode kvs) req) = foldl (\<lambda>m kv. map_put (fst kv) (snd kv) m) [] kvs"
  by (simp add: set_params_def params_loop_encode)

theorem set_params_form_witness:
  "m_params (set_params (form_encode [(''update'', ''1''), (''top_text'', ''a=b''), (''q'', [])])
      (fresh_request [])) = [(''q'', []), (''top_text'', ''a=b''), (''update'', ''1'')]"
  by (subst set_params_form) (simp_all add: form_pairs_def form_key_def form_value_def)

text \<open>
  An equals sign in the last value makes an extra parameter: the text after the
  last ampersand is searched again, so \<open>k=j=v\<close> sets \<open>k\<close> to \<open>j=v\<close> and also \<open>j\<close> to \<open>v\<close>.
\<close>

theorem set_params_extra:
  "form_key k \<Longrightarrow> form_key j \<Longrightarrow> form_value j \<Longrightarrow> form_key v \<Longrightarrow> form_value v \<Longrightarrow>
   m_params (set_params (k @ ''='' @ j @ ''='' @ v) req) = map_put j v (map_put k (j @ ''='' @ v) [])"
  using params_loop_last [of k "j @ CHR ''='' # v" "[]"]
    params_loop_last [of j v "map_put k (j @ CHR ''='' # v) []"] params_loop_none [of v]
  by (simp add: set_params_def form_key_def form_value_def)

theorem set_params_extra_witness:
  "m_params (set_params (''q'' @ ''='' @ ''update'' @ ''='' @ ''7'') (fresh_request []))
     = [(''q'', ''update=7''), (''update'', ''7'')]"
  by (subst set_params_extra) (simp_all add: form_key_def form_value_def)

section \<open>Request texts\<close>

text \<open>The text a client sends: the request line, header lines, an empty line and the body.\<close>

definition request_line :: "string \<Rightarrow> string \<Rightarrow> string" where
  "request_line meth uri = meth @ '' '' @ uri @ '' HTTP/1.1''"

definition request_text :: "string \<Rightarrow> string \<Rightarrow> string list \<Rightarrow> string \<Rightarrow> string" where
  "request_text meth uri headers body = head_text (request_line meth uri # headers) @ crlf @ body"

definition wf_request_head :: "string \<Rightarrow> string \<Rightarrow> string list \<Rightarrow> bool" where
  "wf_request_head meth uri headers \<longleftrightarrow>
     map to_lower meth \<in> {''get'', ''post''} \<and> uri \<noteq> [] \<and> set uri \<inter> {CHR '' '', CR, LF} = {} \<and>
     list_all head_line headers"

lemma method_chars:
  assumes "map to_lower meth \<in> {''get'', ''post''}"
  shows "meth \<noteq> [] \<and> set meth \<inter> {CHR '' '', CR, LF} = {}"
proof -
  have "to_lower (CHR '' '') = CHR '' ''" "to_lower CR = CR" "to_lower LF = LF" by code_simp+
  moreover have "to_lower ` set meth \<subseteq> set ''getpost''"
    using assms unfolding set_map [symmetric] by (elim insertE emptyE) simp_all
  ultimately show ?thesis using assms by (auto dest: subsetD)
qed

lemma request_line_head:
  assumes "wf_request_head meth uri headers"
  shows "head_line (request_line meth uri)" and "split_any '' '' (request_line meth uri) = [meth, uri, ''HTTP/1.1'']"
proof -
  have meth: "meth \<noteq> []" "set meth \<inter> {CHR '' '', CR, LF} = {}"
    using assms method_chars [of meth] by (simp_all add: wf_request_head_def)
  moreover have "set uri \<inter> {CHR '' '', CR, LF} = {}" using assms by (simp add: wf_request_head_def)
  ultimately show "head_line (request_line meth uri)"
    by (auto simp: head_line_def request_line_def)
  have "split_any '' '' ''HTTP/1.1'' = [''HTTP/1.1'']" by code_simp
  with meth \<open>set uri \<inter> {CHR '' '', CR, LF} = {}\<close>
  show "split_any '' '' (request_line meth uri) = [meth, uri, ''HTTP/1.1'']"
    using split_any_append [of meth "'' ''" "CHR '' ''" "uri @ '' HTTP/1.1''"]
      split_any_append [of uri "'' ''" "CHR '' ''" "''HTTP/1.1''"]
    by (simp add: request_line_def)
qed

lemma request_text_words:
  assumes "wf_request_head meth uri headers"
  shows "request_words (request_text meth uri headers body) = [meth, uri, ''HTTP/1.1'']"
proof -
  have "CR \<notin> set (request_line meth uri)"
    using request_line_head(1) [OF assms] by (simp add: head_line_def)
  then have "takeWhile (\<lambda>c. c \<noteq> CR) (request_text meth uri headers body) = request_line meth uri"
    by (auto simp: request_text_def crlf_def takeWhile_append2 takeWhile_tail)
  then show ?thesis by (simp add: request_words_def request_line_head(2) [OF assms])
qed

lemma request_text_body:
  assumes "wf_request_head meth uri headers"
  shows "request_body (request_text meth uri headers body) = body"
proof -
  let ?ls = "request_line meth uri # headers"
  have "list_all head_line ?ls"
    using assms request_line_head(1) [OF assms] by (simp add: wf_request_head_def)
  from index_of_crlf2 [OF _ this, of body] drop_head_text [of ?ls body] show ?thesis
    by (simp add: request_body_def request_text_def)
qed

lemma request_text_accepted:
  assumes "wf_request_head meth uri headers"
  shows "acceptable (request_text meth uri headers body)"
    and "accepted_request (request_text meth uri headers body) =
      \<lparr>m_valid = True, m_original_request = request_text meth uri headers body, m_method = meth, m_uri = uri,
       m_version = ''HTTP/1.1'', m_body = body, m_params = params_loop [] body\<rparr>"
  using assms method_chars [of meth]
  by (auto simp: acceptable_def accepted_request_def request_text_words [OF assms]
      request_text_body [OF assms] word_def Let_def wf_request_head_def)

text \<open>
  Claim C16. Requests round trip: every text that consists of a request line with a method GET
  or POST in any case and a URI without blanks and line ends, of nonempty header lines, an
  empty line and any body is read as a valid request with that method, URI and body; when the
  body is a form, the parameters are the pairs of the form.
\<close>

theorem ParseRequest_text:
  "boost_documented b \<Longrightarrow> wf_request_head meth uri headers \<Longrightarrow>
   length (request_text meth uri headers (form_encode kvs)) < 2 ^ 32 \<Longrightarrow> form_pairs kvs \<Longrightarrow>
   ParseRequest b (request_text meth uri headers (form_encode kvs)) = Inr
     \<lparr>m_valid = True, m_original_request = request_text meth uri headers (form_encode kvs),
      m_method = meth, m_uri = uri, m_version = ''HTTP/1.1'', m_body = form_encode kvs,
      m_params = foldl (\<lambda>m kv. map_put (fst kv) (snd kv) m) [] kvs\<rparr>"
  by (simp add: ParseRequest_eq request_text_accepted params_loop_encode)

theorem ParseRequest_text_witness:
  "ParseRequest boost_model (request_text ''post'' ''/f'' [''Host: h''] ''a=1&b=2'') = Inr
     \<lparr>m_valid = True, m_original_request = request_text ''post'' ''/f'' [''Host: h''] ''a=1&b=2'',
      m_method = ''post'', m_uri = ''/f'', m_version = ''HTTP/1.1'', m_body = ''a=1&b=2'',
      m_params = [(''a'', ''1''), (''b'', ''2'')]\<rparr>"
proof -
  have head: "wf_request_head ''post'' ''/f'' [''Host: h'']" by code_simp
  have size: "length (request_text ''post'' ''/f'' [''Host: h''] (form_encode [(''a'', ''1''), (''b'', ''2'')])) < 2 ^ 32"
    by (simp add: request_text_def request_line_def crlf_def)
  have pairs: "form_pairs [(''a'', ''1''), (''b'', ''2'')]" by code_simp
  from ParseRequest_text [OF boost_model_documented head size pairs] show ?thesis by simp
qed

end
