(* ===== verification/Reply.thy ===== *)
theory Reply
  imports Cpp_Map Http_Text
begin

text \<open>
  HTTP replies: \<open>src/reply.cc\<close> and \<open>include/reply.h\<close>. The constructor leaves the status code
  unset, so it is an option here and printing a reply whose status was never set is a
  fault. \<open>ToString\<close> is shown to lay the message out as head lines, an empty line and the
  body.
\<close>

section \<open>Data and operations\<close>

record Reply =
  r_http_ver :: string
  r_status_code :: "int option"
  r_headers :: params
  r_body :: string

definition new_Reply :: Reply where
  "new_Reply = \<lparr>r_http_ver = ''HTTP/1.1'', r_status_code = None, r_headers = [], r_body = []\<rparr>"

definition SetStatus :: "int \<Rightarrow> Reply \<Rightarrow> Reply" where
  "SetStatus status r = r\<lparr>r_status_code := Some status\<rparr>"

definition SetHeader :: "string \<Rightarrow> string \<Rightarrow> Reply \<Rightarrow> Reply" where
  "SetHeader key v r = r\<lparr>r_headers := map_put key v (r_headers r)\<rparr>"

definition SetBody :: "string \<Rightarrow> Reply \<Rightarrow> Reply" where
  "SetBody body r = r\<lparr>r_body := body\<rparr>"

definition header_text :: "params \<Rightarrow> string" where
  "header_text headers = concat (map (\<lambda>(k, v). k @ '': '' @ v @ crlf) headers)"

definition reply_ToString :: "Reply \<Rightarrow> string outcome" where
  "reply_ToString r = (case r_status_code r of
      None \<Rightarrow> Inl Indeterminate_value
    | Some status \<Rightarrow>
        Inr (r_http_ver r @ '' '' @ to_string status @ '' '' @
             (if status = 200 then ''OK'' else if status = 301 then ''Moved Permanently'' else []) @
             crlf @ header_text (r_headers r) @ crlf @ r_body r))"

lemmas reply_ops = new_Reply_def SetStatus_def SetHeader_def SetBody_def

section \<open>The layout of the message\<close>

definition reason :: "int \<Rightarrow> string" where
  "reason status =
     (if status = 200 then ''OK'' else if status = 301 then ''Moved Permanently'' else [])"

definition status_line :: "string \<Rightarrow> int \<Rightarrow> string" where
  "status_line ver status = ver @ '' '' @ to_string status @ '' '' @ reason status"

definition header_lines :: "params \<Rightarrow> string list" where
  "header_lines headers = map (\<lambda>(k, v). k @ '': '' @ v) headers"

lemma header_text_lines: "header_text headers = head_text (header_lines headers)"
  by (induction headers) (auto simp: header_text_def header_lines_def)

lemma reply_ToString_layout:
  "r_status_code r = Some status \<Longrightarrow>
   reply_ToString r =
     Inr (head_text (status_line (r_http_ver r) status # header_lines (r_headers r)) @ crlf @ r_body r)"
  by (simp add: reply_ToString_def header_text_lines status_line_def reason_def)

lemma reply_ToString_defined: "(\<exists>s. reply_ToString r = Inr s) \<longleftrightarrow> r_status_code r \<noteq> None"
  by (simp add: reply_ToString_def split: option.split)

text \<open>
  A header is clean when its name is nonempty, has no colon, and neither name nor value
  breaks the line. Printing then keeps one header per line.
\<close>

definition clean_header :: "string \<times> string \<Rightarrow> bool" where
  "clean_header kv \<longleftrightarrow> fst kv \<noteq> [] \<and> CHR '':'' \<notin> set (fst kv) \<and>
     set (fst kv) \<inter> {CR, LF} = {} \<and> set (snd kv) \<inter> {CR, LF} = {}"

definition clean_reply :: "Reply \<Rightarrow> bool" where
  "clean_reply r \<longleftrightarrow> r_http_ver r = ''HTTP/1.1'' \<and> r_status_code r \<noteq> None \<and> map_ok (r_headers r) \<and>
     list_all clean_header (r_headers r)"

lemma list_all_put:
  "list_all P m \<Longrightarrow> P (k, v) \<Longrightarrow> list_all P (map_put k v m)"
  by (induction k v m rule: map_put.induct) auto

lemma header_lines_head:
  "list_all clean_header headers \<Longrightarrow> list_all head_line (header_lines headers)"
  by (induction headers) (auto simp: header_lines_def clean_header_def head_line_def)

lemma status_line_chars:
  "c \<in> set (to_string z) \<Longrightarrow> c \<noteq> CHR '' '' \<and> c \<noteq> CHR '':'' \<and> c \<noteq> CR \<and> c \<noteq> LF"
  using to_string_chars [of c z] digit_not_special [of c] by auto

lemma status_line_head: "head_line (status_line ''HTTP/1.1'' z)"
  using status_line_chars [of _ z] by (auto simp: status_line_def head_line_def reason_def)

lemma status_line_no_colon: "CHR '':'' \<notin> set (status_line ''HTTP/1.1'' z)"
  using status_line_chars [of _ z] by (auto simp: status_line_def reason_def)

end
