(* ===== verification/Handlers.thy ===== *)
theory Handlers
  imports Config_Parser Request Reply
begin

text \<open>
  The handler interface (\<open>include/handler.h\<close>) and the handlers that need nothing but the
  request: echo, not found, bad request, sleep and health check. \<open>HandleRequest\<close> returns a
  reply, a null pointer (\<open>None\<close>) or fails.

  The locale \<open>request_handler\<close> is what the session relies on: a reply that is returned has
  its status set. \<open>total_handler\<close> adds that there always is one. Both are interpreted here
  and in the theories of the other handlers.
\<close>

section \<open>The contract\<close>

locale request_handler =
  fixes handle :: "Request \<Rightarrow> Reply option outcome"
  assumes answered: "handle req = Inr (Some r) \<Longrightarrow> r_status_code r \<noteq> None"
begin

lemma printable:
  assumes "handle req = Inr (Some r)"
  obtains s where "reply_ToString r = Inr s"
  using answered [OF assms] reply_ToString_defined by blast

lemma not_unset: "handle req = Inr (Some r) \<Longrightarrow> reply_ToString r \<noteq> Inl e"
  using printable by fastforce

end

locale total_handler = request_handler +
  assumes answers: "\<exists>r. handle req = Inr (Some r)"
begin

lemma answer_text: "\<exists>r s. handle req = Inr (Some r) \<and> reply_ToString r = Inr s"
  using answers [of req] printable by metis

lemma returns: "\<exists>a. handle req = Inr a"
  using answers [of req] by blast

end

section \<open>The handlers\<close>

text \<open>
  These classes declare no data: an object of one is told from another by its class only,
  and \<open>HandleRequest\<close> reads nothing of it.
\<close>

datatype EchoHandler = New_EchoHandler

datatype NotFoundHandler = New_NotFoundHandler

datatype BadRequestHandler = New_BadRequestHandler

datatype SleepHandler = New_SleepHandler

datatype HealthCheckHandler = New_HealthCheckHandler

definition EchoHandler_create :: "NginxConfig \<Rightarrow> string \<Rightarrow> EchoHandler" where
  "EchoHandler_create config root_path = New_EchoHandler"

definition NotFoundHandler_create :: "NginxConfig \<Rightarrow> string \<Rightarrow> NotFoundHandler" where
  "NotFoundHandler_create config root_path = New_NotFoundHandler"

definition BadRequestHandler_create :: "NginxConfig \<Rightarrow> string \<Rightarrow> BadRequestHandler" where
  "BadRequestHandler_create config root_path = New_BadRequestHandler"

definition SleepHandler_create :: "NginxConfig \<Rightarrow> string \<Rightarrow> SleepHandler" where
  "SleepHandler_create config root_path = New_SleepHandler"

definition HealthCheckHandler_create :: "NginxConfig \<Rightarrow> string \<Rightarrow> HealthCheckHandler" where
  "HealthCheckHandler_create config root_path = New_HealthCheckHandler"

definition EchoHandler_HandleRequest :: "Request \<Rightarrow> Reply option outcome" where
  "EchoHandler_HandleRequest request =
     Inr (Some (SetBody (m_original_request request)
       (SetHeader ''Content-Type'' ''text/plain'' (SetStatus 200 new_Reply))))"

definition NotFoundHandler_HandleRequest :: "Request \<Rightarrow> Reply option outcome" where
  "NotFoundHandler_HandleRequest request =
     (let body = ''404 NOT FOUND'' @ crlf in
      Inr (Some (SetBody body (SetHeader ''Content-Type'' ''text/plain'' (SetStatus 404 new_Reply)))))"

definition BadRequestHandler_HandleRequest :: "Request \<Rightarrow> Reply option outcome" where
  "BadRequestHandler_HandleRequest request =
     (let body = ''400 BAD REQUEST'' @ crlf in
      Inr (Some (SetBody body (SetHeader ''Content-Type'' ''text/plain'' (SetStatus 400 new_Reply)))))"

text \<open>The five seconds the sleep handler waits for have no effect on its result.\<close>

definition SleepHandler_HandleRequest :: "Request \<Rightarrow> Reply option outcome" where
  "SleepHandler_HandleRequest request =
     (let body = ''Sleping 5 seconds...'' @ crlf in
      Inr (Some (SetBody body (SetHeader ''Content-Type'' ''text/plain'' (SetStatus 200 new_Reply)))))"

definition HealthCheckHandler_HandleRequest :: "Request \<Rightarrow> Reply option outcome" where
  "HealthCheckHandler_HandleRequest request =
     (let body = ''OK'' @ crlf in Inr (Some (SetBody body (SetStatus 200 new_Reply))))"

interpretation echo: total_handler EchoHandler_HandleRequest
  by unfold_locales (auto simp: EchoHandler_HandleRequest_def reply_ops)

interpretation not_found: total_handler NotFoundHandler_HandleRequest
  by unfold_locales (auto simp: NotFoundHandler_HandleRequest_def reply_ops)

interpretation bad_request: total_handler BadRequestHandler_HandleRequest
  by unfold_locales (auto simp: BadRequestHandler_HandleRequest_def reply_ops)

interpretation sleep: total_handler SleepHandler_HandleRequest
  by unfold_locales (auto simp: SleepHandler_HandleRequest_def reply_ops)

interpretation health_check: total_handler HealthCheckHandler_HandleRequest
  by unfold_locales (auto simp: HealthCheckHandler_HandleRequest_def reply_ops)

lemmas simple_handler_laws [handler_laws] = echo.answered not_found.answered bad_request.answered
  sleep.answered health_check.answered

end
