(* ===== verification/Static_Handler.thy ===== *)
theory Static_Handler
  imports Handlers Config_Query
begin

unbundle bit_operations_syntax

text \<open>
  Static files: \<open>src/static_handler.cc\<close>. The file system is an argument: the mode \<open>stat\<close>
  reports, and the content of the files that can be opened. \<open>IsRegularFile\<close> ignores the
  result of \<open>stat\<close>, so for a path that \<open>stat\<close> refuses it tests a local variable that was
  never written; its content is the field \<open>unset_mode\<close>.
\<close>

section \<open>The file system\<close>

record file_env =
  stat_mode :: "string \<Rightarrow> 32 word option"
  unset_mode :: "32 word"
  file_text :: "string \<Rightarrow> string option"

text \<open>An input stream: whether it is open, the text of its file, and the position to read from.\<close>

record ifstream =
  fs_open :: bool
  fs_text :: string
  fs_get :: nat

definition open_file :: "file_env \<Rightarrow> string \<Rightarrow> ifstream" where
  "open_file env path =
     (case file_text env (c_str path) of
        None \<Rightarrow> \<lparr>fs_open = False, fs_text = [], fs_get = 0\<rparr>
      | Some t \<Rightarrow> \<lparr>fs_open = True, fs_text = t, fs_get = 0\<rparr>)"

definition seekg_end :: "ifstream \<Rightarrow> ifstream" where
  "seekg_end file = file\<lparr>fs_get := length (fs_text file)\<rparr>"

definition seekg_beg :: "ifstream \<Rightarrow> ifstream" where
  "seekg_beg file = file\<lparr>fs_get := 0\<rparr>"

text \<open>
  \<open>GetContent\<close>: to the end, to reserve space, and back, then everything is read and the
  file is closed.
\<close>

definition GetContent :: "ifstream \<Rightarrow> string \<times> ifstream" where
  "GetContent file =
     (let file = seekg_beg (seekg_end file);
          content = drop (fs_get file) (fs_text file);
          file = file\<lparr>fs_get := length (fs_text file), fs_open := False\<rparr>
      in (content, file))"

lemma open_file_simps [simp]:
  "file_text env (c_str path) = None \<Longrightarrow> \<not> fs_open (open_file env path)"
  "file_text env (c_str path) = Some t \<Longrightarrow> fs_open (open_file env path)"
  "file_text env (c_str path) = Some t \<Longrightarrow>
     GetContent (open_file env path) = (t, \<lparr>fs_open = False, fs_text = t, fs_get = length t\<rparr>)"
  by (simp_all add: open_file_def GetContent_def seekg_end_def seekg_beg_def)

text \<open>\<open>S_ISREG\<close>: the file type bits \<open>0170000\<close> are \<open>0100000\<close> (octal).\<close>

definition S_ISREG :: "32 word \<Rightarrow> bool" where
  "S_ISREG m \<longleftrightarrow> m AND 61440 = 32768"

definition IsRegularFile :: "file_env \<Rightarrow> string \<Rightarrow> bool" where
  "IsRegularFile env path =
     (let st_mode = (case stat_mode env (c_str path) of None \<Rightarrow> unset_mode env | Some m \<Rightarrow> m)
      in if \<not> S_ISREG st_mode then False else True)"

section \<open>The handler\<close>

record StaticHandler =
  sh_uri_prefix :: string
  sh_path_prefix :: string
  sh_root_path :: string

definition StaticHandler_Init :: "boost_api \<Rightarrow> NginxConfig \<Rightarrow> string \<Rightarrow> StaticHandler outcome" where
  "StaticHandler_Init b config root_path =
     obind (Find b config ''root'') (\<lambda>path_prefix.
     obind (Find b config ''location'') (\<lambda>uri_prefix.
       Inr \<lparr>sh_uri_prefix = uri_prefix, sh_path_prefix = path_prefix, sh_root_path = root_path\<rparr>))"

definition StaticHandler_GetPath :: "StaticHandler \<Rightarrow> string \<Rightarrow> string outcome" where
  "StaticHandler_GetPath h url =
     (let prefix_len = length (sh_uri_prefix h) in
      obind (substr_from url prefix_len) (\<lambda>rest.
        Inr (sh_root_path h @ sh_path_prefix h @ rest)))"

definition GetContentType :: "string \<Rightarrow> string" where
  "GetContentType file_name = (case rfind_str file_name ''.'' of
      None \<Rightarrow> ''text/plain''
    | Some ext_pos \<Rightarrow>
        let ext = map to_lower (drop ext_pos file_name) in
        if ext = ''.bmp'' then ''image/bmp''
        else if ext = ''.css'' then ''text/css''
        else if ext = ''.csv'' then ''text/csv''
        else if ext = ''.doc'' then ''application/msword''
        else if ext = ''.docx'' then
          ''application/vnd.openxmlformats-officedocument.wordprocessingml.document''
        else if ext = ''.gif'' then ''image/gif''
        else if ext = ''.htm'' \<or> ext = ''.html'' then ''text/html''
        else if ext = ''.jpg'' \<or> ext = ''.jpeg'' then ''image/jpeg''
        else if ext = ''.mp3'' then ''audio/mpeg''
        else if ext = ''.mpeg'' then ''video/mpeg''
        else if ext = ''.png'' then ''image/png''
        else if ext = ''.pdf'' then ''application/pdf''
        else if ext = ''.ppt'' then ''application/vnd.ms-powerpoint''
        else if ext = ''.pptx'' then
          ''application/vnd.openxmlformats-officedocument.presentationml.presentation''
        else if ext = ''.rar'' then ''application/x-rar-compressed''
        else if ext = ''.rtf'' then ''application/rtf''
        else if ext = ''.sh'' then ''application/x-sh''
        else if ext = ''.tar'' then ''application/x-tar''
        else if ext = ''.txt'' then ''text/plain''
        else if ext = ''.wav'' then ''audio/wav''
        else if ext = ''.xhtml'' then ''application/xhtml+xml''
        else if ext = ''.xls'' then ''application/vnd.ms-excel''
        else if ext = ''.xlsx'' then
          ''application/vnd.openxmlformats-officedocument.spreadsheetml.sheet''
        else if ext = ''.xml'' then ''text/xml''
        else if ext = ''.zip'' then ''application/zip''
        else ''text/plain'')"

definition StaticHandler_HandleRequest ::
    "file_env \<Rightarrow> StaticHandler \<Rightarrow> Request \<Rightarrow> Reply option outcome" where
  "StaticHandler_HandleRequest env h request =
     obind (StaticHandler_GetPath h (m_uri request)) (\<lambda>file_path.
       if \<not> IsRegularFile env file_path then Inr None
       else
         (let file = open_file env file_path in
          if \<not> fs_open file then Inr None
          else
            (let (file_content, file) = GetContent file in
             Inr (Some (SetBody file_content
               (SetHeader ''Content-Type'' (GetContentType file_path) (SetStatus 200 new_Reply)))))))"

interpretation static: request_handler "StaticHandler_HandleRequest env h"
  by unfold_locales
    (auto simp: StaticHandler_HandleRequest_def obind_Inr_iff reply_ops Let_def split: if_splits prod.splits)

declare static.answered [handler_laws]

section \<open>Lemmas\<close>

lemma rindex_of_char_append:
  "c \<notin> set ys \<Longrightarrow> rindex_of [c] (xs @ c # ys) = Some (length xs)"
proof (induction xs)
  case Nil
  have "rindex_of [c] ys = None" using Nil by (induction ys) auto
  then show ?case by simp
qed simp

lemma GetPath_append:
  "StaticHandler_GetPath h (sh_uri_prefix h @ rest) = Inr (sh_root_path h @ sh_path_prefix h @ rest)"
  by (simp add: StaticHandler_GetPath_def Let_def)

lemma GetContentType_extension:
  "CHR ''.'' \<notin> set e \<Longrightarrow> GetContentType (p @ ''.'' @ e) = GetContentType (''.'' @ map to_lower e)"
proof -
  assume e: "CHR ''.'' \<notin> set e"
  have low: "to_lower c \<noteq> CHR ''.''" if "c \<noteq> CHR ''.''" for c
  proof (cases "65 \<le> (of_char c :: nat) \<and> (of_char c :: nat) \<le> 90")
    case True
    then have "of_char (to_lower c) = (of_char c :: nat) + 32"
      by (simp add: to_lower_def of_char_of)
    with True have "97 \<le> (of_char (to_lower c) :: nat)" by simp
    then show ?thesis by auto
  next
    case False
    then have "to_lower c = c" unfolding to_lower_def by (rule if_not_P)
    with that show ?thesis by simp
  qed
  have idem: "to_lower (to_lower c) = to_lower c" for c
    by (auto simp: to_lower_def of_char_of)
  have "CHR ''.'' \<notin> set (map to_lower e)"
  proof
    assume "CHR ''.'' \<in> set (map to_lower e)"
    then obtain c where "c \<in> set e" and "to_lower c = CHR ''.''" by (auto simp only: set_map image_iff)
    with low [of c] e show False by (cases "c = CHR ''.''") simp_all
  qed
  moreover have "to_lower (CHR ''.'') = CHR ''.''" by code_simp
  ultimately show ?thesis
    using rindex_of_char_append [of "CHR ''.''" e p] e
      rindex_of_char_append [of "CHR ''.''" "map to_lower e" "[]"]
    by (simp add: GetContentType_def rfind_str_def idem o_def)
qed

section \<open>Properties\<close>

text \<open>
  Claim C36. What the static handler serves: for a URI that continues the handler's prefix,
  the file at root, directory and the rest of the URI is sent with status 200, its exact
  content and the type of its name, when it is a regular file that opens; otherwise there
  is no reply. The rest is used as it is, so \<open>..\<close> components lead out of the directory.
\<close>

theorem StaticHandler_serves:
  "m_uri req = sh_uri_prefix h @ rest \<Longrightarrow> path = sh_root_path h @ sh_path_prefix h @ rest \<Longrightarrow>
   StaticHandler_HandleRequest env h req =
     (case (IsRegularFile env path, file_text env (c_str path)) of
        (True, Some content) \<Rightarrow>
          Inr (Some \<lparr>r_http_ver = ''HTTP/1.1'', r_status_code = Some 200,
                     r_headers = [(''Content-Type'', GetContentType path)], r_body = content\<rparr>)
      | _ \<Rightarrow> Inr None)"
  by (cases "file_text env (c_str path)")
    (simp_all add: StaticHandler_HandleRequest_def GetPath_append reply_ops split: bool.split)

definition sample_files :: file_env where
  "sample_files = \<lparr>stat_mode = (\<lambda>p. if p = ''./static/../secret.txt'' then Some 33188 else None),
     unset_mode = 0, file_text = (\<lambda>p. if p = ''./static/../secret.txt'' then Some ''key'' else None)\<rparr>"

theorem StaticHandler_serves_witness:
  "StaticHandler_HandleRequest sample_files
     \<lparr>sh_uri_prefix = ''/static'', sh_path_prefix = ''static'', sh_root_path = ''./''\<rparr>
     (fresh_request []\<lparr>m_uri := ''/static/../secret.txt''\<rparr>)
   = Inr (Some \<lparr>r_http_ver = ''HTTP/1.1'', r_status_code = Some 200,
                r_headers = [(''Content-Type'', ''text/plain'')], r_body = ''key''\<rparr>)"
proof -
  have "GetContentType ''./static/../secret.txt'' = ''text/plain''" by code_simp
  moreover have "IsRegularFile sample_files ''./static/../secret.txt''"
    by (simp add: IsRegularFile_def S_ISREG_def sample_files_def c_str_def)
  ultimately show ?thesis
    by (subst StaticHandler_serves [where rest = "''/../secret.txt''" and path = "''./static/../secret.txt''"])
      (simp_all add: sample_files_def fresh_request_def c_str_def)
qed

text \<open>
  The content type depends on the part after the last dot only, and not on its
  case.
\<close>

theorem GetContentType_case:
  "CHR ''.'' \<notin> set e \<Longrightarrow> GetContentType (p @ ''.'' @ e) = GetContentType (''.'' @ map to_lower e)"
  by (rule GetContentType_extension)

theorem GetContentType_case_witness: "GetContentType (''a.b/x'' @ ''.'' @ ''JPeG'') = ''image/jpeg''"
proof -
  have "GetContentType (''.'' @ map to_lower ''JPeG'') = ''image/jpeg''" by code_simp
  then show ?thesis using GetContentType_case [of "''JPeG''" "''a.b/x''"] by simp
qed

text \<open>
  For a path that \<open>stat\<close> refuses, whether the file counts as regular is decided
  by a variable that was never written: both answers are possible.
\<close>

theorem IsRegularFile_unset:
  "stat_mode env (c_str path) = None \<Longrightarrow>
   IsRegularFile (env\<lparr>unset_mode := 33188\<rparr>) path \<and> \<not> IsRegularFile (env\<lparr>unset_mode := 0\<rparr>) path"
  by (simp add: IsRegularFile_def S_ISREG_def)

theorem IsRegularFile_unset_witness:
  "IsRegularFile (sample_files\<lparr>unset_mode := 33188\<rparr>) ''nowhere'' \<and>
   \<not> IsRegularFile (sample_files\<lparr>unset_mode := 0\<rparr>) ''nowhere''"
  by (rule IsRegularFile_unset) (simp add: sample_files_def c_str_def)

end
