(* ===== verification/Status_Handler.thy ===== *)
theory Status_Handler
  imports Handlers Config_Query
begin

text \<open>
  The request counters and the status page: \<open>src/status_handler.cc\<close>, and the counting code of
  \<open>Session::handle_request\<close> in \<open>src/session.cc\<close>. A counter map takes a URI to a map from
  status codes to numbers of requests. The counters are C++ \<open>int\<close>s; an addition that leaves
  the range of \<open>int\<close> is a fault.
\<close>

section \<open>Counters\<close>

type_synonym code_counts = "(int, int) cmap"
type_synonym request_map = "(string, code_counts) cmap"

definition int_add :: "int \<Rightarrow> int \<Rightarrow> int outcome" where
  "int_add a b = (if fits_int (a + b) then Inr (a + b) else Inl Signed_overflow)"

definition record_request :: "string \<Rightarrow> int \<Rightarrow> request_map \<Rightarrow> request_map outcome" where
  "record_request uri code m =
     (case map_find m uri of
        Some counts \<Rightarrow>
          (case map_find counts code of
             Some n \<Rightarrow> obind (int_add n 1) (\<lambda>n'. Inr (map_put uri (map_put code n' counts) m))
           | None \<Rightarrow> Inr (map_put uri (map_put code 1 counts) m))
      | None \<Rightarrow> Inr (map_put uri (map_put code 1 []) m))"

section \<open>The status page\<close>

record StatusHandler =
  request_info_map :: request_map
  status_handlers :: "NginxConfig list"

definition setRequestInfo :: "request_map \<Rightarrow> StatusHandler \<Rightarrow> StatusHandler" where
  "setRequestInfo request_info h = h\<lparr>request_info_map := request_info\<rparr>"

definition status_setHandlers :: "NginxConfig list \<Rightarrow> StatusHandler \<Rightarrow> StatusHandler" where
  "status_setHandlers handlers h = h\<lparr>status_handlers := handlers\<rparr>"

fun codes_text :: "code_counts \<Rightarrow> string \<Rightarrow> int \<Rightarrow> (string \<times> int) outcome" where
  "codes_text [] info total_count = Inr (info, total_count)"
| "codes_text ((code, n) # ys) info total_count =
     obind (int_add total_count n) (\<lambda>total_count'.
       codes_text ys (info @ to_string code @ '': '' @ to_string n @ '' requests'' @ [LF]) total_count')"

fun urls_text :: "request_map \<Rightarrow> string \<Rightarrow> int \<Rightarrow> (string \<times> int) outcome" where
  "urls_text [] info total_count = Inr (info, total_count)"
| "urls_text ((url, counts) # xs) info total_count =
     obind (codes_text counts (info @ url @ '' - '') total_count) (\<lambda>(info', total_count').
       urls_text xs info' total_count')"

definition requestInfoToString :: "StatusHandler \<Rightarrow> string outcome" where
  "requestInfoToString h =
     obind (urls_text (request_info_map h)
              (''Status of web server:'' @ [LF] @ ''(URL - RESPONS_CODE: NUMBER_OF_REQUESTS)'' @ [LF]) 0)
       (\<lambda>(request_info, total_count).
          Inr (request_info @ ''total number of requests: '' @ to_string total_count @ [LF, LF]))"

fun handlers_text :: "boost_api \<Rightarrow> NginxConfig list \<Rightarrow> string \<Rightarrow> string outcome" where
  "handlers_text b [] handler_str = Inr handler_str"
| "handlers_text b (c # cs) handler_str =
     obind (Find b c ''name'') (\<lambda>handler_name.
     obind (Find b c ''location'') (\<lambda>url_prefix.
       handlers_text b cs (handler_str @ handler_name @ '' - '' @ url_prefix @ [LF])))"

definition handlersToString :: "boost_api \<Rightarrow> StatusHandler \<Rightarrow> string outcome" where
  "handlersToString b h =
     handlers_text b (status_handlers h)
       (''Existing Handlers:'' @ [LF] @ ''(HANDLER - URL_PREFIX)'' @ [LF])"

definition StatusHandler_HandleRequest ::
    "boost_api \<Rightarrow> StatusHandler \<Rightarrow> Request \<Rightarrow> Reply option outcome" where
  "StatusHandler_HandleRequest b h request =
     obind (requestInfoToString h) (\<lambda>info.
     obind (handlersToString b h) (\<lambda>handlers.
       Inr (Some (SetBody (info @ handlers)
         (SetHeader ''Content-Type'' ''text/plain'' (SetStatus 200 new_Reply))))))"

interpretation status: request_handler "StatusHandler_HandleRequest b h"
  by unfold_locales (auto simp: StatusHandler_HandleRequest_def obind_Inr_iff reply_ops)

declare status.answered [handler_laws]

section \<open>Counting requests\<close>

definition request_count :: "request_map \<Rightarrow> string \<Rightarrow> int \<Rightarrow> int" where
  "request_count m uri code = map_at 0 (map_at [] m uri) code"

definition total_requests :: "request_map \<Rightarrow> int" where
  "total_requests m = (\<Sum>(url, counts) \<leftarrow> m. \<Sum>(code, n) \<leftarrow> counts. n)"

definition counters_ok :: "request_map \<Rightarrow> bool" where
  "counters_ok m \<longleftrightarrow> map_ok m \<and>
     list_all (\<lambda>(url, counts). map_ok counts \<and> list_all (\<lambda>(code, n). 0 < n) counts) m"

fun record_requests :: "(string \<times> int) list \<Rightarrow> request_map \<Rightarrow> request_map outcome" where
  "record_requests [] m = Inr m"
| "record_requests ((uri, code) # es) m =
     obind (record_request uri code m) (\<lambda>m'. record_requests es m')"

lemma list_all_map_put:
  "list_all P m \<Longrightarrow> P (k, v) \<Longrightarrow> list_all P (map_put k v m)"
  by (induction k v m rule: map_put.induct) auto

lemma list_all_map_find: "list_all P m \<Longrightarrow> map_find m k = Some v \<Longrightarrow> P (k, v)"
  by (induction m k rule: map_find.induct) (auto split: if_splits)

lemma sum_map_put:
  fixes f :: "'v \<Rightarrow> int"
  shows "map_ok m \<Longrightarrow> (\<Sum>kv \<leftarrow> map_put k v m. f (snd kv)) =
     (\<Sum>kv \<leftarrow> m. f (snd kv)) + f v - (case map_find m k of None \<Rightarrow> 0 | Some w \<Rightarrow> f w)"
proof (induction k v m rule: map_put.induct)
  case (2 k v a b ps)
  have "map_find ps k = None" if "k < a"
  proof (cases "map_find ps k")
    case (Some w)
    then have "(k, w) \<in> set ps" by (simp add: map_of_find [symmetric] map_of_SomeD)
    with that "2.prems" show ?thesis by (auto simp: map_ok_Cons_iff)
  qed
  moreover have "map_ok ps" using "2.prems" by (simp add: map_ok_Cons_iff)
  ultimately show ?case using 2 by auto
qed simp

definition codes_total :: "code_counts \<Rightarrow> int" where
  "codes_total counts = (\<Sum>cn \<leftarrow> counts. snd cn)"

lemma total_requests_alt: "total_requests m = (\<Sum>uc \<leftarrow> m. codes_total (snd uc))"
  by (simp add: total_requests_def codes_total_def case_prod_unfold)

lemma codes_total_put:
  "map_ok counts \<Longrightarrow> codes_total (map_put code n counts) =
     codes_total counts + n - (case map_find counts code of None \<Rightarrow> 0 | Some w \<Rightarrow> w)"
  using sum_map_put [of counts "\<lambda>n. n"] by (simp add: codes_total_def)

lemma record_request_count:
  "record_request uri code m = Inr m' \<Longrightarrow>
   request_count m' u c = request_count m u c + (if u = uri \<and> c = code then 1 else 0)"
  by (auto simp: record_request_def request_count_def int_add_def map_at_def map_find_put
      obind_Inr_iff split: option.splits if_splits)

lemma counters_okD:
  "counters_ok m \<Longrightarrow> map_find m u = Some counts \<Longrightarrow>
     map_ok counts \<and> list_all (\<lambda>(code, n). 0 < n) counts"
  unfolding counters_ok_def using list_all_map_find by fastforce

lemma record_request_ok:
  assumes "counters_ok m" and "record_request uri code m = Inr m'"
  shows "counters_ok m'"
proof -
  have put: "counters_ok (map_put uri (map_put code n counts) m)"
    if "map_ok counts" "list_all (\<lambda>(code, n). 0 < n) counts" "0 < n" for n counts
    using that assms(1) by (auto simp: counters_ok_def intro!: map_ok_put list_all_map_put)
  show ?thesis
  proof (cases "map_find m uri")
    case None
    with assms(2) put [of "[]" 1] show ?thesis by (simp add: record_request_def)
  next
    case (Some counts)
    note ok = counters_okD [OF assms(1) Some]
    show ?thesis
    proof (cases "map_find counts code")
      case None
      with Some assms(2) ok put [of counts 1] show ?thesis by (simp add: record_request_def)
    next
      case n: (Some n)
      have "0 < n" using list_all_map_find [of _ counts code n] ok n by fastforce
      with Some n assms(2) ok put [of counts "n + 1"] show ?thesis
        by (auto simp: record_request_def int_add_def obind_Inr_iff split: if_splits)
    qed
  qed
qed

lemma record_request_total:
  assumes "counters_ok m" and "record_request uri code m = Inr m'"
  shows "total_requests m' = total_requests m + 1"
proof -
  have mo: "map_ok m" using assms(1) by (simp add: counters_ok_def)
  show ?thesis
  proof (cases "map_find m uri")
    case None
    with assms(2) mo show ?thesis
      using sum_map_put [of m codes_total uri "[(code, 1)]"]
      by (auto simp: record_request_def total_requests_alt codes_total_def)
  next
    case (Some counts)
    note ok = counters_okD [OF assms(1) Some]
    with Some assms(2) mo show ?thesis
      using sum_map_put [of m codes_total uri]
      by (auto simp: record_request_def total_requests_alt codes_total_put int_add_def obind_Inr_iff
          split: option.splits if_splits)
  qed
qed

lemma record_requests_all:
  "record_requests es m = Inr m' \<Longrightarrow> counters_ok m \<Longrightarrow>
   counters_ok m' \<and> total_requests m' = total_requests m + int (length es) \<and>
   request_count m' u c = request_count m u c + int (count_list es (u, c))"
proof (induction es m rule: record_requests.induct)
  case (2 uri code es m)
  then obtain m1 where m1: "record_request uri code m = Inr m1" "record_requests es m1 = Inr m'"
    by (auto simp: obind_Inr_iff)
  show ?case
    using "2.IH" [OF m1(1) m1(2)] record_request_ok [OF "2.prems"(2) m1(1)]
      record_request_total [OF "2.prems"(2) m1(1)] record_request_count [OF m1(1), of u c]
    by auto
qed simp

section \<open>The page shows the counters\<close>

definition code_line :: "int \<times> int \<Rightarrow> string" where
  "code_line cn = to_string (fst cn) @ '': '' @ to_string (snd cn) @ '' requests'' @ [LF]"

definition url_lines :: "string \<times> code_counts \<Rightarrow> string" where
  "url_lines uc = fst uc @ '' - '' @ concat (map code_line (snd uc))"

definition status_page :: "request_map \<Rightarrow> int \<Rightarrow> string" where
  "status_page m n =
     ''Status of web server:'' @ [LF] @ ''(URL - RESPONS_CODE: NUMBER_OF_REQUESTS)'' @ [LF] @
     concat (map url_lines m) @ ''total number of requests: '' @ to_string n @ [LF, LF]"

lemma codes_total_nonneg: "list_all (\<lambda>(code, n). 0 < n) counts \<Longrightarrow> 0 \<le> codes_total counts"
  by (induction counts) (auto simp: codes_total_def)

lemma total_requests_nonneg:
  "list_all (\<lambda>(url, counts). map_ok counts \<and> list_all (\<lambda>(code, n). 0 < n) counts) m \<Longrightarrow>
   0 \<le> total_requests m"
  using codes_total_nonneg by (induction m) (fastforce simp: total_requests_alt)+

lemma codes_text_eq:
  "list_all (\<lambda>(code, n). 0 < n) counts \<Longrightarrow> 0 \<le> t \<Longrightarrow> t + codes_total counts \<le> int_max \<Longrightarrow>
   codes_text counts info t = Inr (info @ concat (map code_line counts), t + codes_total counts)"
proof (induction counts arbitrary: info t)
  case (Cons cn counts)
  obtain c n where cn: "cn = (c, n)" by (cases cn) auto
  have "0 \<le> codes_total counts" using Cons.prems codes_total_nonneg by simp
  with Cons.prems cn have "fits_int (t + n)"
    by (simp add: fits_int_def codes_total_def int_min_def)
  with Cons cn show ?case
    by (simp add: int_add_def code_line_def codes_total_def add.assoc)
qed (simp add: codes_total_def)

lemma urls_text_eq:
  "list_all (\<lambda>(url, counts). map_ok counts \<and> list_all (\<lambda>(code, n). 0 < n) counts) m \<Longrightarrow>
   0 \<le> t \<Longrightarrow> t + total_requests m \<le> int_max \<Longrightarrow>
   urls_text m info t = Inr (info @ concat (map url_lines m), t + total_requests m)"
proof (induction m arbitrary: info t)
  case (Cons uc m)
  obtain u counts where uc: "uc = (u, counts)" by (cases uc) auto
  have "0 \<le> total_requests m" "0 \<le> codes_total counts"
    using Cons.prems uc total_requests_nonneg codes_total_nonneg by auto
  moreover from this Cons.prems uc
  have "codes_text counts (info @ u @ '' - '') t
      = Inr ((info @ u @ '' - '') @ concat (map code_line counts), t + codes_total counts)"
    by (intro codes_text_eq) (simp_all add: total_requests_alt)
  ultimately show ?case
    using Cons uc by (simp add: url_lines_def total_requests_alt add.assoc)
qed (simp add: total_requests_def)

lemma requestInfoToString_eq:
  assumes "counters_ok (request_info_map h)" and "total_requests (request_info_map h) \<le> int_max"
  shows "requestInfoToString h = Inr (status_page (request_info_map h) (total_requests (request_info_map h)))"
  using assms urls_text_eq [of "request_info_map h" 0]
  by (simp add: requestInfoToString_def status_page_def counters_ok_def)

lemma member_le_sum:
  fixes f :: "'a \<Rightarrow> int"
  shows "x \<in> set xs \<Longrightarrow> (\<And>y. y \<in> set xs \<Longrightarrow> 0 \<le> f y) \<Longrightarrow> f x \<le> (\<Sum>y \<leftarrow> xs. f y)"
  by (rule member_le_sum_list) (auto intro: imageI)

lemma count_le_total:
  assumes "counters_ok m" and "map_find m u = Some counts" and "map_find counts c = Some n"
  shows "n \<le> total_requests m"
proof -
  note ok = counters_okD [OF assms(1,2)]
  have "(c, n) \<in> set counts" and uc: "(u, counts) \<in> set m"
    using assms(2,3) by (simp_all add: map_of_find [symmetric] map_of_SomeD)
  then have "n \<le> codes_total counts"
    using ok member_le_sum [of "(c, n)" counts snd] by (fastforce simp: codes_total_def list_all_iff)
  also have "\<dots> \<le> total_requests m"
    using uc assms(1) codes_total_nonneg member_le_sum [of "(u, counts)" m "\<lambda>uc. codes_total (snd uc)"]
    by (fastforce simp: total_requests_alt counters_ok_def list_all_iff)
  finally show ?thesis .
qed

lemma record_request_succeeds:
  assumes "counters_ok m" and "total_requests m < int_max"
  shows "\<exists>m'. record_request uri code m = Inr m'"
proof (cases "map_find m uri")
  case (Some counts)
  show ?thesis
  proof (cases "map_find counts code")
    case n: (Some n)
    have "0 < n"
      using counters_okD [OF assms(1) Some] list_all_map_find [of _ counts code n] n by fastforce
    moreover have "n + 1 \<le> int_max" using count_le_total [OF assms(1) Some n] assms(2) by simp
    ultimately have "fits_int (n + 1)" by (simp add: fits_int_def int_min_def)
    with Some n show ?thesis by (simp add: record_request_def int_add_def)
  qed (use Some in \<open>simp add: record_request_def\<close>)
qed (simp add: record_request_def)

lemma record_requests_succeed:
  "counters_ok m \<Longrightarrow> total_requests m + int (length es) \<le> int_max \<Longrightarrow> \<exists>m'. record_requests es m = Inr m'"
proof (induction es m rule: record_requests.induct)
  case (2 uri code es m)
  then obtain m1 where m1: "record_request uri code m = Inr m1"
    using record_request_succeeds [of m uri code] by auto
  from "2.IH" [OF m1] 2 record_request_ok [OF _ m1] record_request_total [OF _ m1] m1
  show ?case by auto
qed simp

section \<open>Properties\<close>

text \<open>
  The counters count: after recording any sequence of at most \<open>2^31 - 1\<close> answered
  requests into the empty map, nothing has overflowed, the counter of a URI and a status is
  the number of times that pair occurred, and all counters add up to the number of
  requests.
\<close>

theorem record_requests_count:
  "int (length es) \<le> int_max \<Longrightarrow>
   \<exists>m. record_requests es [] = Inr m \<and> counters_ok m \<and> total_requests m = int (length es) \<and>
       (\<forall>uri code. request_count m uri code = int (count_list es (uri, code)))"
proof -
  assume "int (length es) \<le> int_max"
  then obtain m where m: "record_requests es [] = Inr m"
    using record_requests_succeed [of "[]" es] by (auto simp: counters_ok_def total_requests_def)
  show ?thesis
    using m record_requests_all [OF m]
    by (auto simp: counters_ok_def total_requests_def request_count_def)
qed

theorem record_requests_count_witness:
  "\<exists>m. record_requests [(''/'', 404), (''/echo'', 200), (''/'', 404)] [] = Inr m \<and> counters_ok m \<and>
       total_requests m = 3 \<and>
       (\<forall>uri code. request_count m uri code
           = int (count_list [(''/'', 404), (''/echo'', 200), (''/'', 404)] (uri, code)))"
  using record_requests_count [of "[(''/'', 404), (''/echo'', 200), (''/'', 404)]"]
  by (simp add: int_max_def)

text \<open>
  The status page is exact: for consistent counters whose sum is an \<open>int\<close> it lists
  every URI in order with every status code and its count, and the total it prints is the
  sum of all counters.
\<close>

theorem status_page_exact:
  "counters_ok (request_info_map h) \<Longrightarrow> total_requests (request_info_map h) \<le> int_max \<Longrightarrow>
   requestInfoToString h = Inr (status_page (request_info_map h) (total_requests (request_info_map h)))"
  by (rule requestInfoToString_eq)

theorem status_page_exact_witness:
  "requestInfoToString \<lparr>request_info_map = [(''/'', [(200, 1), (404, 2)])], status_handlers = []\<rparr>
   = Inr (status_page [(''/'', [(200, 1), (404, 2)])] 3)"
  by (subst status_page_exact)
    (simp_all add: counters_ok_def map_ok_def total_requests_def int_max_def)

end
