(* ===== verification/Html_Builder.thy ===== *)
theory Html_Builder
  imports Cpp_Map Static_Handler
begin

text \<open>
  The template engine: \<open>src/html_builder.cc\<close>. A marker \<open><!-- name -->\<close> in the page is replaced
  by a text; \<open>inject\<close> exists for one name, for two vectors, for a map, for a vector of maps
  and for a table. \<open>equalityInject\<close> replaces the marker of one number and erases the others
  with a regular expression.

  The replacement loop is proved equal to the reference operation \<open>replace_all\<close>, so it ends
  for every page and every replacement, and never looks at a replacement again.
\<close>

section \<open>Replacing a marker\<close>

definition generateMarker :: "string \<Rightarrow> string" where
  "generateMarker input = ''<!-- '' @ input @ '' -->''"

lemma generateMarker_nonempty [simp]: "generateMarker x \<noteq> []"
  by (simp add: generateMarker_def)

lemma find_fromD:
  assumes "find_from s pat pos = Some i" and "pat \<noteq> []"
  shows "pos \<le> i \<and> i + length pat \<le> length s"
  using assms index_of_le [of pat "drop pos s"] by (fastforce simp: find_from_def split: if_splits)

text \<open>The loop of \<open>inject\<close>: \<open>from\<close> is where the next search starts.\<close>

function inject_loop :: "string \<Rightarrow> string \<Rightarrow> string \<Rightarrow> nat \<Rightarrow> string" where
  "inject_loop original replacement html start =
     (let marker = generateMarker original in
      case find_from html marker start of
        None \<Rightarrow> html
      | Some pos \<Rightarrow>
          inject_loop original replacement
            (take pos html @ replacement @ drop (pos + length marker) html)
            (pos + length replacement))"
  by pat_completeness auto
termination
proof (relation "measure (\<lambda>(orig, r, html, start). length html - start)", goal_cases)
  case 1
  then show ?case by simp
next
  case (2 original replacement html start marker pos)
  then have "start \<le> pos" "pos + length marker \<le> length html" "marker \<noteq> []"
    using find_fromD [of html marker start pos] by auto
  then show ?case by (cases marker) auto
qed

declare inject_loop.simps [simp del]

definition inject_text :: "string \<Rightarrow> string \<Rightarrow> string \<Rightarrow> string" where
  "inject_text original replacement html = inject_loop original replacement html 0"

lemma inject_loop_eq:
  "start \<le> length html \<Longrightarrow>
   inject_loop original r html start =
     take start html @ replace_all (generateMarker original) r (drop start html)"
proof (induction original r html start rule: inject_loop.induct)
  case (1 original r html start)
  let ?m = "generateMarker original"
  show ?case
  proof (cases "index_of ?m (drop start html)")
    case None
    then show ?thesis
      using "1.prems" by (simp add: inject_loop.simps [of original r html] find_from_def replace_all_None)
  next
    case (Some i)
    let ?pos = "start + i"
    have le: "?pos + length ?m \<le> length html"
      using index_of_le [OF Some] "1.prems" by simp
    have find: "find_from html ?m start = Some ?pos"
      using Some "1.prems" by (simp add: find_from_def)
    have "inject_loop original r html start =
        inject_loop original r (take ?pos html @ r @ drop (?pos + length ?m) html) (?pos + length r)"
      by (simp add: inject_loop.simps [of original r html start] find)
    also have "\<dots> = take ?pos html @ r @ replace_all ?m r (drop (?pos + length ?m) html)"
      using "1.IH" [OF refl find] le by simp
    also have "\<dots> = take start html @ replace_all ?m r (drop start html)"
      using Some by (simp add: replace_all_index [of ?m r "drop start html"] take_add [of start i]
          add.assoc add.left_commute add.commute [of start "length (generateMarker original)"])
    finally show ?thesis .
  qed
qed

lemma inject_text_eq: "inject_text original r html = replace_all (generateMarker original) r html"
  by (simp add: inject_text_def inject_loop_eq)

section \<open>The builder\<close>

record HtmlBuilder =
  html :: string

definition new_HtmlBuilder :: HtmlBuilder where
  "new_HtmlBuilder = \<lparr>html = []\<rparr>"

text \<open>A file that does not open is read as the empty page.\<close>

definition HtmlBuilder_file :: "file_env \<Rightarrow> string \<Rightarrow> HtmlBuilder" where
  "HtmlBuilder_file env file_path =
     \<lparr>html = (case file_text env (c_str file_path) of None \<Rightarrow> [] | Some t \<Rightarrow> t)\<rparr>"

definition getHtml :: "HtmlBuilder \<Rightarrow> string" where
  "getHtml hb = html hb"

definition inject :: "string \<Rightarrow> string \<Rightarrow> HtmlBuilder \<Rightarrow> HtmlBuilder" where
  "inject original replacement hb = hb\<lparr>html := inject_text original replacement (html hb)\<rparr>"

definition inject_vectors :: "string list \<Rightarrow> string list \<Rightarrow> HtmlBuilder \<Rightarrow> HtmlBuilder" where
  "inject_vectors originals replacements hb =
     (if length originals = length replacements
      then foldl (\<lambda>h (o1, r). inject o1 r h) hb (zip originals replacements) else hb)"

definition inject_map :: "params \<Rightarrow> HtmlBuilder \<Rightarrow> HtmlBuilder" where
  "inject_map input hb = foldl (\<lambda>h (k, v). inject k v h) hb input"

definition shallowInject :: "string \<Rightarrow> string \<Rightarrow> string \<Rightarrow> string" where
  "shallowInject tHtml original replacement = inject_text original replacement tHtml"

definition shallowInject_map :: "string \<Rightarrow> params \<Rightarrow> string" where
  "shallowInject_map tHtml input = foldl (\<lambda>t (k, v). shallowInject t k v) tHtml input"

definition shallowInject_vectors :: "string \<Rightarrow> string list \<Rightarrow> string list \<Rightarrow> string" where
  "shallowInject_vectors tHtml originals replacements =
     (if length originals = length replacements
      then foldl (\<lambda>t (o1, r). shallowInject t o1 r) tHtml (zip originals replacements) else tHtml)"

text \<open>The copies of the page are appended, every one but the first after a line feed.\<close>

fun append_copies :: "bool \<Rightarrow> string list \<Rightarrow> string \<Rightarrow> string" where
  "append_copies first [] tHtmls = tHtmls"
| "append_copies first (t # ts) tHtmls =
     append_copies False ts (tHtmls @ (if first then t else [LF] @ t))"

definition inject_maps :: "params list \<Rightarrow> HtmlBuilder \<Rightarrow> HtmlBuilder" where
  "inject_maps input hb =
     hb\<lparr>html := append_copies True (map (shallowInject_map (html hb)) input) []\<rparr>"

definition inject_rows :: "string list \<Rightarrow> string list list \<Rightarrow> HtmlBuilder \<Rightarrow> HtmlBuilder" where
  "inject_rows originals replacements hb =
     hb\<lparr>html :=
       (if replacements \<noteq> [] \<and> length originals = length (hd replacements)
        then append_copies True (map (shallowInject_vectors (html hb) originals) replacements) []
        else [])\<rparr>"

section \<open>The regular expression\<close>

text \<open>
  \<open>std::regex\<close> and \<open>std::regex_replace\<close> for the patterns that consist of ordinary
  characters, \<open>\d\<close> and \<open>\d+\<close>, which is what \<open>equalityInject\<close> builds from a prefix of ordinary
  characters. A pattern with another special character is reported as not modelled.
\<close>

datatype regex_atom = Lit char | Digit | Digits

definition regex_special :: "char \<Rightarrow> bool" where
  "regex_special c \<longleftrightarrow> c \<in> set ''^$.*+?()[]{}|'' \<or> c = CHR 0x5C"

fun parse_regex :: "string \<Rightarrow> regex_atom list option" where
  "parse_regex [] = Some []"
| "parse_regex (c # cs) =
     (if c = CHR 0x5C then
        (case cs of
           d # p # rest \<Rightarrow>
             if d \<noteq> CHR ''d'' then None
             else if p = CHR ''+'' then map_option ((#) Digits) (parse_regex rest)
             else map_option ((#) Digit) (parse_regex (p # rest))
         | [d] \<Rightarrow> if d = CHR ''d'' then Some [Digit] else None
         | [] \<Rightarrow> None)
      else if regex_special c then None
      else map_option ((#) (Lit c)) (parse_regex cs))"

text \<open>The length of the match at the start of the text; \<open>\d+\<close> is greedy and backtracks.\<close>

function match_regex :: "regex_atom list \<Rightarrow> string \<Rightarrow> nat option" where
  "match_regex [] s = Some 0"
| "match_regex (a # as) [] = None"
| "match_regex (Lit c # as) (x # s) = (if x = c then map_option Suc (match_regex as s) else None)"
| "match_regex (Digit # as) (x # s) = (if is_digit x then map_option Suc (match_regex as s) else None)"
| "match_regex (Digits # as) (x # s) =
     (if is_digit x then
        (case match_regex (Digits # as) s of
           Some n \<Rightarrow> Some (Suc n)
         | None \<Rightarrow> map_option Suc (match_regex as s))
      else None)"
  by pat_completeness auto
termination
  by (relation "measure (\<lambda>(as, s). length s)") auto

fun regex_remove :: "regex_atom list \<Rightarrow> string \<Rightarrow> string" where
  "regex_remove as [] = []"
| "regex_remove as (c # cs) =
     (case match_regex as (c # cs) of
        Some (Suc n) \<Rightarrow> regex_remove as (drop n cs)
      | _ \<Rightarrow> c # regex_remove as cs)"

definition equalityInject :: "string \<Rightarrow> string \<Rightarrow> string \<Rightarrow> HtmlBuilder \<Rightarrow> HtmlBuilder outcome" where
  "equalityInject v pre replacement hb =
     (let pfx = pre @ '' == '';
          match = pfx @ v;
          nomatch = generateMarker (pfx @ [CHR 0x5C] @ ''d+'')
      in case parse_regex nomatch of
           None \<Rightarrow> Inl Regex_not_modelled
         | Some rNomatch \<Rightarrow>
             let hb1 = inject match replacement hb in
             Inr (hb1\<lparr>html := regex_remove rNomatch (html hb1)\<rparr>))"

section \<open>Lemmas\<close>

lemma inject_map_Cons: "inject_map ((k, v) # m) hb = inject_map m (inject k v hb)"
  by (simp add: inject_map_def)

lemma inject_map_html: "html (inject_map m hb) = shallowInject_map (html hb) m"
  by (induction m arbitrary: hb)
    (auto simp: inject_map_def inject_def shallowInject_map_def shallowInject_def)

lemma append_copies_eq:
  "append_copies first ts acc =
     acc @ (if ts = [] then [] else (if first then [] else [LF]) @ hd ts @ concat (map ((@) [LF]) (tl ts)))"
proof (induction first ts acc rule: append_copies.induct)
  case (2 first t ts acc)
  then show ?case by (cases ts) auto
qed simp

lemma replace_all_one:
  assumes "m \<noteq> []" and "index_of m (pre @ m @ post) = Some (length pre)" and "\<not> sublist m post"
  shows "replace_all m r (pre @ m @ post) = pre @ r @ post"
  using assms index_of_None_iff [of m post] by (simp add: replace_all_index replace_all_None)

section \<open>Templates\<close>

text \<open>
  A template is a sequence of texts and markers. A text is harmless if no marker begins in it,
  whatever follows: no exclamation mark comes after an opening angle bracket, and no such
  bracket is at the end. A marker has a name without blanks and angle brackets.
\<close>

datatype piece = Text string | Mark string

fun harmless :: "string \<Rightarrow> bool" where
  "harmless [] \<longleftrightarrow> True"
| "harmless (c # s) \<longleftrightarrow> (c = CHR ''<'' \<longrightarrow> s \<noteq> [] \<and> hd s \<noteq> CHR ''!'') \<and> harmless s"

definition marker_name :: "string \<Rightarrow> bool" where
  "marker_name k \<longleftrightarrow> CHR '' '' \<notin> set k \<and> CHR ''<'' \<notin> set k"

fun piece_text :: "piece \<Rightarrow> string" where
  "piece_text (Text s) = s"
| "piece_text (Mark k) = generateMarker k"

definition page_text :: "piece list \<Rightarrow> string" where
  "page_text ps = concat (map piece_text ps)"

fun piece_ok :: "piece \<Rightarrow> bool" where
  "piece_ok (Text s) = harmless s"
| "piece_ok (Mark k) = marker_name k"

definition template_ok :: "piece list \<Rightarrow> bool" where
  "template_ok ps = list_all piece_ok ps"

text \<open>The template with the texts in place of the markers that have one.\<close>

definition fill :: "(string \<rightharpoonup> string) \<Rightarrow> piece \<Rightarrow> piece" where
  "fill m p = (case p of Text s \<Rightarrow> Text s | Mark k \<Rightarrow> (case m k of None \<Rightarrow> Mark k | Some r \<Rightarrow> Text r))"

lemma page_text_simps [simp]:
  "page_text [] = []" "page_text (p # ps) = piece_text p @ page_text ps"
  by (simp_all add: page_text_def)

lemma replace_harmless:
  "harmless p \<Longrightarrow> replace_all (generateMarker k) r (p @ s) = p @ replace_all (generateMarker k) r s"
proof (induction p)
  case (Cons c p)
  then have "\<not> prefix (generateMarker k) ((c # p) @ s)" by (cases p) (auto simp: generateMarker_def)
  with Cons show ?case by simp
qed simp

lemma replace_marker:
  "replace_all (generateMarker k) r (generateMarker k @ s) = r @ replace_all (generateMarker k) r s"
  by (simp add: generateMarker_def)

lemma other_marker:
  assumes "marker_name k" and "marker_name k'" and "prefix (generateMarker k) (generateMarker k' @ s)"
  shows "k = k'"
proof -
  have "prefix (k @ '' -->'') (k' @ '' -->'' @ s)" using assms(3) by (simp add: generateMarker_def)
  then obtain t where "k @ CHR '' '' # ''-->'' @ t = k' @ CHR '' '' # ''-->'' @ s"
    by (auto simp: prefix_def)
  then have "takeWhile (\<lambda>c. c \<noteq> CHR '' '') (k @ CHR '' '' # ''-->'' @ t) =
      takeWhile (\<lambda>c. c \<noteq> CHR '' '') (k' @ CHR '' '' # ''-->'' @ s)"
    by (simp only:)
  moreover have "takeWhile (\<lambda>c. c \<noteq> CHR '' '') (x @ CHR '' '' # y) = x" if "marker_name x" for x y
    using that unfolding marker_name_def by (subst takeWhile_append2) auto
  ultimately show ?thesis using assms(1,2) by simp
qed

lemma no_bracket_harmless: "CHR ''<'' \<notin> set s \<Longrightarrow> harmless s"
  by (induction s) auto

lemma replace_other:
  assumes "marker_name k" and "marker_name k'" and "k \<noteq> k'"
  shows "replace_all (generateMarker k) r (generateMarker k' @ s) =
    generateMarker k' @ replace_all (generateMarker k) r s"
proof -
  obtain t where t: "generateMarker k' = CHR ''<'' # t" and "t = ''!-- '' @ k' @ '' -->''"
    by (simp add: generateMarker_def)
  then have "harmless t" using assms(2) by (intro no_bracket_harmless) (simp add: marker_name_def)
  moreover have "\<not> prefix (generateMarker k) (CHR ''<'' # t @ s)"
    using other_marker [OF assms(1,2), of s] assms(3) t by auto
  ultimately show ?thesis by (simp add: t replace_harmless)
qed

lemma inject_text_page:
  assumes "marker_name k" and "template_ok ps"
  shows "inject_text k r (page_text ps) = page_text (map (fill [k \<mapsto> r]) ps)"
  using assms(2) unfolding inject_text_eq
proof (induction ps)
  case (Cons p ps)
  with assms(1) show ?case
    by (cases p) (simp_all add: template_ok_def replace_harmless replace_marker replace_other fill_def)
qed simp

lemma template_ok_fill:
  "template_ok ps \<Longrightarrow> harmless r \<Longrightarrow> template_ok (map (fill [k \<mapsto> r]) ps)"
  by (induction ps) (auto simp: template_ok_def fill_def split: piece.split)

lemma fill_step:
  "k \<notin> fst ` set m \<Longrightarrow> fill (map_of m) (fill [k \<mapsto> v] p) = fill (map_of ((k, v) # m)) p"
  by (cases p) (auto simp: fill_def map_of_eq_None_iff)

lemma shallowInject_map_page:
  "distinct (map fst m) \<Longrightarrow> list_all (\<lambda>(k, v). marker_name k \<and> harmless v) m \<Longrightarrow> template_ok ps \<Longrightarrow>
   shallowInject_map (page_text ps) m = page_text (map (fill (map_of m)) ps)"
proof (induction m arbitrary: ps)
  case Nil
  have "fill Map.empty p = p" for p by (cases p) (simp_all add: fill_def)
  then have "map (fill (map_of [])) ps = ps" by (simp add: map_idI)
  then show ?case by (simp add: shallowInject_map_def)
next
  case (Cons kv m)
  obtain k v where kv: "kv = (k, v)" by (cases kv)
  have new: "k \<notin> fst ` set m" and k: "marker_name k" and v: "harmless v" using Cons.prems by (simp_all add: kv)
  have "shallowInject_map (page_text ps) (kv # m) = shallowInject_map (page_text (map (fill [k \<mapsto> v]) ps)) m"
    using inject_text_page [OF k Cons.prems(3)] by (simp add: kv shallowInject_map_def shallowInject_def)
  also have "\<dots> = page_text (map (fill (map_of m)) (map (fill [k \<mapsto> v]) ps))"
    using Cons.prems template_ok_fill [OF _ v] by (intro Cons.IH) (simp_all add: kv)
  also have "\<dots> = page_text (map (fill (map_of (kv # m))) ps)"
    unfolding map_map kv o_def fill_step [OF new] ..
  finally show ?case .
qed

text \<open>The template of a meme, \<open>src/static/memes/partials/_meme.html\<close>.\<close>

definition meme_partial :: "piece list" where
  "meme_partial =
    [Text (''<div class=\"grid-x grid-padding-x align-center\">'' @ [LF] @ ''    <div class=\"meme-container\">'' @ [LF] @
       ''        <div class=\"meme-img-container\">'' @ [LF] @ ''            <a href=\"/meme/view?id=''),
     Mark ''meme_id'',
     Text (''\">'' @ [LF] @ ''                <img src=\"assets/images/''),
     Mark ''template_id'',
     Text (''.jpg\">'' @ [LF] @ ''            </a>'' @ [LF] @ ''            <div class=\"meme-top text-center\">'' @ [LF] @
       ''                ''),
     Mark ''top_text'',
     Text ([LF] @ ''            </div>'' @ [LF] @ ''            <div class=\"meme-bottom text-center\">'' @ [LF] @ ''                ''),
     Mark ''bottom_text'',
     Text ([LF] @ ''            </div>'' @ [LF] @ ''        </div>'' @ [LF] @ ''        <div>'' @ [LF] @
       ''            <a href=\"/meme/new?update=''),
     Mark ''meme_id'',
     Text (''\">Edit</a>'' @ [LF] @ ''            <a href=\"/meme/delete?id=''),
     Mark ''meme_id'',
     Text (''\">Delete</a>'' @ [LF] @ ''        </div>'' @ [LF] @ ''    </div>'' @ [LF] @ ''</div>'')]"

lemma meme_partial_ok: "template_ok meme_partial"
  by code_simp

section \<open>Properties\<close>

text \<open>
  Claim C22. Injecting a text replaces all markers of that name, from left to right, in one
  pass: the result is the reference replacement of the page. The loop therefore ends for
  every page and text, also when the text contains the marker itself.
\<close>

theorem inject_replaces_all:
  "html (inject original replacement hb) = replace_all (generateMarker original) replacement (html hb)"
  by (simp add: inject_def inject_text_eq)

text \<open>
  Claim C23. Injecting a map fills a template: if the names are distinct and neither names nor
  texts nor the texts of the template can be taken for a part of a marker, the page has the
  text of the map in place of every marker that has one, in one pass, and is unchanged
  elsewhere, whatever the order of the keys.
\<close>

theorem inject_map_fills:
  "distinct (map fst m) \<Longrightarrow> list_all (\<lambda>(k, v). marker_name k \<and> harmless v) m \<Longrightarrow> template_ok ps \<Longrightarrow>
   html (inject_map m \<lparr>html = page_text ps\<rparr>) = page_text (map (fill (map_of m)) ps)"
  by (simp add: inject_map_html shallowInject_map_page)

theorem inject_map_fills_witness:
  "html (inject_map [(''bottom_text'', ''a < b''), (''meme_id'', ''7''), (''template_id'', ''2''), (''top_text'', ''hi there'')]
      \<lparr>html = page_text meme_partial\<rparr>) =
   page_text (map (fill [''bottom_text'' \<mapsto> ''a < b'', ''meme_id'' \<mapsto> ''7'', ''template_id'' \<mapsto> ''2'', ''top_text'' \<mapsto> ''hi there''])
     meme_partial)"
proof -
  let ?m = "[(''bottom_text'', ''a < b''), (''meme_id'', ''7''), (''template_id'', ''2''), (''top_text'', ''hi there'')]"
  have "distinct (map fst ?m)" "list_all (\<lambda>(k, v). marker_name k \<and> harmless v) ?m" by code_simp+
  from inject_map_fills [OF this meme_partial_ok] show ?thesis by (simp add: fun_upd_twist)
qed

text \<open>Without that the texts of a map are not put in as they are: one of them may be injected into.\<close>

lemma marker_in_text:
  "html (inject_map [(''bottom_text'', generateMarker ''top_text''), (''top_text'', ''x'')]
     \<lparr>html = generateMarker ''bottom_text''\<rparr>) = ''x''"
  by code_simp

text \<open>
  The injected text is put into the page as it is: where the page has one marker,
  the result is the text before it, the replacement unchanged (no HTML escaping, so markup in
  a meme's text becomes part of the page) and the text after it.
\<close>

theorem inject_verbatim:
  "index_of (generateMarker k) (pre @ generateMarker k @ post) = Some (length pre) \<Longrightarrow>
   \<not> sublist (generateMarker k) post \<Longrightarrow>
   html (inject k text \<lparr>html = pre @ generateMarker k @ post\<rparr>) = pre @ text @ post"
  by (simp add: inject_def inject_text_eq replace_all_one)

theorem inject_verbatim_witness:
  "html (inject ''q'' ''<script>'' \<lparr>html = ''<p>'' @ generateMarker ''q'' @ ''</p>''\<rparr>) = ''<p>'' @ ''<script>'' @ ''</p>''"
  by (rule inject_verbatim) (simp_all add: generateMarker_def sublist_code)

text \<open>
  A list of records is rendered as one copy of the page per record, each with the
  record's texts injected in key order, separated by line feeds; no record gives an empty
  page.
\<close>

theorem inject_maps_copies:
  "html (inject_maps ms hb) =
     (case ms of [] \<Rightarrow> []
      | m # rest \<Rightarrow> html (inject_map m hb) @ concat (map (\<lambda>m'. LF # html (inject_map m' hb)) rest))"
  by (cases ms) (simp_all add: inject_maps_def append_copies_eq inject_map_html o_def)

end
