(* ===== verification/Reverse_Proxy.thy ===== *)
theory Reverse_Proxy
  imports Handlers Boost_Api Config_Parser
begin

text \<open>
  The reverse proxy handler: \<open>src/reverse_proxy_handler.cc\<close>. It strips its prefix from the
  URI, sends a request of its own to the configured host, reads the answer until the peer
  closes, rewrites absolute links in it and passes status, body and content type on. An
  answer with a \<open>Location\<close> header is not passed on: the handler changes its host and calls
  itself again.

  The network is a parameter, \<open>asio\<close>, whose calls may fail and change the state of the
  world. The recursion has no bound in the code, so \<open>ReverseProxyHandler_HandleRequest\<close> is
  a partial function: \<open>None\<close> means that the call does not return.
\<close>

section \<open>The network\<close>

datatype error_code = Success | Eof | Asio_error int

record 'w asio =
  asio_resolve :: "string \<Rightarrow> string \<Rightarrow> 'w \<Rightarrow> (error_code \<times> nat) \<times> 'w"
    \<comment> \<open>host and port to an endpoint list\<close>
  asio_connect :: "nat \<Rightarrow> 'w \<Rightarrow> (error_code \<times> nat) \<times> 'w"
    \<comment> \<open>an endpoint list to a socket\<close>
  asio_write :: "nat \<Rightarrow> string \<Rightarrow> 'w \<Rightarrow> error_code \<times> 'w"
    \<comment> \<open>all bytes to a socket\<close>
  asio_read :: "nat \<Rightarrow> 'w \<Rightarrow> (error_code \<times> string) \<times> 'w"
    \<comment> \<open>everything up to an error or the end of the stream\<close>

section \<open>The handler\<close>

record ReverseProxyHandler =
  p_uri_prefix :: string
  p_path_prefix :: string
  p_root_path :: string
  p_host_name :: string
  p_port_name :: string

text \<open>\<open>RemoveHTTPProtocol\<close> changes its argument and, for https, the port of the handler.\<close>

definition RemoveHTTPProtocol ::
  "ReverseProxyHandler \<Rightarrow> string \<Rightarrow> ReverseProxyHandler \<times> string" where
  "RemoveHTTPProtocol h hostname =
     (case find_str hostname ''http://'' of
        Some pos \<Rightarrow> (h, drop (pos + length ''http://'') hostname)
      | None \<Rightarrow>
          (case find_str hostname ''https://'' of
             Some pos \<Rightarrow> (h\<lparr>p_port_name := ''443''\<rparr>, drop (pos + length ''https://'') hostname)
           | None \<Rightarrow> (h, hostname)))"

definition ReverseProxyHandler_Init ::
  "boost_api \<Rightarrow> NginxConfig \<Rightarrow> string \<Rightarrow> ReverseProxyHandler outcome" where
  "ReverseProxyHandler_Init b config root_path =
     obind (Find b config ''location'') (\<lambda>prefix.
     obind (Find b config ''host'') (\<lambda>host.
     obind (Find b config ''port'') (\<lambda>port.
       let h = \<lparr>p_uri_prefix = prefix, p_path_prefix = [], p_root_path = root_path,
                p_host_name = host, p_port_name = port\<rparr>;
           (h', host') = RemoveHTTPProtocol h (p_host_name h)
       in Inr (h'\<lparr>p_host_name := host'\<rparr>))))"

definition ReverseProxyHandler_GetPath :: "ReverseProxyHandler \<Rightarrow> string \<Rightarrow> string outcome" where
  "ReverseProxyHandler_GetPath h url =
     obind (substr_from url (length (p_uri_prefix h))) (\<lambda>path.
       Inr (if path = [] then ''/'' else path))"

text \<open>
  When there is no space at all, \<open>start + 1\<close> wraps around to 0 and the second search fails
  too.
\<close>

definition GetStatus :: "string \<Rightarrow> int outcome" where
  "GetStatus resp =
     (let start = find_str resp '' '';
          from = unat (pos_size start + 1)
      in (case find_from resp '' '' from of
            Some end_pos \<Rightarrow> stoi (drop from (take end_pos resp))
          | None \<Rightarrow> Inr 400))"

text \<open>The start of the body is \<open>None\<close> for \<open>npos\<close>, for which \<open>substr(0, start)\<close> is everything.\<close>

definition header_of_line :: "string \<Rightarrow> (string \<times> string) option outcome" where
  "header_of_line line =
     (case find_str line '':'' of
        None \<Rightarrow> Inr None
      | Some pos \<Rightarrow> obind (substr_from line (pos + 2)) (\<lambda>v. Inr (Some (take pos line, v))))"

fun headers_loop :: "string list \<Rightarrow> params \<Rightarrow> params outcome" where
  "headers_loop [] headers = Inr headers"
| "headers_loop (line # ls) headers =
     obind (header_of_line line) (\<lambda>kv.
       headers_loop ls (case kv of None \<Rightarrow> headers | Some (k, v) \<Rightarrow> map_put k v headers))"

definition head_part :: "string \<Rightarrow> nat option \<Rightarrow> string" where
  "head_part resp start = (case start of None \<Rightarrow> resp | Some i \<Rightarrow> take i resp)"

definition GetHeaders :: "boost_api \<Rightarrow> string \<Rightarrow> nat option \<Rightarrow> params outcome" where
  "GetHeaders b resp start = headers_loop (boost_split b (head_part resp start) crlf) []"

definition GetBody :: "string \<Rightarrow> nat option \<Rightarrow> string outcome" where
  "GetBody resp start =
     (case start of None \<Rightarrow> Inr [] | Some i \<Rightarrow> substr_from resp (i + length crlf2))"

definition GetNewHostAndPath ::
  "ReverseProxyHandler \<Rightarrow> string \<Rightarrow> ReverseProxyHandler \<times> string" where
  "GetNewHostAndPath h new_location =
     (let (h1, host) = RemoveHTTPProtocol h new_location
      in (case find_str host ''/'' of
            Some pos \<Rightarrow> (h1\<lparr>p_host_name := take pos host\<rparr>, p_uri_prefix h1 @ drop pos host)
          | None \<Rightarrow> (h1\<lparr>p_host_name := host\<rparr>, p_uri_prefix h1 @ [])))"

definition RedirectHTMLMaps :: "boost_api \<Rightarrow> ReverseProxyHandler \<Rightarrow> string \<Rightarrow> string" where
  "RedirectHTMLMaps b h resp =
     (let resp = boost_replace_all b resp ''href=\"/'' (''href=\"'' @ p_uri_prefix h @ ''/'');
          resp = boost_replace_all b resp ''src=\"/'' (''src=\"'' @ p_uri_prefix h @ ''/'');
          resp = boost_replace_all b resp ''url(/'' (''url('' @ p_uri_prefix h @ ''/'')
      in boost_replace_all b resp (''src='' @ [CHR 0x27]) (''src='' @ [CHR 0x27] @ p_uri_prefix h @ ''/''))"

definition ResolveHost ::
  "'w asio \<Rightarrow> ReverseProxyHandler \<Rightarrow> 'w \<Rightarrow> (error_code \<times> nat) \<times> 'w" where
  "ResolveHost net h w = asio_resolve net (p_host_name h) (p_port_name h) w"

definition ReturnError :: "Reply \<Rightarrow> Reply" where
  "ReturnError rep =
     SetBody (''500 Internal Server Error'' @ crlf)
       (SetHeader ''Content-Type'' ''text/plain'' (SetStatus 500 rep))"

text \<open>
  \<open>SetHeaders\<close> either ends with the reply or, at a \<open>Location\<close> header, with the tail call of
  \<open>HandleRequest\<close> on the changed handler and request.
\<close>

datatype proxy_result = Answer Reply | Redirect ReverseProxyHandler Request

fun SetHeaders ::
  "ReverseProxyHandler \<Rightarrow> Reply \<Rightarrow> params \<Rightarrow> Request \<Rightarrow> proxy_result" where
  "SetHeaders h rep [] request = Answer rep"
| "SetHeaders h rep ((k, v) # headers) request =
     (if k = ''Content-Type'' then SetHeaders h (SetHeader k v rep) headers request
      else if k = ''Location'' then
        (let (h', path) = GetNewHostAndPath h v in Redirect h' (set_uri path request))
      else SetHeaders h rep headers request)"

section \<open>One exchange, and the redirects\<close>

definition proxy_request_text :: "ReverseProxyHandler \<Rightarrow> Request \<Rightarrow> string outcome" where
  "proxy_request_text h request =
     obind (ReverseProxyHandler_GetPath h (m_uri request)) (\<lambda>path.
       Inr (m_method request @ '' '' @ path @ '' HTTP/1.1'' @ crlf @ ''Host: '' @ p_host_name h @ crlf @
            ''Accept-Encoding: utf-8'' @ crlf @ ''Connection: close'' @ crlf @ crlf))"

definition proxy_response ::
  "boost_api \<Rightarrow> ReverseProxyHandler \<Rightarrow> Request \<Rightarrow> string \<Rightarrow> proxy_result outcome" where
  "proxy_response b h request resp =
     (let response = RedirectHTMLMaps b h resp;
          start = find_str response crlf2
      in obind (GetStatus response) (\<lambda>status.
         obind (GetBody response start) (\<lambda>body.
         obind (GetHeaders b response start) (\<lambda>headers.
           Inr (SetHeaders h (SetBody body (SetStatus status new_Reply)) headers request)))))"

definition proxy_exchange ::
  "boost_api \<Rightarrow> 'w asio \<Rightarrow> ReverseProxyHandler \<Rightarrow> Request \<Rightarrow> 'w \<Rightarrow> proxy_result outcome \<times> 'w" where
  "proxy_exchange b net h request w =
     (case proxy_request_text h request of
        Inl e \<Rightarrow> (Inl e, w)
      | Inr text \<Rightarrow>
          (let ((ec, iter), w) = ResolveHost net h w in
           if ec \<noteq> Success then (Inr (Answer (ReturnError new_Reply)), w) else
           let ((ec, socket), w) = asio_connect net iter w in
           if ec \<noteq> Success then (Inr (Answer (ReturnError new_Reply)), w) else
           let (ec, w) = asio_write net socket text w in
           if ec \<noteq> Success then (Inr (Answer (ReturnError new_Reply)), w) else
           let ((ec, response), w) = asio_read net socket w in
           if ec \<noteq> Eof then (Inr (Answer (ReturnError new_Reply)), w) else
           (proxy_response b h request response, w)))"

text \<open>
  A redirect is followed by a call of the method itself, without a bound: \<open>None\<close> is the call
  that does not return (the program runs out of stack).
\<close>

partial_function (option) ReverseProxyHandler_HandleRequest ::
  "boost_api \<Rightarrow> 'w asio \<Rightarrow> ReverseProxyHandler \<Rightarrow> Request \<Rightarrow> 'w \<Rightarrow>
   (Reply option outcome \<times> ReverseProxyHandler \<times> 'w) option" where
  "ReverseProxyHandler_HandleRequest b net h request w =
     (case proxy_exchange b net h request w of
        (Inl e, w') \<Rightarrow> Some (Inl e, h, w')
      | (Inr (Answer rep), w') \<Rightarrow> Some (Inr (Some rep), h, w')
      | (Inr (Redirect h' request'), w') \<Rightarrow>
          ReverseProxyHandler_HandleRequest b net h' request' w')"

end
