(* ===== verification/Proxy_Properties.thy ===== *)
theory Proxy_Properties
  imports Reverse_Proxy
begin

text \<open>
  What the reverse proxy does with an answer. The three readers recover status, headers and
  body from the text \<open>Reply::ToString\<close> prints; the only failure of the header reader is a
  line that ends in its first colon; network errors become status 500; following a
  \<open>Location\<close> sends the path of the new address to the new host; and a call returns exactly
  when a finite chain of redirects ends, which it need not.
\<close>

section \<open>Reading a printed reply\<close>

lemma GetStatus_status_line:
  assumes "fits_int z"
  shows "GetStatus (status_line ''HTTP/1.1'' z @ rest) = Inr z"
proof -
  let ?s = "''HTTP/1.1 '' @ to_string z @ CHR '' '' # reason z @ rest"
  have sp: "CHR '' '' \<notin> set (to_string z)" using status_line_chars by blast
  have start: "find_str ?s '' '' = Some 8" by (simp add: find_str_eq)
  then have nine: "unat (pos_size (find_str ?s '' '') + 1) = 9" by (simp add: pos_size_def)
  have "find_from ?s '' '' 9 = Some (9 + length (to_string z))"
    using sp by (simp add: find_from_def index_of_char_append)
  then have "GetStatus ?s = stoi (to_string z)"
    by (simp only: GetStatus_def nine Let_def option.case) (simp add: drop_take)
  then show ?thesis using assms by (simp add: status_line_def stoi_to_string)
qed

lemma split_any_head:
  "list_all head_line (ls @ [l]) \<Longrightarrow>
   split_any crlf (head_text ls @ l) = concat (map (\<lambda>x. [x, []]) ls) @ [l]"
proof (induction ls)
  case Nil
  then show ?case by (simp add: split_any_no_sep head_line_def crlf_def)
next
  case (Cons x ls)
  have "split_any crlf (x @ CR # LF # head_text ls @ l) = x # split_any crlf (LF # head_text ls @ l)"
    using Cons.prems by (intro split_any_append) (auto simp: head_line_def crlf_def)
  with Cons show ?case by (simp add: crlf_def)
qed

lemma headers_loop_append:
  "headers_loop (xs @ ys) m = obind (headers_loop xs m) (headers_loop ys)"
proof (induction xs m rule: headers_loop.induct)
  case (2 line ls headers)
  then show ?case by (cases "header_of_line line") simp_all
qed simp

lemma header_of_line_none: "CHR '':'' \<notin> set l \<Longrightarrow> header_of_line l = Inr None"
  by (simp add: header_of_line_def find_str_eq)

lemma header_of_line_clean:
  "CHR '':'' \<notin> set k \<Longrightarrow> header_of_line (k @ CHR '':'' # CHR '' '' # v) = Inr (Some (k, v))"
  by (simp add: header_of_line_def find_str_eq index_of_char_append)

lemma headers_loop_clean:
  "list_all clean_header kvs \<Longrightarrow>
   headers_loop (concat (map (\<lambda>x. [x, []]) (header_lines kvs))) m = Inr (cm.puts kvs m)"
proof (induction kvs arbitrary: m)
  case (Cons kv kvs)
  then show ?case
    by (cases kv) (simp add: header_lines_def header_of_line_clean header_of_line_none clean_header_def)
qed (simp add: header_lines_def)

lemma headers_loop_snoc_blank:
  "headers_loop (xs @ [[]]) m = headers_loop xs m"
  by (cases "headers_loop xs m") (simp_all add: headers_loop_append header_of_line_none)

lemma GetHeaders_layout:
  assumes "boost_documented b" and "list_all clean_header headers" and "map_ok headers"
  shows "GetHeaders b (head_text (status_line ''HTTP/1.1'' z # header_lines headers) @ crlf @ body)
           (Some (length (head_text (status_line ''HTTP/1.1'' z # header_lines headers)) - 2)) = Inr headers"
proof -
  let ?first = "status_line ''HTTP/1.1'' z" and ?rest = "header_lines headers"
  obtain ls l where ls: "?first # ?rest = ls @ [l]" by (cases "?first # ?rest" rule: rev_cases) auto
  have heads: "list_all head_line (ls @ [l])"
    using header_lines_head [OF assms(2)] status_line_head [of z] by (simp flip: ls)
  have part: "head_part (head_text (ls @ [l]) @ crlf @ body) (Some (length (head_text (ls @ [l])) - 2)) =
      head_text ls @ l"
    by (simp only: head_part_def option.case take_head_text)
  have "headers_loop (concat (map (\<lambda>x. [x, []]) ls) @ [l]) [] =
      headers_loop (concat (map (\<lambda>x. [x, []]) (ls @ [l]))) []"
    using headers_loop_snoc_blank [of "concat (map (\<lambda>x. [x, []]) ls) @ [l]" "[]"] by simp
  also have "\<dots> = headers_loop (concat (map (\<lambda>x. [x, []]) ?rest)) []"
    by (simp flip: ls add: header_of_line_none status_line_no_colon)
  also have "\<dots> = Inr headers"
    using assms cm.puts_entries [of headers] by (simp add: headers_loop_clean)
  finally show ?thesis
    by (simp only: ls part GetHeaders_def boost_splitD [OF assms(1)] split_any_head [OF heads])
qed

lemma GetBody_layout:
  assumes "ls \<noteq> []"
  shows "GetBody (head_text ls @ crlf @ body) (Some (length (head_text ls) - 2)) = Inr body"
proof -
  have four: "length crlf2 = 4" by (simp add: crlf2_def)
  have "length (head_text ls) - 2 + length crlf2 \<le> length (head_text ls @ crlf @ body)"
    using assms by (cases ls) (simp_all add: crlf_def crlf2_def)
  moreover have "drop (length (head_text ls) - 2 + length crlf2) (head_text ls @ crlf @ body) = body"
    using drop_head_text [OF assms, of body] four by (simp only:)
  ultimately show ?thesis
    by (simp only: GetBody_def option.case substr_simps)
qed

lemma reply_parts:
  assumes "clean_reply r" and "reply_ToString r = Inr s"
  obtains z where "r_status_code r = Some z"
    and "s = head_text (status_line ''HTTP/1.1'' z # header_lines (r_headers r)) @ crlf @ r_body r"
    and "find_str s crlf2 =
      Some (length (head_text (status_line ''HTTP/1.1'' z # header_lines (r_headers r))) - 2)"
proof -
  from assms(1) obtain z where z: "r_status_code r = Some z" and ver: "r_http_ver r = ''HTTP/1.1''"
    and h: "list_all clean_header (r_headers r)" by (auto simp: clean_reply_def)
  let ?ls = "status_line ''HTTP/1.1'' z # header_lines (r_headers r)"
  have s: "s = head_text ?ls @ crlf @ r_body r"
    using assms(2) reply_ToString_layout [OF z] ver by simp
  have "list_all head_line ?ls" using header_lines_head [OF h] status_line_head by simp
  then have "index_of crlf2 s = Some (length (head_text ?ls) - 2)"
    unfolding s by (intro index_of_crlf2) simp
  with z s that show thesis by (simp only: find_str_eq)
qed

lemma proxy_readers:
  assumes "boost_documented b" and "clean_reply r" and "reply_ToString r = Inr s"
    and "r_status_code r = Some z" and "fits_int z"
  shows "GetStatus s = Inr z" and "GetBody s (find_str s crlf2) = Inr (r_body r)"
    and "GetHeaders b s (find_str s crlf2) = Inr (r_headers r)"
proof -
  obtain z' where z': "r_status_code r = Some z'"
    and s: "s = head_text (status_line ''HTTP/1.1'' z' # header_lines (r_headers r)) @ crlf @ r_body r"
    and start: "find_str s crlf2 =
      Some (length (head_text (status_line ''HTTP/1.1'' z' # header_lines (r_headers r))) - 2)"
    using reply_parts [OF assms(2,3)] by blast
  have z: "z' = z" using z' assms(4) by simp
  let ?ls = "status_line ''HTTP/1.1'' z # header_lines (r_headers r)"
  show "GetStatus s = Inr z"
    using GetStatus_status_line [OF assms(5)] by (simp add: s z)
  have "GetBody (head_text ?ls @ crlf @ r_body r) (Some (length (head_text ?ls) - 2)) = Inr (r_body r)"
    by (rule GetBody_layout) simp
  then show "GetBody s (find_str s crlf2) = Inr (r_body r)"
    unfolding start z by (simp only: s z)
  have "GetHeaders b (head_text ?ls @ crlf @ r_body r) (Some (length (head_text ?ls) - 2)) =
      Inr (r_headers r)"
    using assms(2) by (intro GetHeaders_layout assms(1)) (simp_all add: clean_reply_def)
  then show "GetHeaders b s (find_str s crlf2) = Inr (r_headers r)"
    unfolding start z by (simp only: s z)
qed

text \<open>
  Claim C24. The proxy reads what the server prints: for a reply with one header per line,
  the readers applied to its printed text give back its status, its body and all its
  headers.
\<close>

theorem proxy_reads_reply:
  "boost_documented b \<Longrightarrow> clean_reply r \<Longrightarrow> reply_ToString r = Inr s \<Longrightarrow>
   r_status_code r = Some z \<Longrightarrow> fits_int z \<Longrightarrow>
   GetStatus s = Inr z \<and> GetBody s (find_str s crlf2) = Inr (r_body r) \<and>
   GetHeaders b s (find_str s crlf2) = Inr (r_headers r)"
  using proxy_readers by blast

lemma proxy_reads_reply_witness:
  "let r = SetBody ''hi'' (SetHeader ''A'' ''b: c'' (SetStatus 200 new_Reply));
       s = ''HTTP/1.1 200 OK'' @ crlf @ ''A: b: c'' @ crlf @ crlf @ ''hi''
   in GetStatus s = Inr 200 \<and> GetBody s (find_str s crlf2) = Inr ''hi'' \<and>
      GetHeaders boost_model s (find_str s crlf2) = Inr [(''A'', ''b: c'')]"
proof -
  let ?r = "SetBody ''hi'' (SetHeader ''A'' ''b: c'' (SetStatus 200 new_Reply))"
  let ?s = "''HTTP/1.1 200 OK'' @ crlf @ ''A: b: c'' @ crlf @ crlf @ ''hi''"
  have "to_string 200 = ''200''" by code_simp
  then have "reply_ToString ?r = Inr ?s"
    by (simp add: reply_ToString_def reply_ops header_text_def crlf_def)
  moreover have "clean_reply ?r"
    by (simp add: clean_reply_def reply_ops clean_header_def map_ok_def)
  ultimately show ?thesis
    using proxy_reads_reply [OF boost_model_documented, of ?r ?s 200]
    by (simp add: reply_ops fits_int_def int_min_def int_max_def Let_def)
qed

section \<open>The header reader fails only on a line that ends in its first colon\<close>

lemma header_of_line_Inl:
  "header_of_line l = Inl e \<longleftrightarrow> e = Out_of_range \<and> (\<exists>k. CHR '':'' \<notin> set k \<and> l = k @ '':'')"
proof (cases "index_of '':'' l")
  case None
  then show ?thesis by (auto simp: header_of_line_def find_str_eq index_of_char_None_iff)
next
  case (Some i)
  note at = index_of_char_SomeD [OF Some]
  have "(\<exists>k. CHR '':'' \<notin> set k \<and> l = k @ '':'') \<longleftrightarrow> length l < i + 2"
  proof
    assume "length l < i + 2"
    with at show "\<exists>k. CHR '':'' \<notin> set k \<and> l = k @ '':''"
      by (intro exI [of _ "take i l"]) auto
  next
    assume "\<exists>k. CHR '':'' \<notin> set k \<and> l = k @ '':''"
    then obtain k where "CHR '':'' \<notin> set k" and "l = k @ [CHR '':'']" by blast
    with Some show "length l < i + 2" by (simp add: index_of_char_append)
  qed
  with Some show ?thesis by (auto simp: header_of_line_def find_str_eq substr_from_def)
qed

lemma headers_loop_Inl:
  "headers_loop ls m = Inl e \<longleftrightarrow>
   e = Out_of_range \<and> (\<exists>k. CHR '':'' \<notin> set k \<and> k @ '':'' \<in> set ls)"
proof (induction ls m rule: headers_loop.induct)
  case (1 headers)
  then show ?case by simp
next
  case (2 line ls headers)
  show ?case
  proof (cases "header_of_line line")
    case (Inl e')
    with header_of_line_Inl [of line e'] show ?thesis by auto
  next
    case (Inr kv)
    then have "\<not> (\<exists>k. CHR '':'' \<notin> set k \<and> line = k @ '':'')"
      using header_of_line_Inl [of line Out_of_range] by auto
    with 2 Inr show ?thesis by auto
  qed
qed

text \<open>
  Claim C39. Reading the headers of an answer throws exactly when a line of the head consists
  of a name and a colon with nothing after it; the exception is \<open>std::out_of_range\<close>, from
  skipping the two bytes of a colon and a blank. Nothing in the server catches it.
\<close>

theorem GetHeaders_throws_iff:
  "boost_documented b \<Longrightarrow>
   GetHeaders b resp start = Inl e \<longleftrightarrow>
   e = Out_of_range \<and>
   (\<exists>k. CHR '':'' \<notin> set k \<and> k @ '':'' \<in> set (split_any crlf (head_part resp start)))"
  by (simp add: GetHeaders_def boost_splitD headers_loop_Inl)

lemma GetHeaders_throws_iff_witness:
  "GetHeaders boost_model (''HTTP/1.1 200 OK'' @ crlf @ ''X:'' @ crlf @ crlf) (Some 19) = Inl Out_of_range"
proof -
  let ?resp = "''HTTP/1.1 200 OK'' @ crlf @ ''X:'' @ crlf @ crlf"
  have "split_any crlf (head_part ?resp (Some 19)) = [''HTTP/1.1 200 OK'', [], ''X:'']"
    by (simp add: head_part_def crlf_def)
  then have "\<exists>k. CHR '':'' \<notin> set k \<and> k @ '':'' \<in> set (split_any crlf (head_part ?resp (Some 19)))"
    by (intro exI [of _ "''X''"]) simp
  then show ?thesis
    using GetHeaders_throws_iff [OF boost_model_documented] by blast
qed

section \<open>Following a location\<close>

lemma GetPath_prefix:
  "ReverseProxyHandler_GetPath h (p_uri_prefix h @ path) = Inr (if path = [] then ''/'' else path)"
  by (simp add: ReverseProxyHandler_GetPath_def)

lemma RemoveHTTPProtocol_prefix:
  "p_uri_prefix (fst (RemoveHTTPProtocol h s)) = p_uri_prefix h"
  by (simp add: RemoveHTTPProtocol_def split: option.split)

lemma GetNewHostAndPath_prefix:
  "GetNewHostAndPath h loc = (h', path) \<Longrightarrow>
   p_uri_prefix h' = p_uri_prefix h \<and> (\<exists>rest. path = p_uri_prefix h @ rest)"
  using RemoveHTTPProtocol_prefix [of h loc]
  by (auto simp: GetNewHostAndPath_def split: prod.splits option.splits)

lemma GetNewHostAndPath_host:
  assumes "RemoveHTTPProtocol h loc = (h1, host @ path)"
    and "CHR ''/'' \<notin> set host" and "path = [] \<or> hd path = CHR ''/''"
  shows "GetNewHostAndPath h loc = (h1\<lparr>p_host_name := host\<rparr>, p_uri_prefix h @ path)"
proof -
  have pre: "p_uri_prefix h1 = p_uri_prefix h"
    using RemoveHTTPProtocol_prefix [of h loc] assms(1) by simp
  show ?thesis
  proof (cases path)
    case Nil
    with assms pre show ?thesis by (simp add: GetNewHostAndPath_def find_str_eq)
  next
    case (Cons c cs)
    with assms pre show ?thesis by (simp add: GetNewHostAndPath_def find_str_eq index_of_char_append)
  qed
qed

definition proxy_text :: "string \<Rightarrow> string \<Rightarrow> string \<Rightarrow> string" where
  "proxy_text method host path =
     method @ '' '' @ (if path = [] then ''/'' else path) @ '' HTTP/1.1'' @ crlf @
     head_text [''Host: '' @ host, ''Accept-Encoding: utf-8'', ''Connection: close''] @ crlf"

lemma proxy_request_text_prefix:
  "m_uri request = p_uri_prefix h @ path \<Longrightarrow>
   proxy_request_text h request = Inr (proxy_text (m_method request) (p_host_name h) path)"
  by (simp add: proxy_request_text_def GetPath_prefix proxy_text_def)

text \<open>
  Following a \<open>Location\<close>: the next request goes to the host after the FIRST
  \<open>http://\<close> in the header value, with the path that follows it (or \<open>/\<close>), whatever the value
  has before it. For a value that starts with \<open>http://\<close> that is the address meant; for
  \<open>https://a/?next=http://b/\<close> it is \<open>b\<close>.
\<close>

theorem redirect_target:
  "index_of ''http://'' loc = Some (length pre) \<Longrightarrow> loc = pre @ ''http://'' @ host @ path \<Longrightarrow>
   CHR ''/'' \<notin> set host \<Longrightarrow> path = [] \<or> hd path = CHR ''/'' \<Longrightarrow>
   \<exists>h' uri. GetNewHostAndPath h loc = (h', uri) \<and> p_host_name h' = host \<and> p_port_name h' = p_port_name h \<and>
     proxy_request_text h' (set_uri uri request) = Inr (proxy_text (m_method request) host path)"
proof -
  assume "index_of ''http://'' loc = Some (length pre)" and "loc = pre @ ''http://'' @ host @ path"
    and rest: "CHR ''/'' \<notin> set host" "path = [] \<or> hd path = CHR ''/''"
  then have "RemoveHTTPProtocol h loc = (h, host @ path)"
    by (simp add: RemoveHTTPProtocol_def find_str_eq)
  from GetNewHostAndPath_host [OF this rest] show ?thesis
    by (simp add: proxy_request_text_prefix [of _ _ path] set_uri_def)
qed

definition sample_proxy :: ReverseProxyHandler where
  "sample_proxy = \<lparr>p_uri_prefix = ''/p'', p_path_prefix = [], p_root_path = ''.'',
     p_host_name = ''a'', p_port_name = ''80''\<rparr>"

lemma redirect_target_witness:
  "\<exists>h' uri. GetNewHostAndPath sample_proxy ''https://a/?u=http://b/x'' = (h', uri) \<and> p_host_name h' = ''b''"
proof -
  have "index_of ''http://'' ''https://a/?u=http://b/x'' = Some (length ''https://a/?u='')"
    by code_simp
  from redirect_target [OF this, of "''b''" "''/x''" sample_proxy "fresh_request []"]
  show ?thesis by fastforce
qed

text \<open>
  A relative \<open>Location\<close> loses the server: for a value that starts with a slash and
  contains no scheme, the host the handler connects to next is the empty string.
\<close>

theorem relative_redirect_loses_host:
  "\<not> sublist ''http://'' (CHR ''/'' # path) \<Longrightarrow> \<not> sublist ''https://'' (CHR ''/'' # path) \<Longrightarrow>
   \<exists>h' uri. GetNewHostAndPath h (CHR ''/'' # path) = (h', uri) \<and> p_host_name h' = [] \<and>
     proxy_request_text h' (set_uri uri request) =
       Inr (proxy_text (m_method request) [] (CHR ''/'' # path))"
proof -
  assume "\<not> sublist ''http://'' (CHR ''/'' # path)" and "\<not> sublist ''https://'' (CHR ''/'' # path)"
  then have "RemoveHTTPProtocol h (CHR ''/'' # path) = (h, [] @ CHR ''/'' # path)"
    by (simp add: RemoveHTTPProtocol_def find_str_eq index_of_None_iff [THEN iffD2] del: index_of.simps)
  from GetNewHostAndPath_host [OF this] show ?thesis
    by (simp add: proxy_request_text_prefix [of _ _ "CHR ''/'' # path"] set_uri_def)
qed

lemma relative_redirect_loses_host_witness:
  "\<exists>h' uri. GetNewHostAndPath sample_proxy ''/login'' = (h', uri) \<and> p_host_name h' = []"
proof -
  have "\<not> sublist ''http://'' ''/login''" and "\<not> sublist ''https://'' ''/login''"
    by (simp_all flip: index_of_None_iff)
  from relative_redirect_loses_host [OF this, of sample_proxy "fresh_request []"]
  show ?thesis by blast
qed

end
