(* ===== verification/Proxy_Exchange.thy ===== *)
theory Proxy_Exchange
  imports Proxy_Properties
begin

text \<open>
  Whole calls of the reverse proxy. \<open>fetch\<close> is the network part of a call as one step that
  delivers a text or fails; \<open>HandleRequest\<close> is shown to answer 500 when it fails, to pass
  the answer of a well-behaved server on, to return exactly when some bounded number of
  redirects suffices, and not to return when the server redirects every request.
\<close>

section \<open>The network part of a call\<close>

definition fetch :: "'w asio \<Rightarrow> ReverseProxyHandler \<Rightarrow> string \<Rightarrow> 'w \<Rightarrow> string option \<times> 'w" where
  "fetch net h text w =
     (case asio_resolve net (p_host_name h) (p_port_name h) w of ((ec, iter), w) \<Rightarrow>
      if ec \<noteq> Success then (None, w) else
      case asio_connect net iter w of ((ec, socket), w) \<Rightarrow>
      if ec \<noteq> Success then (None, w) else
      case asio_write net socket text w of (ec, w) \<Rightarrow>
      if ec \<noteq> Success then (None, w) else
      case asio_read net socket w of ((ec, response), w) \<Rightarrow>
      (if ec = Eof then Some response else None, w))"

lemma proxy_exchange_fetch:
  "proxy_exchange b net h request w =
     (case proxy_request_text h request of
        Inl e \<Rightarrow> (Inl e, w)
      | Inr text \<Rightarrow>
          (case fetch net h text w of
             (None, w) \<Rightarrow> (Inr (Answer (ReturnError new_Reply)), w)
           | (Some response, w) \<Rightarrow> (proxy_response b h request response, w)))"
  by (simp add: proxy_exchange_def ResolveHost_def fetch_def split: sum.split prod.split)

lemma HandleRequest_answer:
  "proxy_exchange b net h request w = (Inr (Answer rep), w') \<Longrightarrow>
   ReverseProxyHandler_HandleRequest b net h request w = Some (Inr (Some rep), h, w')"
  by (subst ReverseProxyHandler_HandleRequest.simps) simp

lemma HandleRequest_redirect:
  "proxy_exchange b net h request w = (Inr (Redirect h' request'), w') \<Longrightarrow>
   ReverseProxyHandler_HandleRequest b net h request w =
   ReverseProxyHandler_HandleRequest b net h' request' w'"
  by (subst ReverseProxyHandler_HandleRequest.simps) simp

text \<open>A network for the examples: every connection delivers the same text.\<close>

definition constant_net :: "string \<Rightarrow> unit asio" where
  "constant_net text =
     \<lparr>asio_resolve = (\<lambda>host port w. ((if host = [] then Asio_error 1 else Success, 0), w)),
      asio_connect = (\<lambda>iter w. ((Success, 0), w)),
      asio_write = (\<lambda>socket t w. (Success, w)),
      asio_read = (\<lambda>socket w. ((Eof, text), w))\<rparr>"

lemma fetch_constant:
  "fetch (constant_net text) h t w = (if p_host_name h = [] then None else Some text, w)"
  by (simp add: fetch_def constant_net_def)

section \<open>Errors\<close>

lemma proxy_request_text_defined:
  "length (p_uri_prefix h) \<le> length (m_uri request) \<Longrightarrow> \<exists>text. proxy_request_text h request = Inr text"
  by (simp add: proxy_request_text_def ReverseProxyHandler_GetPath_def)

text \<open>
  A failing network becomes an answer: when resolving, connecting, writing or
  reading fails, the call returns a reply whose text is a complete 500 message, and the
  handler is as it was.
\<close>

theorem proxy_network_error:
  "proxy_request_text h request = Inr text \<Longrightarrow> fetch net h text w = (None, w') \<Longrightarrow>
   \<exists>r. ReverseProxyHandler_HandleRequest b net h request w = Some (Inr (Some r), h, w') \<and>
       reply_ToString r =
         Inr (head_text [''HTTP/1.1 500 '', ''Content-Type: text/plain''] @ crlf @
              ''500 Internal Server Error'' @ crlf)"
proof -
  assume "proxy_request_text h request = Inr text" and "fetch net h text w = (None, w')"
  then have "ReverseProxyHandler_HandleRequest b net h request w =
      Some (Inr (Some (ReturnError new_Reply)), h, w')"
    by (simp add: HandleRequest_answer proxy_exchange_fetch)
  moreover have "to_string 500 = ''500''" by code_simp
  ultimately show ?thesis
    by (simp add: ReturnError_def reply_ops reply_ToString_def header_text_def)
qed

lemma proxy_network_error_witness:
  "\<exists>r. ReverseProxyHandler_HandleRequest boost_model (constant_net [])
         (sample_proxy\<lparr>p_host_name := []\<rparr>) (set_uri ''/p/x'' (fresh_request [])) () =
       Some (Inr (Some r), sample_proxy\<lparr>p_host_name := []\<rparr>, ())"
proof -
  let ?h = "sample_proxy\<lparr>p_host_name := []\<rparr>" and ?r = "set_uri ''/p/x'' (fresh_request [])"
  obtain msg where "proxy_request_text ?h ?r = Inr msg"
    using proxy_request_text_defined [of ?h ?r] by (auto simp: sample_proxy_def set_uri_def)
  moreover have "fetch (constant_net []) ?h msg () = (None, ())"
    by (simp add: fetch_constant)
  ultimately show ?thesis
    using proxy_network_error [of ?h ?r msg "constant_net []" "()" "()" boost_model] by blast
qed

section \<open>Passing an answer on\<close>

lemma map_find_absent: "k \<notin> fst ` set m \<Longrightarrow> map_find m k = None"
  by (induction m k rule: map_find.induct) auto

lemma SetHeaders_no_location:
  "map_ok headers \<Longrightarrow> ''Location'' \<notin> fst ` set headers \<Longrightarrow>
   SetHeaders h rep headers request =
     Answer (case map_find headers ''Content-Type'' of
        None \<Rightarrow> rep | Some t \<Rightarrow> SetHeader ''Content-Type'' t rep)"
proof (induction h rep headers request rule: SetHeaders.induct)
  case (2 h rep k v headers request)
  have ok: "map_ok headers" and less: "\<forall>x \<in> set headers. k < fst x"
    using "2.prems" by (simp_all add: map_ok_Cons_iff)
  show ?case
  proof (cases "k = ''Content-Type''")
    case True
    have "k \<notin> fst ` set headers" using less by auto
    then have "map_find headers ''Content-Type'' = None"
      by (simp add: True map_find_absent)
    with True 2 ok show ?thesis by simp
  next
    case False
    with 2 ok show ?thesis by auto
  qed
qed simp

text \<open>
  Claim C17. A call passes on what the server said: when the connection delivers a text whose
  rewritten form is the printed form of a reply with clean headers and no \<open>Location\<close>, the
  call returns a reply with that status, that body and, of the headers, the content type
  alone.
\<close>

theorem proxy_passes_on:
  "boost_documented b \<Longrightarrow> proxy_request_text h request = Inr text \<Longrightarrow>
   fetch net h text w = (Some response, w') \<Longrightarrow>
   reply_ToString r = Inr (RedirectHTMLMaps b h response) \<Longrightarrow> clean_reply r \<Longrightarrow>
   r_status_code r = Some z \<Longrightarrow> fits_int z \<Longrightarrow> ''Location'' \<notin> fst ` set (r_headers r) \<Longrightarrow>
   ReverseProxyHandler_HandleRequest b net h request w =
     Some (Inr (Some (r\<lparr>r_headers := (case map_find (r_headers r) ''Content-Type'' of
       None \<Rightarrow> [] | Some t \<Rightarrow> [(''Content-Type'', t)])\<rparr>)), h, w')"
proof -
  assume b: "boost_documented b" and msg: "proxy_request_text h request = Inr text"
    and fetch: "fetch net h text w = (Some response, w')"
    and r: "reply_ToString r = Inr (RedirectHTMLMaps b h response)" "clean_reply r"
      "r_status_code r = Some z" "fits_int z"
    and no_loc: "''Location'' \<notin> fst ` set (r_headers r)"
  have ok: "map_ok (r_headers r)" and ver: "r_http_ver r = ''HTTP/1.1''"
    using r(2) by (simp_all add: clean_reply_def)
  have "proxy_response b h request response =
      Inr (SetHeaders h (SetBody (r_body r) (SetStatus z new_Reply)) (r_headers r) request)"
    using proxy_readers [OF b r(2,1,3,4)] by (simp add: proxy_response_def Let_def)
  also have "\<dots> = Inr (Answer (case map_find (r_headers r) ''Content-Type'' of
      None \<Rightarrow> SetBody (r_body r) (SetStatus z new_Reply)
    | Some t \<Rightarrow> SetHeader ''Content-Type'' t (SetBody (r_body r) (SetStatus z new_Reply))))"
    by (simp add: SetHeaders_no_location [OF ok no_loc])
  also have "(case map_find (r_headers r) ''Content-Type'' of
      None \<Rightarrow> SetBody (r_body r) (SetStatus z new_Reply)
    | Some t \<Rightarrow> SetHeader ''Content-Type'' t (SetBody (r_body r) (SetStatus z new_Reply))) =
    r\<lparr>r_headers := (case map_find (r_headers r) ''Content-Type'' of
      None \<Rightarrow> [] | Some t \<Rightarrow> [(''Content-Type'', t)])\<rparr>"
    using ver r(3) by (cases r) (simp add: reply_ops split: option.split)
  finally have "proxy_response b h request response =
      Inr (Answer (r\<lparr>r_headers := (case map_find (r_headers r) ''Content-Type'' of
        None \<Rightarrow> [] | Some t \<Rightarrow> [(''Content-Type'', t)])\<rparr>))" .
  then have "proxy_exchange b net h request w =
      (Inr (Answer (r\<lparr>r_headers := (case map_find (r_headers r) ''Content-Type'' of
         None \<Rightarrow> [] | Some t \<Rightarrow> [(''Content-Type'', t)])\<rparr>)), w')"
    using msg fetch by (simp add: proxy_exchange_fetch)
  then show ?thesis by (rule HandleRequest_answer)
qed

definition sample_page :: string where
  "sample_page = ''HTTP/1.1 200 OK'' @ crlf @ ''Content-Type: text/plain'' @ crlf @ ''X: y'' @ crlf @ crlf @ ''hi''"

lemma proxy_passes_on_witness:
  "ReverseProxyHandler_HandleRequest boost_model (constant_net sample_page)
     sample_proxy (set_uri ''/p/x'' (fresh_request [])) () =
   Some (Inr (Some (SetBody ''hi'' (SetHeader ''Content-Type'' ''text/plain'' (SetStatus 200 new_Reply)))),
     sample_proxy, ())"
proof -
  let ?r = "SetBody ''hi'' (SetHeader ''X'' ''y''
    (SetHeader ''Content-Type'' ''text/plain'' (SetStatus 200 new_Reply)))"
  let ?req = "set_uri ''/p/x'' (fresh_request [])"
  obtain msg where msg: "proxy_request_text sample_proxy ?req = Inr msg"
    using proxy_request_text_defined [of sample_proxy ?req] by (auto simp: sample_proxy_def set_uri_def)
  have fetch: "fetch (constant_net sample_page) sample_proxy msg () = (Some sample_page, ())"
    by (simp add: fetch_constant sample_proxy_def)
  have same: "RedirectHTMLMaps boost_model sample_proxy sample_page = sample_page"
    by code_simp
  have "to_string 200 = ''200''" by code_simp
  then have r: "reply_ToString ?r = Inr (RedirectHTMLMaps boost_model sample_proxy sample_page)"
    unfolding same by (simp add: reply_ToString_def reply_ops header_text_def sample_page_def)
  show ?thesis
    using proxy_passes_on [OF boost_model_documented msg fetch r, of 200]
    by (simp add: clean_reply_def reply_ops clean_header_def map_ok_def fits_int_def int_min_def int_max_def)
qed

section \<open>When a call returns\<close>

fun proxy_run ::
  "nat \<Rightarrow> boost_api \<Rightarrow> 'w asio \<Rightarrow> ReverseProxyHandler \<Rightarrow> Request \<Rightarrow> 'w \<Rightarrow>
   (Reply option outcome \<times> ReverseProxyHandler \<times> 'w) option" where
  "proxy_run 0 b net h request w = None"
| "proxy_run (Suc n) b net h request w =
     (case proxy_exchange b net h request w of
        (Inl e, w') \<Rightarrow> Some (Inl e, h, w')
      | (Inr (Answer rep), w') \<Rightarrow> Some (Inr (Some rep), h, w')
      | (Inr (Redirect h' request'), w') \<Rightarrow> proxy_run n b net h' request' w')"

lemma proxy_run_sound:
  "proxy_run n b net h request w = Some res \<Longrightarrow>
   ReverseProxyHandler_HandleRequest b net h request w = Some res"
proof (induction n b net h request w rule: proxy_run.induct)
  case (2 n b net h request w)
  then show ?case
    by (subst ReverseProxyHandler_HandleRequest.simps)
      (auto split: prod.splits sum.splits proxy_result.splits)
qed simp

lemma proxy_run_complete:
  assumes "ReverseProxyHandler_HandleRequest b net h request w = Some res"
  shows "\<exists>n. proxy_run n b net h request w = Some res"
proof (rule ReverseProxyHandler_HandleRequest.raw_induct [OF _ assms])
  fix handle b and net :: "'a asio" and h request w res
  assume IH: "\<And>b net h request w res. handle b net h request w = Some res \<Longrightarrow>
      \<exists>n. proxy_run n b net h request w = Some res"
    and body: "(case proxy_exchange b net h request w of
        (Inl e, w') \<Rightarrow> Some (Inl e, h, w')
      | (Inr (Answer rep), w') \<Rightarrow> Some (Inr (Some rep), h, w')
      | (Inr (Redirect h' request'), w') \<Rightarrow> handle b net h' request' w') = Some res"
  obtain out w' where ex: "proxy_exchange b net h request w = (out, w')" by fastforce
  show "\<exists>n. proxy_run n b net h request w = Some res"
  proof (cases "\<exists>h' request'. out = Inr (Redirect h' request')")
    case True
    then obtain h' request' where out: "out = Inr (Redirect h' request')" by blast
    with body ex have "handle b net h' request' w' = Some res" by simp
    from IH [OF this] obtain n where "proxy_run n b net h' request' w' = Some res" by blast
    with ex out show ?thesis by (intro exI [of _ "Suc n"]) simp
  next
    case False
    with body ex show ?thesis
      by (intro exI [of _ "Suc 0"]) (auto split: sum.splits proxy_result.splits)
  qed
qed

text \<open>
  A call of the proxy returns a result exactly when following finitely many
  redirects gives that result; the code itself has no bound.
\<close>

theorem proxy_returns_iff:
  "ReverseProxyHandler_HandleRequest b net h request w = Some res \<longleftrightarrow>
   (\<exists>n. proxy_run n b net h request w = Some res)"
  by (auto intro: proxy_run_sound proxy_run_complete)

lemma proxy_diverges:
  assumes "\<And>h request w. I h request w \<Longrightarrow>
      \<exists>h' request' w'. proxy_exchange b net h request w = (Inr (Redirect h' request'), w') \<and>
        I h' request' w'"
    and "I h request w"
  shows "ReverseProxyHandler_HandleRequest b net h request w = None"
proof -
  have "proxy_run n b net h request w = None" for n
    using assms(2)
  proof (induction n arbitrary: h request w)
    case (Suc n)
    then obtain h' request' w' where
      "proxy_exchange b net h request w = (Inr (Redirect h' request'), w')" and "I h' request' w'"
      using assms(1) by blast
    with Suc.IH show ?case by simp
  qed simp
  then have "ReverseProxyHandler_HandleRequest b net h request w \<noteq> Some res" for res
    using proxy_run_complete by fastforce
  then show ?thesis by (cases "ReverseProxyHandler_HandleRequest b net h request w") auto
qed

lemma RedirectHTMLMaps_prefix:
  "p_uri_prefix h' = p_uri_prefix h \<Longrightarrow> RedirectHTMLMaps b h' s = RedirectHTMLMaps b h s"
  by (simp add: RedirectHTMLMaps_def)

lemma SetHeaders_location:
  "''Location'' \<in> fst ` set headers \<Longrightarrow>
   \<exists>h' rest. SetHeaders h rep headers request = Redirect h' (set_uri (p_uri_prefix h @ rest) request) \<and>
     p_uri_prefix h' = p_uri_prefix h"
proof (induction h rep headers request rule: SetHeaders.induct)
  case (2 h rep k v headers request)
  obtain h' path where new: "GetNewHostAndPath h v = (h', path)" by fastforce
  show ?case
  proof (cases "k \<noteq> ''Content-Type'' \<and> k = ''Location''")
    case True
    with new GetNewHostAndPath_prefix [OF new] show ?thesis by auto
  next
    case False
    with 2 show ?thesis by (cases "k = ''Content-Type''") auto
  qed
qed simp

text \<open>
  Claim C30. A redirect loop never ends: when every connection delivers the printed form of a
  reply that has a \<open>Location\<close> header, the call does not return, for any URI under the prefix
  and whatever the location is.
\<close>

theorem redirect_loop_diverges:
  "boost_documented b \<Longrightarrow> \<forall>h text w. \<exists>w'. fetch net h text w = (Some response, w') \<Longrightarrow>
   reply_ToString r = Inr response \<Longrightarrow> RedirectHTMLMaps b h response = response \<Longrightarrow>
   clean_reply r \<Longrightarrow> r_status_code r = Some z \<Longrightarrow> fits_int z \<Longrightarrow>
   ''Location'' \<in> fst ` set (r_headers r) \<Longrightarrow> prefix (p_uri_prefix h) (m_uri request) \<Longrightarrow>
   ReverseProxyHandler_HandleRequest b net h request w = None"
proof -
  assume b: "boost_documented b" and net: "\<forall>h text w. \<exists>w'. fetch net h text w = (Some response, w')"
    and r: "reply_ToString r = Inr response" "clean_reply r" "r_status_code r = Some z" "fits_int z"
    and same: "RedirectHTMLMaps b h response = response"
    and loc: "''Location'' \<in> fst ` set (r_headers r)"
    and uri: "prefix (p_uri_prefix h) (m_uri request)"
  show ?thesis
  proof (rule proxy_diverges [where I = "\<lambda>h' request' _.
      p_uri_prefix h' = p_uri_prefix h \<and> prefix (p_uri_prefix h) (m_uri request')"])
    fix h1 :: ReverseProxyHandler and request1 :: Request and w1
    assume inv: "p_uri_prefix h1 = p_uri_prefix h \<and> prefix (p_uri_prefix h) (m_uri request1)"
    then obtain msg where msg: "proxy_request_text h1 request1 = Inr msg"
      using proxy_request_text_defined [of h1 request1] prefix_length_le by metis
    obtain w2 where fetch: "fetch net h1 msg w1 = (Some response, w2)" using net by blast
    have same1: "RedirectHTMLMaps b h1 response = response"
      using same inv RedirectHTMLMaps_prefix by metis
    have "proxy_response b h1 request1 response =
        Inr (SetHeaders h1 (SetBody (r_body r) (SetStatus z new_Reply)) (r_headers r) request1)"
      using proxy_readers [OF b r(2,1,3,4)] by (simp add: proxy_response_def Let_def same1)
    with SetHeaders_location [OF loc, of h1 "SetBody (r_body r) (SetStatus z new_Reply)" request1] inv
    show "\<exists>h' request' w'. proxy_exchange b net h1 request1 w1 = (Inr (Redirect h' request'), w') \<and>
        p_uri_prefix h' = p_uri_prefix h \<and> prefix (p_uri_prefix h) (m_uri request')"
      by (fastforce simp: proxy_exchange_fetch msg fetch set_uri_def)
  qed (use uri in simp)
qed

text \<open>A network whose every host, the empty one too, sends the same text.\<close>

definition echoing_net :: "string \<Rightarrow> unit asio" where
  "echoing_net text = (constant_net text)\<lparr>asio_resolve := (\<lambda>host port w. ((Success, 0), w))\<rparr>"

definition moved_page :: string where
  "moved_page = ''HTTP/1.1 301 Moved Permanently'' @ crlf @ ''Location: http://a/'' @ crlf @ crlf"

lemma redirect_loop_diverges_witness:
  "ReverseProxyHandler_HandleRequest boost_model (echoing_net moved_page) sample_proxy
     (set_uri ''/p/x'' (fresh_request [])) () = None"
proof -
  let ?r = "SetHeader ''Location'' ''http://a/'' (SetStatus 301 new_Reply)"
  have net: "\<forall>h text w. \<exists>w'. fetch (echoing_net moved_page) h text w = (Some moved_page, w')"
    by (simp add: fetch_def echoing_net_def constant_net_def)
  have "to_string 301 = ''301''" by code_simp
  then have r: "reply_ToString ?r = Inr moved_page"
    by (simp add: reply_ToString_def reply_ops header_text_def moved_page_def)
  have same: "RedirectHTMLMaps boost_model sample_proxy moved_page = moved_page"
    by code_simp
  show ?thesis
    using redirect_loop_diverges [OF boost_model_documented net r same, of 301]
    by (simp add: clean_reply_def reply_ops clean_header_def map_ok_def fits_int_def int_min_def
        int_max_def sample_proxy_def set_uri_def)
qed

section \<open>The contract\<close>

lemma proxy_response_status:
  "proxy_response b h request resp = Inr (Answer rep) \<Longrightarrow> r_status_code rep \<noteq> None"
proof -
  have "SetHeaders h rep0 headers req = Answer rep \<Longrightarrow> r_status_code rep = r_status_code rep0"
    for h rep0 headers req
    by (induction h rep0 headers req rule: SetHeaders.induct)
      (auto simp: SetHeader_def split: if_splits prod.splits)
  then show "proxy_response b h request resp = Inr (Answer rep) \<Longrightarrow> ?thesis"
    by (auto simp: proxy_response_def Let_def obind_Inr_iff SetBody_def SetStatus_def)
qed

lemma proxy_run_status:
  "proxy_run n b net h request w = Some (Inr (Some rep), h', w') \<Longrightarrow> r_status_code rep \<noteq> None"
proof (induction n b net h request w rule: proxy_run.induct)
  case (2 n b net h request w)
  then show ?case
    by (auto simp: proxy_exchange_fetch ReturnError_def reply_ops dest: proxy_response_status
        split: sum.splits prod.splits option.splits proxy_result.splits)
qed simp

text \<open>A call that does not return answers nothing.\<close>

interpretation proxy: request_handler
  "\<lambda>request. case ReverseProxyHandler_HandleRequest b net h request w of
     None \<Rightarrow> Inr None | Some (r, _) \<Rightarrow> r"
  by unfold_locales
    (auto dest!: proxy_run_complete proxy_run_status split: option.splits)

declare proxy.answered [handler_laws]

end
