(* ===== verification/Sqlite_Codes.thy ===== *)
theory Sqlite_Codes
  imports Prelude
begin

text \<open>
  The result codes of \<open>include/sqlite3.h\<close>: the primary codes, one constant per \<open>#define\<close>, and
  the extended codes, which put a number above the low eight bits of a primary one. The
  lemmas show what \<open>src/database.cc\<close> needs of them when it compares a code to \<open>SQLITE_OK\<close>,
  \<open>SQLITE_ROW\<close> or \<open>SQLITE_DONE\<close>: no two codes are equal, and an extended code is never
  taken for one of the three.
\<close>

unbundle bit_operations_syntax

section \<open>Primary codes\<close>

definition SQLITE_OK :: int where "SQLITE_OK = 0"
definition SQLITE_ERROR :: int where "SQLITE_ERROR = 1"
definition SQLITE_INTERNAL :: int where "SQLITE_INTERNAL = 2"
definition SQLITE_PERM :: int where "SQLITE_PERM = 3"
definition SQLITE_ABORT :: int where "SQLITE_ABORT = 4"
definition SQLITE_BUSY :: int where "SQLITE_BUSY = 5"
definition SQLITE_LOCKED :: int where "SQLITE_LOCKED = 6"
definition SQLITE_NOMEM :: int where "SQLITE_NOMEM = 7"
definition SQLITE_READONLY :: int where "SQLITE_READONLY = 8"
definition SQLITE_INTERRUPT :: int where "SQLITE_INTERRUPT = 9"
definition SQLITE_IOERR :: int where "SQLITE_IOERR = 10"
definition SQLITE_CORRUPT :: int where "SQLITE_CORRUPT = 11"
definition SQLITE_NOTFOUND :: int where "SQLITE_NOTFOUND = 12"
definition SQLITE_FULL :: int where "SQLITE_FULL = 13"
definition SQLITE_CANTOPEN :: int where "SQLITE_CANTOPEN = 14"
definition SQLITE_PROTOCOL :: int where "SQLITE_PROTOCOL = 15"
definition SQLITE_EMPTY :: int where "SQLITE_EMPTY = 16"
definition SQLITE_SCHEMA :: int where "SQLITE_SCHEMA = 17"
definition SQLITE_TOOBIG :: int where "SQLITE_TOOBIG = 18"
definition SQLITE_CONSTRAINT :: int where "SQLITE_CONSTRAINT = 19"
definition SQLITE_MISMATCH :: int where "SQLITE_MISMATCH = 20"
definition SQLITE_MISUSE :: int where "SQLITE_MISUSE = 21"
definition SQLITE_NOLFS :: int where "SQLITE_NOLFS = 22"
definition SQLITE_AUTH :: int where "SQLITE_AUTH = 23"
definition SQLITE_FORMAT :: int where "SQLITE_FORMAT = 24"
definition SQLITE_RANGE :: int where "SQLITE_RANGE = 25"
definition SQLITE_NOTADB :: int where "SQLITE_NOTADB = 26"
definition SQLITE_NOTICE :: int where "SQLITE_NOTICE = 27"
definition SQLITE_WARNING :: int where "SQLITE_WARNING = 28"
definition SQLITE_ROW :: int where "SQLITE_ROW = 100"
definition SQLITE_DONE :: int where "SQLITE_DONE = 101"

lemmas primary_code_defs =
  SQLITE_OK_def SQLITE_ERROR_def SQLITE_INTERNAL_def SQLITE_PERM_def SQLITE_ABORT_def
  SQLITE_BUSY_def SQLITE_LOCKED_def SQLITE_NOMEM_def SQLITE_READONLY_def SQLITE_INTERRUPT_def
  SQLITE_IOERR_def SQLITE_CORRUPT_def SQLITE_NOTFOUND_def SQLITE_FULL_def SQLITE_CANTOPEN_def
  SQLITE_PROTOCOL_def SQLITE_EMPTY_def SQLITE_SCHEMA_def SQLITE_TOOBIG_def SQLITE_CONSTRAINT_def
  SQLITE_MISMATCH_def SQLITE_MISUSE_def SQLITE_NOLFS_def SQLITE_AUTH_def SQLITE_FORMAT_def
  SQLITE_RANGE_def SQLITE_NOTADB_def SQLITE_NOTICE_def SQLITE_WARNING_def SQLITE_ROW_def
  SQLITE_DONE_def

definition result_codes :: "int list" where
  "result_codes =
    [SQLITE_OK, SQLITE_ERROR, SQLITE_INTERNAL, SQLITE_PERM, SQLITE_ABORT, SQLITE_BUSY,
     SQLITE_LOCKED, SQLITE_NOMEM, SQLITE_READONLY, SQLITE_INTERRUPT, SQLITE_IOERR,
     SQLITE_CORRUPT, SQLITE_NOTFOUND, SQLITE_FULL, SQLITE_CANTOPEN, SQLITE_PROTOCOL,
     SQLITE_EMPTY, SQLITE_SCHEMA, SQLITE_TOOBIG, SQLITE_CONSTRAINT, SQLITE_MISMATCH,
     SQLITE_MISUSE, SQLITE_NOLFS, SQLITE_AUTH, SQLITE_FORMAT, SQLITE_RANGE, SQLITE_NOTADB,
     SQLITE_NOTICE, SQLITE_WARNING, SQLITE_ROW, SQLITE_DONE]"

section \<open>Extended codes\<close>

text \<open>Each \<open>#define\<close> of the header is an entry, by its name and in its order.\<close>

definition extended_result_codes :: "(string \<times> int) list" where
  "extended_result_codes =
    [(''SQLITE_ERROR_MISSING_COLLSEQ'', SQLITE_ERROR OR push_bit 8 1),
     (''SQLITE_ERROR_RETRY'', SQLITE_ERROR OR push_bit 8 2),
     (''SQLITE_IOERR_READ'', SQLITE_IOERR OR push_bit 8 1),
     (''SQLITE_IOERR_SHORT_READ'', SQLITE_IOERR OR push_bit 8 2),
     (''SQLITE_IOERR_WRITE'', SQLITE_IOERR OR push_bit 8 3),
     (''SQLITE_IOERR_FSYNC'', SQLITE_IOERR OR push_bit 8 4),
     (''SQLITE_IOERR_DIR_FSYNC'', SQLITE_IOERR OR push_bit 8 5),
     (''SQLITE_IOERR_TRUNCATE'', SQLITE_IOERR OR push_bit 8 6),
     (''SQLITE_IOERR_FSTAT'', SQLITE_IOERR OR push_bit 8 7),
     (''SQLITE_IOERR_UNLOCK'', SQLITE_IOERR OR push_bit 8 8),
     (''SQLITE_IOERR_RDLOCK'', SQLITE_IOERR OR push_bit 8 9),
     (''SQLITE_IOERR_DELETE'', SQLITE_IOERR OR push_bit 8 10),
     (''SQLITE_IOERR_BLOCKED'', SQLITE_IOERR OR push_bit 8 11),
     (''SQLITE_IOERR_NOMEM'', SQLITE_IOERR OR push_bit 8 12),
     (''SQLITE_IOERR_ACCESS'', SQLITE_IOERR OR push_bit 8 13),
     (''SQLITE_IOERR_CHECKRESERVEDLOCK'', SQLITE_IOERR OR push_bit 8 14),
     (''SQLITE_IOERR_LOCK'', SQLITE_IOERR OR push_bit 8 15),
     (''SQLITE_IOERR_CLOSE'', SQLITE_IOERR OR push_bit 8 16),
     (''SQLITE_IOERR_DIR_CLOSE'', SQLITE_IOERR OR push_bit 8 17),
     (''SQLITE_IOERR_SHMOPEN'', SQLITE_IOERR OR push_bit 8 18),
     (''SQLITE_IOERR_SHMSIZE'', SQLITE_IOERR OR push_bit 8 19),
     (''SQLITE_IOERR_SHMLOCK'', SQLITE_IOERR OR push_bit 8 20),
     (''SQLITE_IOERR_SHMMAP'', SQLITE_IOERR OR push_bit 8 21),
     (''SQLITE_IOERR_SEEK'', SQLITE_IOERR OR push_bit 8 22),
     (''SQLITE_IOERR_DELETE_NOENT'', SQLITE_IOERR OR push_bit 8 23),
     (''SQLITE_IOERR_MMAP'', SQLITE_IOERR OR push_bit 8 24),
     (''SQLITE_IOERR_GETTEMPPATH'', SQLITE_IOERR OR push_bit 8 25),
     (''SQLITE_IOERR_CONVPATH'', SQLITE_IOERR OR push_bit 8 26),
     (''SQLITE_IOERR_VNODE'', SQLITE_IOERR OR push_bit 8 27),
     (''SQLITE_IOERR_AUTH'', SQLITE_IOERR OR push_bit 8 28),
     (''SQLITE_IOERR_BEGIN_ATOMIC'', SQLITE_IOERR OR push_bit 8 29),
     (''SQLITE_IOERR_COMMIT_ATOMIC'', SQLITE_IOERR OR push_bit 8 30),
     (''SQLITE_IOERR_ROLLBACK_ATOMIC'', SQLITE_IOERR OR push_bit 8 31),
     (''SQLITE_LOCKED_SHAREDCACHE'', SQLITE_LOCKED OR push_bit 8 1),
     (''SQLITE_BUSY_RECOVERY'', SQLITE_BUSY OR push_bit 8 1),
     (''SQLITE_BUSY_SNAPSHOT'', SQLITE_BUSY OR push_bit 8 2),
     (''SQLITE_CANTOPEN_NOTEMPDIR'', SQLITE_CANTOPEN OR push_bit 8 1),
     (''SQLITE_CANTOPEN_ISDIR'', SQLITE_CANTOPEN OR push_bit 8 2),
     (''SQLITE_CANTOPEN_FULLPATH'', SQLITE_CANTOPEN OR push_bit 8 3),
     (''SQLITE_CANTOPEN_CONVPATH'', SQLITE_CANTOPEN OR push_bit 8 4),
     (''SQLITE_CORRUPT_VTAB'', SQLITE_CORRUPT OR push_bit 8 1),
     (''SQLITE_READONLY_RECOVERY'', SQLITE_READONLY OR push_bit 8 1),
     (''SQLITE_READONLY_CANTLOCK'', SQLITE_READONLY OR push_bit 8 2),
     (''SQLITE_READONLY_ROLLBACK'', SQLITE_READONLY OR push_bit 8 3),
     (''SQLITE_READONLY_DBMOVED'', SQLITE_READONLY OR push_bit 8 4),
     (''SQLITE_READONLY_CANTINIT'', SQLITE_READONLY OR push_bit 8 5),
     (''SQLITE_READONLY_DIRECTORY'', SQLITE_READONLY OR push_bit 8 6),
     (''SQLITE_ABORT_ROLLBACK'', SQLITE_ABORT OR push_bit 8 2),
     (''SQLITE_CONSTRAINT_CHECK'', SQLITE_CONSTRAINT OR push_bit 8 1),
     (''SQLITE_CONSTRAINT_COMMITHOOK'', SQLITE_CONSTRAINT OR push_bit 8 2),
     (''SQLITE_CONSTRAINT_FOREIGNKEY'', SQLITE_CONSTRAINT OR push_bit 8 3),
     (''SQLITE_CONSTRAINT_FUNCTION'', SQLITE_CONSTRAINT OR push_bit 8 4),
     (''SQLITE_CONSTRAINT_NOTNULL'', SQLITE_CONSTRAINT OR push_bit 8 5),
     (''SQLITE_CONSTRAINT_PRIMARYKEY'', SQLITE_CONSTRAINT OR push_bit 8 6),
     (''SQLITE_CONSTRAINT_TRIGGER'', SQLITE_CONSTRAINT OR push_bit 8 7),
     (''SQLITE_CONSTRAINT_UNIQUE'', SQLITE_CONSTRAINT OR push_bit 8 8),
     (''SQLITE_CONSTRAINT_VTAB'', SQLITE_CONSTRAINT OR push_bit 8 9),
     (''SQLITE_CONSTRAINT_ROWID'', SQLITE_CONSTRAINT OR push_bit 8 10),
     (''SQLITE_NOTICE_RECOVER_WAL'', SQLITE_NOTICE OR push_bit 8 1),
     (''SQLITE_NOTICE_RECOVER_ROLLBACK'', SQLITE_NOTICE OR push_bit 8 2),
     (''SQLITE_WARNING_AUTOINDEX'', SQLITE_WARNING OR push_bit 8 1),
     (''SQLITE_AUTH_USER'', SQLITE_AUTH OR push_bit 8 1),
     (''SQLITE_OK_LOAD_PERMANENTLY'', SQLITE_OK OR push_bit 8 1)]"

section \<open>The codes are told apart\<close>

lemmas code_table_defs = result_codes_def extended_result_codes_def primary_code_defs

lemma extended_split:
  fixes p k :: int
  assumes "0 \<le> p" "p < 256"
  shows "(p OR push_bit 8 k) AND 255 = p" and "drop_bit 8 (p OR push_bit 8 k) = k"
proof -
  have "take_bit 8 p = p" using assms by (simp add: take_bit_int_eq_self)
  moreover have "drop_bit 8 p = 0" using assms by (simp add: drop_bit_eq_div)
  moreover have "x AND 255 = take_bit 8 x" for x :: int
    by (simp add: take_bit_eq_mask mask_eq_exp_minus_1)
  ultimately show "(p OR push_bit 8 k) AND 255 = p" and "drop_bit 8 (p OR push_bit 8 k) = k"
    by (simp_all add: drop_bit_push_bit take_bit_push_bit)
qed

lemma result_codes_byte: "\<forall>c \<in> set result_codes. 0 \<le> c \<and> c < 256"
  by (simp add: code_table_defs)

lemma result_codes_distinct: "distinct result_codes"
  by (simp add: code_table_defs)

lemma extended_of_primary:
  "list_all (\<lambda>(name, c). c AND 255 \<in> set result_codes \<and> 0 < drop_bit 8 c) extended_result_codes"
  by code_simp

lemma extended_distinct: "distinct (map snd extended_result_codes)"
  by code_simp

lemma extended_not_primary:
  assumes "(name, c) \<in> set extended_result_codes"
  shows "c \<notin> set result_codes"
proof
  assume "c \<in> set result_codes"
  with result_codes_byte have "drop_bit 8 c = 0" by (auto simp: drop_bit_eq_div)
  with extended_of_primary assms show False by (auto simp: list_all_iff)
qed

text \<open>The tests of the database on the code of a call therefore see an extended code as a failure.\<close>

lemma extended_is_failure:
  assumes "(name, c) \<in> set extended_result_codes"
  shows "c \<noteq> SQLITE_OK" "c \<noteq> SQLITE_ROW" "c \<noteq> SQLITE_DONE"
  using extended_not_primary [OF assms] by (auto simp: result_codes_def)

end
