(* ===== verification/Sqlite_Api.thy ===== *)
theory Sqlite_Api
  imports Cpp_String Sqlite_Codes "HOL-Library.AList"
begin

text \<open>
  SQLite as the server uses it. The library is a binary archive, so its functions are a
  parameter, \<open>sqlite_api\<close>, over a type of world states. A \<open>sqlite_view\<close> reads from a world
  what the documentation (the comments of \<open>include/sqlite3.h\<close>) talks about: the rows of the
  table MEMES, the prepared statements with their bindings and pending rows, and the open
  connections. \<open>sqlite_documented\<close> states the documented effect of every call on that view for
  the statements of \<open>src/database.cc\<close>; every call may fail, and then changes nothing. It is a
  hypothesis of the theorems on the database. \<open>mem_api\<close> is an instance in memory that
  satisfies it.
\<close>

section \<open>The functions\<close>

lemmas sqlite_codes = SQLITE_OK_def SQLITE_BUSY_def SQLITE_ROW_def SQLITE_DONE_def

text \<open>A row as the callback of \<open>sqlite3_exec\<close> gets it: one text per column, or a null pointer.\<close>

type_synonym sql_row = "string option list"

record 'w sqlite_api =
  sqlite3_open :: "string \<Rightarrow> 'w \<Rightarrow> (int \<times> nat) \<times> 'w"
  sqlite3_close :: "nat \<Rightarrow> 'w \<Rightarrow> int \<times> 'w"
  sqlite3_exec :: "nat \<Rightarrow> string \<Rightarrow> 'w \<Rightarrow> (int \<times> sql_row list) \<times> 'w"
    \<comment> \<open>the code and the rows the callback was called for\<close>
  sqlite3_prepare_v2 :: "nat \<Rightarrow> string \<Rightarrow> 'w \<Rightarrow> (int \<times> nat) \<times> 'w"
  sqlite3_bind_int :: "nat \<Rightarrow> nat \<Rightarrow> int \<Rightarrow> 'w \<Rightarrow> int \<times> 'w"
  sqlite3_bind_text :: "nat \<Rightarrow> nat \<Rightarrow> string \<Rightarrow> 'w \<Rightarrow> int \<times> 'w"
  sqlite3_step :: "nat \<Rightarrow> 'w \<Rightarrow> int \<times> 'w"
  sqlite3_column_int :: "nat \<Rightarrow> nat \<Rightarrow> 'w \<Rightarrow> int"
  sqlite3_column_text :: "nat \<Rightarrow> nat \<Rightarrow> 'w \<Rightarrow> string option"
  sqlite3_last_insert_rowid :: "nat \<Rightarrow> 'w \<Rightarrow> int"
  sqlite3_finalize :: "nat \<Rightarrow> 'w \<Rightarrow> int \<times> 'w"

section \<open>The statements of the server\<close>

definition drop_sql :: string where
  "drop_sql = ''DROP TABLE IF EXISTS MEMES;''"

definition check_sql :: string where
  "check_sql = ''SELECT name '' @ ''FROM   sqlite_master '' @ ''WHERE  type='' @ [CHR 0x27] @ ''table'' @
     [CHR 0x27] @ ''AND    name='' @ [CHR 0x27] @ ''MEMES'' @ [CHR 0x27] @ '';''"

definition create_sql :: string where
  "create_sql = ''CREATE TABLE MEMES('' @ ''TEMPLATE_ID  INT NOT NULL,'' @
     ''TOP_TEXT     VARCHAR(255),'' @ ''BOTTOM_TEXT  VARCHAR(255));''"

definition select_id_sql :: "int \<Rightarrow> string" where
  "select_id_sql k = ''SELECT rowid, * FROM MEMES '' @ ''WHERE rowid = '' @ to_string k @ '';''"

definition select_all_sql :: string where
  "select_all_sql = ''SELECT rowid, * FROM MEMES;''"

definition insert_sql :: string where
  "insert_sql = ''INSERT INTO MEMES VALUES(?,?,?);''"

definition delete_sql :: string where
  "delete_sql = ''DELETE FROM MEMES WHERE ROWID = ?''"

definition select_like_sql :: string where
  "select_like_sql = ''SELECT rowid, * FROM MEMES '' @ ''WHERE TOP_TEXT LIKE ? '' @
     ''OR BOTTOM_TEXT LIKE ?''"

definition update_sql :: string where
  "update_sql = ''UPDATE MEMES SET '' @ ''TEMPLATE_ID = ?, '' @ ''TOP_TEXT = ?, '' @
     ''BOTTOM_TEXT = ? '' @ ''WHERE ROWID = ?;''"

lemmas sql_texts = drop_sql_def check_sql_def create_sql_def select_id_sql_def select_all_sql_def
  insert_sql_def delete_sql_def select_like_sql_def update_sql_def

section \<open>What the documentation talks about\<close>

text \<open>A row of MEMES: the template and the two texts, which the schema allows to be NULL.\<close>

type_synonym meme_row = "int \<times> string option \<times> string option"
type_synonym meme_table = "int \<rightharpoonup> meme_row"

datatype sql_value = Sql_int int | Sql_text string

record prepared =
  p_db :: nat
  p_sql :: string
  p_binds :: "nat \<rightharpoonup> sql_value"
  p_pending :: "(int \<times> meme_row) list option"  \<comment> \<open>the rows still to come, once it was stepped\<close>
  p_current :: "(int \<times> meme_row) option"

record 'w sqlite_view =
  v_table :: "'w \<Rightarrow> meme_table option"
  v_stmt :: "'w \<Rightarrow> nat \<Rightarrow> prepared option"
  v_open :: "'w \<Rightarrow> nat set"

text \<open>A query delivers the selected rows once each, in an order that is not specified.\<close>

definition table_rows :: "meme_table \<Rightarrow> (int \<Rightarrow> meme_row \<Rightarrow> bool) \<Rightarrow> (int \<times> meme_row) list \<Rightarrow> bool" where
  "table_rows t sel rs \<longleftrightarrow> distinct (map fst rs) \<and> set rs = {(i, r). t i = Some r \<and> sel i r}"

fun argv_of :: "int \<times> meme_row \<Rightarrow> sql_row" where
  "argv_of (i, (t, a, b)) = [Some (to_string i), Some (to_string t), a, b]"

text \<open>\<open>X LIKE P\<close> on text: \<open>%\<close> is any text, \<open>_\<close> any character, letters match up to case.\<close>

fun sql_like :: "string \<Rightarrow> string \<Rightarrow> bool" where
  "sql_like [] t = (t = [])"
| "sql_like (p # ps) [] = (p = CHR ''%'' \<and> sql_like ps [])"
| "sql_like (p # ps) (c # cs) =
     (if p = CHR ''%'' then sql_like ps (c # cs) \<or> sql_like (p # ps) cs
      else (p = CHR ''_'' \<or> to_lower p = to_lower c) \<and> sql_like ps cs)"

definition like_text :: "string \<Rightarrow> string option \<Rightarrow> bool" where
  "like_text p t = (case t of None \<Rightarrow> False | Some s \<Rightarrow> sql_like p s)"

definition like_row :: "string \<Rightarrow> string \<Rightarrow> int \<Rightarrow> meme_row \<Rightarrow> bool" where
  "like_row x y i r \<longleftrightarrow> like_text x (fst (snd r)) \<or> like_text y (snd (snd r))"

section \<open>The documented behaviour\<close>

definition open_doc :: "'w sqlite_api \<Rightarrow> 'w sqlite_view \<Rightarrow> bool" where
  "open_doc q v \<longleftrightarrow> (\<forall>name w rc db w'. sqlite3_open q name w = ((rc, db), w') \<longrightarrow>
     v_table v w' = v_table v w \<and> v_stmt v w' = v_stmt v w \<and>
     (rc = SQLITE_OK \<longrightarrow> db \<notin> v_open v w \<and> v_open v w' = insert db (v_open v w) \<and>
        (\<forall>st p. v_stmt v w st = Some p \<longrightarrow> p_db p \<noteq> db)))"

text \<open>A connection with unfinalized statements stays open.\<close>

definition close_doc :: "'w sqlite_api \<Rightarrow> 'w sqlite_view \<Rightarrow> bool" where
  "close_doc q v \<longleftrightarrow> (\<forall>db w rc w'. sqlite3_close q db w = (rc, w') \<longrightarrow> db \<in> v_open v w \<longrightarrow>
     v_table v w' = v_table v w \<and> v_stmt v w' = v_stmt v w \<and>
     (if \<exists>st p. v_stmt v w st = Some p \<and> p_db p = db
      then rc = SQLITE_BUSY \<and> v_open v w' = v_open v w
      else rc = SQLITE_OK \<and> v_open v w' = v_open v w - {db}))"

text \<open>An error ends a query early; the callback has then seen some of the rows.\<close>

definition exec_doc :: "'w sqlite_api \<Rightarrow> 'w sqlite_view \<Rightarrow> bool" where
  "exec_doc q v \<longleftrightarrow> (\<forall>db sql w rc rows w'. sqlite3_exec q db sql w = ((rc, rows), w') \<longrightarrow>
     db \<in> v_open v w \<longrightarrow>
     v_stmt v w' = v_stmt v w \<and> v_open v w' = v_open v w \<and>
     (sql = drop_sql \<longrightarrow> v_table v w' = (if rc = SQLITE_OK then None else v_table v w)) \<and>
     (sql = check_sql \<longrightarrow> v_table v w' = v_table v w \<and>
        (rows \<noteq> [] \<longrightarrow> v_table v w \<noteq> None) \<and> (rc = SQLITE_OK \<longrightarrow> rows = [] \<longrightarrow> v_table v w = None)) \<and>
     (sql = create_sql \<longrightarrow>
        (if rc = SQLITE_OK then v_table v w = None \<and> v_table v w' = Some Map.empty
         else v_table v w' = v_table v w)) \<and>
     (sql = select_all_sql \<longrightarrow> v_table v w' = v_table v w \<and>
        (rows = [] \<and> rc \<noteq> SQLITE_OK \<or> (\<exists>t rs n. v_table v w = Some t \<and> table_rows t (\<lambda>_ _. True) rs \<and>
           rows = map argv_of (take n rs) \<and> (rc = SQLITE_OK \<longrightarrow> rows = map argv_of rs)))) \<and>
     (\<forall>id. sql = select_id_sql id \<longrightarrow> v_table v w' = v_table v w \<and>
        (rows = [] \<and> rc \<noteq> SQLITE_OK \<or> (\<exists>t. v_table v w = Some t \<and>
           rows = (case t id of None \<Rightarrow> [] | Some r \<Rightarrow> [argv_of (id, r)])))))"

definition prepare_doc :: "'w sqlite_api \<Rightarrow> 'w sqlite_view \<Rightarrow> bool" where
  "prepare_doc q v \<longleftrightarrow> (\<forall>db sql w rc st w'. sqlite3_prepare_v2 q db sql w = ((rc, st), w') \<longrightarrow>
     v_table v w' = v_table v w \<and> v_open v w' = v_open v w \<and>
     (if rc = SQLITE_OK
      then v_stmt v w st = None \<and>
        v_stmt v w' = (v_stmt v w)(st \<mapsto> \<lparr>p_db = db, p_sql = sql, p_binds = Map.empty,
          p_pending = None, p_current = None\<rparr>)
      else v_stmt v w' = v_stmt v w))"

definition bound :: "'w sqlite_view \<Rightarrow> nat \<Rightarrow> nat \<Rightarrow> sql_value \<Rightarrow> 'w \<Rightarrow> int \<times> 'w \<Rightarrow> bool" where
  "bound v st i x w res \<longleftrightarrow> (\<forall>p rc w'. res = (rc, w') \<longrightarrow> v_stmt v w st = Some p \<longrightarrow>
     v_table v w' = v_table v w \<and> v_open v w' = v_open v w \<and>
     v_stmt v w' = (if rc = SQLITE_OK
       then (v_stmt v w)(st \<mapsto> p\<lparr>p_binds := (p_binds p)(i \<mapsto> x)\<rparr>) else v_stmt v w))"

definition bind_doc :: "'w sqlite_api \<Rightarrow> 'w sqlite_view \<Rightarrow> bool" where
  "bind_doc q v \<longleftrightarrow>
     (\<forall>st i n w. bound v st i (Sql_int n) w (sqlite3_bind_int q st i n w)) \<and>
     (\<forall>st i t w. bound v st i (Sql_text t) w (sqlite3_bind_text q st i t w))"

text \<open>A new row gets a rowid that is not in use: one more than the largest, or 1.\<close>

definition new_rowid :: "meme_table \<Rightarrow> int \<Rightarrow> bool" where
  "new_rowid t i \<longleftrightarrow> t i = None \<and>
     ((\<forall>j \<in> dom t. j < 2 ^ 63 - 1) \<longrightarrow> i = (if dom t = {} then 1 else Max (dom t) + 1))"

definition update_row :: "int \<Rightarrow> meme_row \<Rightarrow> meme_table \<Rightarrow> meme_table" where
  "update_row i r t = (case t i of None \<Rightarrow> t | Some _ \<Rightarrow> t(i \<mapsto> r))"

definition pending_rows :: "'w sqlite_view \<Rightarrow> 'w \<Rightarrow> prepared \<Rightarrow> (int \<times> meme_row) list \<Rightarrow> bool" where
  "pending_rows v w p rs \<longleftrightarrow> (case p_pending p of
      Some ps \<Rightarrow> rs = ps
    | None \<Rightarrow> \<exists>t x y. v_table v w = Some t \<and> p_binds p 1 = Some (Sql_text x) \<and>
        p_binds p 2 = Some (Sql_text y) \<and> table_rows t (like_row x y) rs)"

definition step_doc :: "'w sqlite_api \<Rightarrow> 'w sqlite_view \<Rightarrow> bool" where
  "step_doc q v \<longleftrightarrow> (\<forall>st p w rc w'. sqlite3_step q st w = (rc, w') \<longrightarrow> v_stmt v w st = Some p \<longrightarrow>
     v_open v w' = v_open v w \<and>
     (\<forall>a b c. p_sql p = insert_sql \<longrightarrow> p_binds p 1 = Some (Sql_int a) \<longrightarrow>
        p_binds p 2 = Some (Sql_text b) \<longrightarrow> p_binds p 3 = Some (Sql_text c) \<longrightarrow>
        v_stmt v w' = v_stmt v w \<and>
        (if rc = SQLITE_DONE
         then \<exists>t i. v_table v w = Some t \<and> new_rowid t i \<and>
           v_table v w' = Some (t(i \<mapsto> (a, Some b, Some c))) \<and>
           sqlite3_last_insert_rowid q (p_db p) w' = i
         else v_table v w' = v_table v w)) \<and>
     (\<forall>i. p_sql p = delete_sql \<longrightarrow> p_binds p 1 = Some (Sql_int i) \<longrightarrow>
        v_stmt v w' = v_stmt v w \<and>
        v_table v w' = (if rc = SQLITE_DONE then map_option (\<lambda>t. t(i := None)) (v_table v w)
                        else v_table v w)) \<and>
     (\<forall>i a b c. p_sql p = update_sql \<longrightarrow> p_binds p 4 = Some (Sql_int i) \<longrightarrow>
        p_binds p 1 = Some (Sql_int a) \<longrightarrow> p_binds p 2 = Some (Sql_text b) \<longrightarrow>
        p_binds p 3 = Some (Sql_text c) \<longrightarrow>
        v_stmt v w' = v_stmt v w \<and>
        v_table v w' = (if rc = SQLITE_DONE
          then map_option (update_row i (a, Some b, Some c)) (v_table v w) else v_table v w)) \<and>
     (p_sql p = select_like_sql \<longrightarrow>
        v_table v w' = v_table v w \<and>
        (if rc = SQLITE_ROW
         then \<exists>r rs. pending_rows v w p (r # rs) \<and>
           v_stmt v w' = (v_stmt v w)(st \<mapsto> p\<lparr>p_pending := Some rs, p_current := Some r\<rparr>)
         else v_stmt v w' = v_stmt v w \<and> (rc = SQLITE_DONE \<longrightarrow> pending_rows v w p []))))"

definition column_doc :: "'w sqlite_api \<Rightarrow> 'w sqlite_view \<Rightarrow> bool" where
  "column_doc q v \<longleftrightarrow> (\<forall>st p w i t a b. v_stmt v w st = Some p \<longrightarrow> p_current p = Some (i, (t, a, b)) \<longrightarrow>
     sqlite3_column_int q st 0 w = signed_take_bit 31 i \<and>
     sqlite3_column_int q st 1 w = signed_take_bit 31 t \<and>
     sqlite3_column_text q st 2 w = a \<and> sqlite3_column_text q st 3 w = b)"

definition finalize_doc :: "'w sqlite_api \<Rightarrow> 'w sqlite_view \<Rightarrow> bool" where
  "finalize_doc q v \<longleftrightarrow> (\<forall>st w rc w'. sqlite3_finalize q st w = (rc, w') \<longrightarrow>
     v_table v w' = v_table v w \<and> v_open v w' = v_open v w \<and>
     v_stmt v w' = (v_stmt v w)(st := None))"

definition sqlite_documented :: "'w sqlite_api \<Rightarrow> 'w sqlite_view \<Rightarrow> bool" where
  "sqlite_documented q v \<longleftrightarrow> open_doc q v \<and> close_doc q v \<and> exec_doc q v \<and> prepare_doc q v \<and>
     bind_doc q v \<and> step_doc q v \<and> column_doc q v \<and> finalize_doc q v"

end
