(* ===== verification/Database.thy ===== *)
theory Database
  imports Sqlite_Api
begin

text \<open>
  The store of memes: \<open>src/database.cc\<close>, \<open>include/database.h\<close> and \<open>include/meme.h\<close>. Every
  operation opens the database file, runs one statement and closes the file again; the SQLite
  functions are the parameter \<open>q\<close>, and the world is passed through all calls. The return codes
  the code looks at are looked at here, in the same order, with the same early returns.
\<close>

section \<open>Memes\<close>

text \<open>The class has operations only: all it knows is in the file.\<close>

datatype Database = New_Database

record Meme =
  meme_id :: uint32_t
  template_id :: uint32_t
  top_text :: string
  bottom_text :: string

definition Meme_toString :: "Meme \<Rightarrow> string" where
  "Meme_toString m = ''meme => {meme_id: '' @ to_string (uint (meme_id m)) @ '', '' @
     ''template_id: '' @ to_string (uint (template_id m)) @ '', '' @
     ''top_text: '' @ top_text m @ '', '' @ ''bottom_text: '' @ bottom_text m @ ''}''"

text \<open>A \<open>Meme\<close> that is only declared: its numbers are whatever the stack holds.\<close>

definition declared_Meme :: "uint32_t \<times> uint32_t \<Rightarrow> Meme" where
  "declared_Meme stack =
     \<lparr>meme_id = fst stack, template_id = snd stack, top_text = [], bottom_text = []\<rparr>"

text \<open>
  Reading \<open>argv[i]\<close> as a string: a null pointer and an index past the last column are faults.
\<close>

definition argv_at :: "sql_row \<Rightarrow> nat \<Rightarrow> string outcome" where
  "argv_at argv i =
     (if i < length argv then (case argv ! i of None \<Rightarrow> Inl Null_dereference | Some s \<Rightarrow> Inr s)
      else Inl Bad_index)"

definition callback :: "sql_row \<Rightarrow> int \<Rightarrow> int" where
  "callback argv exists = 1"

lemma callback_called [simp]: "fold callback rows 0 \<noteq> 0 \<longleftrightarrow> rows \<noteq> []"
  by (induction rows rule: rev_induct) (simp_all add: callback_def)

definition callback_GetMeme :: "Meme \<Rightarrow> sql_row \<Rightarrow> Meme outcome" where
  "callback_GetMeme meme argv =
     obind (obind (argv_at argv 0) stoi) (\<lambda>i.
     obind (obind (argv_at argv 1) stoi) (\<lambda>t.
     obind (argv_at argv 2) (\<lambda>t_text.
     obind (argv_at argv 3) (\<lambda>b_text.
       Inr \<lparr>meme_id = word_of_int i, template_id = word_of_int t, top_text = t_text, bottom_text = b_text\<rparr>))))"

fun run_GetMeme :: "Meme \<Rightarrow> sql_row list \<Rightarrow> Meme outcome" where
  "run_GetMeme meme [] = Inr meme"
| "run_GetMeme meme (argv # rows) = obind (callback_GetMeme meme argv) (\<lambda>m. run_GetMeme m rows)"

definition callback_GetAllMemes :: "(uint32_t \<times> uint32_t) \<Rightarrow> Meme list \<Rightarrow> sql_row \<Rightarrow> Meme list outcome" where
  "callback_GetAllMemes stack memes argv =
     obind (callback_GetMeme (declared_Meme stack) argv) (\<lambda>m. Inr (memes @ [m]))"

fun run_GetAllMemes :: "(uint32_t \<times> uint32_t) \<Rightarrow> Meme list \<Rightarrow> sql_row list \<Rightarrow> Meme list outcome" where
  "run_GetAllMemes stack memes [] = Inr memes"
| "run_GetAllMemes stack memes (argv # rows) =
     obind (callback_GetAllMemes stack memes argv) (\<lambda>ms. run_GetAllMemes stack ms rows)"

section \<open>The table\<close>

definition Init :: "'w sqlite_api \<Rightarrow> 'w \<Rightarrow> 'w" where
  "Init q w =
     (let ((rc, db), w) = sqlite3_open q ''amazon.db'' w in
      if rc \<noteq> 0 then w else
      let ((rc, rows), w) = sqlite3_exec q db check_sql w;
          exists = fold callback rows 0;
          w = (if exists \<noteq> 0 then w else (let (_, w) = sqlite3_exec q db create_sql w in w));
          (_, w) = sqlite3_close q db w
      in w)"

definition Refresh :: "'w sqlite_api \<Rightarrow> 'w \<Rightarrow> 'w" where
  "Refresh q w =
     (let ((rc, db), w) = sqlite3_open q ''amazon.db'' w in
      if rc \<noteq> 0 then w else
      let (_, w) = sqlite3_exec q db drop_sql w;
          (_, w) = sqlite3_close q db w
      in Init q w)"

section \<open>Queries\<close>

definition GetMeme ::
  "'w sqlite_api \<Rightarrow> (uint32_t \<times> uint32_t) \<Rightarrow> uint32_t \<Rightarrow> 'w \<Rightarrow> Meme outcome \<times> 'w" where
  "GetMeme q stack i w =
     (let meme = declared_Meme stack;
          sql = select_id_sql (uint i);
          ((rc, db), w) = sqlite3_open q ''amazon.db'' w in
      if rc \<noteq> 0 then (Inr meme, w) else
      let ((rc, rows), w) = sqlite3_exec q db sql w in
      (case run_GetMeme meme rows of
         Inl e \<Rightarrow> (Inl e, w)
       | Inr meme \<Rightarrow> (let (_, w) = sqlite3_close q db w in (Inr meme, w))))"

definition GetAllMemes ::
  "'w sqlite_api \<Rightarrow> (uint32_t \<times> uint32_t) \<Rightarrow> 'w \<Rightarrow> Meme list outcome \<times> 'w" where
  "GetAllMemes q stack w =
     (let ((rc, db), w) = sqlite3_open q ''amazon.db'' w in
      if rc \<noteq> 0 then (Inr [], w) else
      let ((rc, rows), w) = sqlite3_exec q db select_all_sql w in
      (case run_GetAllMemes stack [] rows of
         Inl e \<Rightarrow> (Inl e, w)
       | Inr memes \<Rightarrow> (let (_, w) = sqlite3_close q db w in (Inr memes, w))))"

text \<open>
  The loop over the result rows has no bound of its own: whether it ends is up to
  \<open>sqlite3_step\<close>.
\<close>

partial_function (option) FindMemes_loop ::
  "'w sqlite_api \<Rightarrow> nat \<Rightarrow> Meme list \<Rightarrow> 'w \<Rightarrow> (Meme list outcome \<times> 'w) option" where
  "FindMemes_loop q stmt memes w =
     (case sqlite3_step q stmt w of (rc, w') \<Rightarrow>
        if rc \<noteq> SQLITE_ROW then Some (Inr memes, w')
        else (case sqlite3_column_text q stmt 2 w' of
                None \<Rightarrow> Some (Inl Null_dereference, w')
              | Some t_text \<Rightarrow> (case sqlite3_column_text q stmt 3 w' of
                    None \<Rightarrow> Some (Inl Null_dereference, w')
                  | Some b_text \<Rightarrow>
                      FindMemes_loop q stmt
                        (memes @ [\<lparr>meme_id = word_of_int (sqlite3_column_int q stmt 0 w'),
                                   template_id = word_of_int (sqlite3_column_int q stmt 1 w'),
                                   top_text = t_text, bottom_text = b_text\<rparr>]) w')))"

definition FindMemes ::
  "'w sqlite_api \<Rightarrow> string \<Rightarrow> 'w \<Rightarrow> (Meme list outcome \<times> 'w) option" where
  "FindMemes q search_string w =
     (let binding = ''%'' @ search_string @ ''%'';
          ((rc, db), w) = sqlite3_open q ''amazon.db'' w in
      if rc \<noteq> 0 then Some (Inr [], w) else
      let ((rc, stmt), w) = sqlite3_prepare_v2 q db select_like_sql w in
      if rc \<noteq> SQLITE_OK then Some (Inr [], w) else
      let (rc, w) = sqlite3_bind_text q stmt 1 (c_str binding) w in
      if rc \<noteq> SQLITE_OK then Some (Inr [], w) else
      let (rc, w) = sqlite3_bind_text q stmt 2 (c_str binding) w in
      if rc \<noteq> SQLITE_OK then Some (Inr [], w) else
      (case FindMemes_loop q stmt [] w of
         None \<Rightarrow> None
       | Some (Inl e, w) \<Rightarrow> Some (Inl e, w)
       | Some (Inr memes, w) \<Rightarrow>
           (let (_, w) = sqlite3_finalize q stmt w;
                (_, w) = sqlite3_close q db w
            in Some (Inr memes, w))))"

section \<open>Changes\<close>

text \<open>
  \<open>uint32_t\<close> arguments become the \<open>int\<close> of \<open>sqlite3_bind_int\<close> with the same 32 bits, and the
  64-bit rowid becomes an \<open>int\<close> by dropping its high bits. Texts go through \<open>c_str()\<close>.
\<close>

definition AddMeme ::
  "'w sqlite_api \<Rightarrow> uint32_t \<Rightarrow> string \<Rightarrow> string \<Rightarrow> 'w \<Rightarrow> int \<times> 'w" where
  "AddMeme q template t_text b_text w =
     (let ((rc, db), w) = sqlite3_open q ''amazon.db'' w in
      if rc \<noteq> 0 then (- 1, w) else
      let ((rc, stmt), w) = sqlite3_prepare_v2 q db insert_sql w in
      if rc \<noteq> SQLITE_OK then (- 1, w) else
      let (rc, w) = sqlite3_bind_int q stmt 1 (sint template) w in
      if rc \<noteq> SQLITE_OK then (- 1, w) else
      let (rc, w) = sqlite3_bind_text q stmt 2 (c_str t_text) w in
      if rc \<noteq> SQLITE_OK then (- 1, w) else
      let (rc, w) = sqlite3_bind_text q stmt 3 (c_str b_text) w in
      if rc \<noteq> SQLITE_OK then (- 1, w) else
      let (rc, w) = sqlite3_step q stmt w in
      if rc \<noteq> SQLITE_DONE then (- 1, w) else
      let new_id = signed_take_bit 31 (sqlite3_last_insert_rowid q db w);
          (_, w) = sqlite3_finalize q stmt w;
          (_, w) = sqlite3_close q db w
      in (new_id, w))"

definition DeleteMeme :: "'w sqlite_api \<Rightarrow> uint32_t \<Rightarrow> 'w \<Rightarrow> int \<times> 'w" where
  "DeleteMeme q i w =
     (let ((rc, db), w) = sqlite3_open q ''amazon.db'' w in
      if rc \<noteq> 0 then (- 1, w) else
      let ((rc, stmt), w) = sqlite3_prepare_v2 q db delete_sql w in
      if rc \<noteq> SQLITE_OK then (- 1, w) else
      let (rc, w) = sqlite3_bind_int q stmt 1 (sint i) w in
      if rc \<noteq> SQLITE_OK then (- 1, w) else
      let (rc, w) = sqlite3_step q stmt w in
      if rc \<noteq> SQLITE_DONE then (- 1, w) else
      let (_, w) = sqlite3_close q db w;
          (_, w) = sqlite3_finalize q stmt w
      in (0, w))"

definition UpdateMeme ::
  "'w sqlite_api \<Rightarrow> uint32_t \<Rightarrow> uint32_t \<Rightarrow> string \<Rightarrow> string \<Rightarrow> 'w \<Rightarrow> int \<times> 'w" where
  "UpdateMeme q i template t_text b_text w =
     (let ((rc, db), w) = sqlite3_open q ''amazon.db'' w in
      if rc \<noteq> 0 then (- 1, w) else
      let ((rc, stmt), w) = sqlite3_prepare_v2 q db update_sql w in
      if rc \<noteq> SQLITE_OK then (- 1, w) else
      let (rc, w) = sqlite3_bind_int q stmt 4 (sint i) w in
      if rc \<noteq> SQLITE_OK then (- 1, w) else
      let (rc, w) = sqlite3_bind_int q stmt 1 (sint template) w in
      if rc \<noteq> SQLITE_OK then (- 1, w) else
      let (rc, w) = sqlite3_bind_text q stmt 2 (c_str t_text) w in
      if rc \<noteq> SQLITE_OK then (- 1, w) else
      let (rc, w) = sqlite3_bind_text q stmt 3 (c_str b_text) w in
      if rc \<noteq> SQLITE_OK then (- 1, w) else
      let (rc, w) = sqlite3_step q stmt w in
      if rc \<noteq> SQLITE_DONE then (- 1, w) else
      let (_, w) = sqlite3_finalize q stmt w;
          (_, w) = sqlite3_close q db w
      in (sint i, w))"

end
