(* ===== verification/Sqlite_Memory.thy ===== *)
theory Sqlite_Memory
  imports Sqlite_Api
begin

text \<open>
  An instance of the SQLite functions: a world that holds the rows of MEMES, the prepared
  statements and the open connections in lists, and functions that never fail except as
  documented. \<open>mem_documented\<close> shows that the documented behaviour is satisfiable, and the
  instance is what the examples compute with.
\<close>

record mem_world =
  m_table :: "(int \<times> meme_row) list option"
  m_stmts :: "(nat \<times> prepared) list"
  m_open :: "nat list"
  m_last :: int

definition empty_world :: mem_world where
  "empty_world = \<lparr>m_table = None, m_stmts = [], m_open = [], m_last = 0\<rparr>"

definition mem_view :: "mem_world sqlite_view" where
  "mem_view = \<lparr>v_table = (\<lambda>w. map_option map_of (m_table w)), v_stmt = (\<lambda>w. map_of (m_stmts w)),
     v_open = (\<lambda>w. set (m_open w))\<rparr>"

definition mem_open :: "string \<Rightarrow> mem_world \<Rightarrow> (int \<times> nat) \<times> mem_world" where
  "mem_open name w =
     (let db = Suc (sum_list (m_open w) + sum_list (map (\<lambda>s. p_db (snd s)) (m_stmts w)))
      in ((SQLITE_OK, db), w\<lparr>m_open := db # m_open w\<rparr>))"

definition mem_close :: "nat \<Rightarrow> mem_world \<Rightarrow> int \<times> mem_world" where
  "mem_close db w =
     (if list_ex (\<lambda>s. p_db (snd s) = db) (AList.clearjunk (m_stmts w)) then (SQLITE_BUSY, w)
      else (SQLITE_OK, w\<lparr>m_open := filter (\<lambda>d. d \<noteq> db) (m_open w)\<rparr>))"

text \<open>The rowid of a query for one row is read back from the text of the statement.\<close>

definition mem_exec :: "nat \<Rightarrow> string \<Rightarrow> mem_world \<Rightarrow> (int \<times> sql_row list) \<times> mem_world" where
  "mem_exec db sql w =
     (if sql = drop_sql then ((SQLITE_OK, []), w\<lparr>m_table := None\<rparr>)
      else if sql = check_sql then
        ((SQLITE_OK, if m_table w = None then [] else [[Some ''MEMES'']]), w)
      else if sql = create_sql then
        (if m_table w = None then ((SQLITE_OK, []), w\<lparr>m_table := Some []\<rparr>) else ((1, []), w))
      else (case m_table w of
          None \<Rightarrow> ((1, []), w)
        | Some rows \<Rightarrow>
            if sql = select_all_sql then ((SQLITE_OK, map argv_of (AList.clearjunk rows)), w)
            else (case strtol (drop 41 sql) of
                None \<Rightarrow> ((1, []), w)
              | Some i \<Rightarrow> ((SQLITE_OK, case map_of rows i of None \<Rightarrow> [] | Some r \<Rightarrow> [argv_of (i, r)]), w))))"

definition mem_prepare :: "nat \<Rightarrow> string \<Rightarrow> mem_world \<Rightarrow> (int \<times> nat) \<times> mem_world" where
  "mem_prepare db sql w =
     (let st = Suc (sum_list (map fst (m_stmts w)))
      in ((SQLITE_OK, st), w\<lparr>m_stmts := (st, \<lparr>p_db = db, p_sql = sql, p_binds = Map.empty,
            p_pending = None, p_current = None\<rparr>) # m_stmts w\<rparr>))"

definition mem_bind :: "nat \<Rightarrow> nat \<Rightarrow> sql_value \<Rightarrow> mem_world \<Rightarrow> int \<times> mem_world" where
  "mem_bind st i x w = (case map_of (m_stmts w) st of
      None \<Rightarrow> (1, w)
    | Some p \<Rightarrow> (SQLITE_OK, w\<lparr>m_stmts := (st, p\<lparr>p_binds := (p_binds p)(i \<mapsto> x)\<rparr>) # m_stmts w\<rparr>))"

definition mem_insert :: "meme_row \<Rightarrow> mem_world \<Rightarrow> int \<times> mem_world" where
  "mem_insert r w = (case m_table w of
      None \<Rightarrow> (1, w)
    | Some rows \<Rightarrow>
        (let i = (if rows = [] then 1 else Max (set (map fst rows)) + 1)
         in (SQLITE_DONE, w\<lparr>m_table := Some ((i, r) # rows), m_last := i\<rparr>)))"

definition mem_next :: "nat \<Rightarrow> prepared \<Rightarrow> (int \<times> meme_row) list \<Rightarrow> mem_world \<Rightarrow> int \<times> mem_world" where
  "mem_next st p rs w = (case rs of
      [] \<Rightarrow> (SQLITE_DONE, w)
    | r # rs' \<Rightarrow> (SQLITE_ROW,
        w\<lparr>m_stmts := (st, p\<lparr>p_pending := Some rs', p_current := Some r\<rparr>) # m_stmts w\<rparr>))"

definition mem_step :: "nat \<Rightarrow> mem_world \<Rightarrow> int \<times> mem_world" where
  "mem_step st w = (case map_of (m_stmts w) st of
      None \<Rightarrow> (1, w)
    | Some p \<Rightarrow>
        if p_sql p = insert_sql then
          (case (p_binds p 1, p_binds p 2, p_binds p 3) of
             (Some (Sql_int a), Some (Sql_text b), Some (Sql_text c)) \<Rightarrow> mem_insert (a, Some b, Some c) w
           | _ \<Rightarrow> (1, w))
        else if p_sql p = delete_sql then
          (case p_binds p 1 of
             Some (Sql_int i) \<Rightarrow> (SQLITE_DONE, w\<lparr>m_table := map_option (AList.delete i) (m_table w)\<rparr>)
           | _ \<Rightarrow> (1, w))
        else if p_sql p = update_sql then
          (case (p_binds p 4, p_binds p 1, p_binds p 2, p_binds p 3) of
             (Some (Sql_int i), Some (Sql_int a), Some (Sql_text b), Some (Sql_text c)) \<Rightarrow>
               (SQLITE_DONE, w\<lparr>m_table := map_option (\<lambda>rows.
                  if i \<in> fst ` set rows then AList.update i (a, Some b, Some c) rows else rows) (m_table w)\<rparr>)
           | _ \<Rightarrow> (1, w))
        else if p_sql p = select_like_sql then
          (case p_pending p of
             Some rs \<Rightarrow> mem_next st p rs w
           | None \<Rightarrow> (case (m_table w, p_binds p 1, p_binds p 2) of
               (Some rows, Some (Sql_text x), Some (Sql_text y)) \<Rightarrow>
                 mem_next st p (filter (\<lambda>(i, r). like_row x y i r) (AList.clearjunk rows)) w
             | _ \<Rightarrow> (1, w)))
        else (1, w))"

definition mem_row :: "nat \<Rightarrow> mem_world \<Rightarrow> int \<times> meme_row" where
  "mem_row st w = (case map_of (m_stmts w) st of
      Some p \<Rightarrow> (case p_current p of Some r \<Rightarrow> r | None \<Rightarrow> (0, 0, None, None))
    | None \<Rightarrow> (0, 0, None, None))"

definition mem_finalize :: "nat \<Rightarrow> mem_world \<Rightarrow> int \<times> mem_world" where
  "mem_finalize st w = (SQLITE_OK, w\<lparr>m_stmts := AList.delete st (m_stmts w)\<rparr>)"

definition mem_api :: "mem_world sqlite_api" where
  "mem_api =
     \<lparr>sqlite3_open = mem_open, sqlite3_close = mem_close, sqlite3_exec = mem_exec,
      sqlite3_prepare_v2 = mem_prepare,
      sqlite3_bind_int = (\<lambda>st i n. mem_bind st i (Sql_int n)),
      sqlite3_bind_text = (\<lambda>st i t. mem_bind st i (Sql_text t)),
      sqlite3_step = mem_step,
      sqlite3_column_int = (\<lambda>st i w. signed_take_bit 31
        (if i = 0 then fst (mem_row st w) else fst (snd (mem_row st w)))),
      sqlite3_column_text = (\<lambda>st i w.
        if i = 2 then fst (snd (snd (mem_row st w))) else snd (snd (snd (mem_row st w)))),
      sqlite3_last_insert_rowid = (\<lambda>db w. m_last w),
      sqlite3_finalize = mem_finalize\<rparr>"

section \<open>The documentation holds of the instance\<close>

lemmas mem_defs = mem_api_def mem_view_def

lemma member_sum_list: "(x::nat) \<in> set xs \<Longrightarrow> x \<le> sum_list xs"
  by (simp add: member_le_sum_list)

lemma mem_open_doc: "open_doc mem_api mem_view"
proof -
  have "p_db p \<noteq> Suc (a + sum_list (map (\<lambda>s. p_db (snd s)) stmts))" if "map_of stmts st = Some p"
    for p :: prepared and st :: nat and stmts and a :: nat
  proof -
    from that have "p_db p \<in> set (map (\<lambda>s. p_db (snd s)) stmts)"
      by (force dest: map_of_SomeD)
    then show ?thesis using member_sum_list by fastforce
  qed
  moreover have "Suc (sum_list xs + a) \<notin> set xs" for xs and a :: nat
    using member_sum_list [of "Suc (sum_list xs + a)" xs] by auto
  ultimately show ?thesis
    by (auto simp: open_doc_def mem_defs mem_open_def Let_def)
qed

lemma mem_close_doc: "close_doc mem_api mem_view"
proof -
  have "list_ex (\<lambda>s. p_db (snd s) = db) (AList.clearjunk stmts) \<longleftrightarrow>
      (\<exists>st p. map_of stmts st = Some p \<and> p_db p = db)"
    for db and stmts :: "(nat \<times> prepared) list"
    unfolding list_ex_iff
    by (metis (no_types, lifting) distinct_clearjunk map_of_SomeD map_of_clearjunk map_of_eq_Some_iff
        prod.collapse snd_conv)
  then show ?thesis
    by (auto simp: close_doc_def mem_defs mem_close_def sqlite_codes split: if_splits)
qed

lemma table_rows_filter:
  "table_rows (map_of rows) sel (filter (\<lambda>(i, r). sel i r) (AList.clearjunk rows))"
proof -
  have d: "distinct (map fst (AList.clearjunk rows))" by (rule distinct_clearjunk)
  then have "(i, r) \<in> set (AList.clearjunk rows) \<longleftrightarrow> map_of rows i = Some r" for i r
    by (metis map_of_clearjunk map_of_eq_Some_iff)
  with d show ?thesis by (auto simp: table_rows_def distinct_map_filter)
qed

lemma mem_prepare_doc: "prepare_doc mem_api mem_view"
proof -
  have "map_of stmts (Suc (sum_list (map fst stmts))) = None" for stmts :: "(nat \<times> prepared) list"
    using member_sum_list [of "Suc (sum_list (map fst stmts))" "map fst stmts"]
    by (auto simp: map_of_eq_None_iff)
  then show ?thesis by (auto simp: prepare_doc_def mem_defs mem_prepare_def Let_def)
qed

lemma mem_bind_doc: "bind_doc mem_api mem_view"
  by (auto simp: bind_doc_def bound_def mem_defs mem_bind_def sqlite_codes split: option.splits)

lemma mem_column_doc: "column_doc mem_api mem_view"
  by (auto simp: column_doc_def mem_defs mem_row_def)

lemma mem_finalize_doc: "finalize_doc mem_api mem_view"
  by (auto simp: finalize_doc_def mem_defs mem_finalize_def delete_conv')

lemma select_id_text: "strtol (drop 41 (select_id_sql i)) = Some i"
  using strtol_to_string [of "'';''" i] by (simp add: select_id_sql_def is_digit_def)

lemma select_id_distinct:
  "select_id_sql i \<noteq> drop_sql" "select_id_sql i \<noteq> check_sql" "select_id_sql i \<noteq> create_sql"
  "select_id_sql i \<noteq> select_all_sql" "check_sql \<noteq> drop_sql" "create_sql \<noteq> drop_sql"
  "create_sql \<noteq> check_sql" "select_all_sql \<noteq> drop_sql" "select_all_sql \<noteq> check_sql"
  "select_all_sql \<noteq> create_sql"
  by (simp_all add: sql_texts)

lemma step_sql_distinct:
  "delete_sql \<noteq> insert_sql" "update_sql \<noteq> insert_sql" "update_sql \<noteq> delete_sql"
  "select_like_sql \<noteq> insert_sql" "select_like_sql \<noteq> delete_sql" "select_like_sql \<noteq> update_sql"
  by (simp_all add: sql_texts)

lemma mem_exec_doc: "exec_doc mem_api mem_view"
  unfolding exec_doc_def
proof (intro allI impI)
  fix db sql w rc rows w'
  assume ex: "sqlite3_exec mem_api db sql w = ((rc, rows), w')"
  then have run: "mem_exec db sql w = ((rc, rows), w')" by (simp add: mem_api_def)
  have frame: "m_stmts w' = m_stmts w \<and> m_open w' = m_open w"
    using run by (auto simp: mem_exec_def split: if_splits option.splits)
  have select: "m_table w' = m_table w \<and> (rows = [] \<and> rc \<noteq> SQLITE_OK \<or> (\<exists>l. m_table w = Some l \<and>
      rows = (if sql = select_all_sql then map argv_of (AList.clearjunk l)
        else (case map_of l (the (strtol (drop 41 sql))) of None \<Rightarrow> []
              | Some r \<Rightarrow> [argv_of (the (strtol (drop 41 sql)), r)]))))"
    if "sql = select_all_sql \<or> sql = select_id_sql i" for i
    using that
  proof (elim disjE)
    assume "sql = select_all_sql"
    with run show ?thesis
      by (cases "m_table w") (auto simp: mem_exec_def sqlite_codes select_id_distinct)
  next
    assume "sql = select_id_sql i"
    with run show ?thesis
      by (cases "m_table w") (auto simp: mem_exec_def sqlite_codes select_id_distinct select_id_text
          split: option.split)
  qed
  have all: "table_rows (map_of l) (\<lambda>_ _. True) (AList.clearjunk l)" for l
    using table_rows_filter [of l "\<lambda>_ _. True"] by simp
  have queries: "(sql = select_all_sql \<longrightarrow> v_table mem_view w' = v_table mem_view w \<and>
        (rows = [] \<and> rc \<noteq> SQLITE_OK \<or> (\<exists>t rs n. v_table mem_view w = Some t \<and> table_rows t (\<lambda>_ _. True) rs \<and>
           rows = map argv_of (take n rs) \<and> (rc = SQLITE_OK \<longrightarrow> rows = map argv_of rs)))) \<and>
     (\<forall>id. sql = select_id_sql id \<longrightarrow> v_table mem_view w' = v_table mem_view w \<and>
        (rows = [] \<and> rc \<noteq> SQLITE_OK \<or> (\<exists>t. v_table mem_view w = Some t \<and>
           rows = (case t id of None \<Rightarrow> [] | Some r \<Rightarrow> [argv_of (id, r)]))))"
  proof (intro conjI allI impI)
    assume sql: "sql = select_all_sql"
    then show "v_table mem_view w' = v_table mem_view w" using select by (simp add: mem_view_def)
    show "rows = [] \<and> rc \<noteq> SQLITE_OK \<or> (\<exists>t rs n. v_table mem_view w = Some t \<and>
        table_rows t (\<lambda>_ _. True) rs \<and> rows = map argv_of (take n rs) \<and>
        (rc = SQLITE_OK \<longrightarrow> rows = map argv_of rs))"
    proof (cases "rows = [] \<and> rc \<noteq> SQLITE_OK")
      case False
      with select sql obtain l where "m_table w = Some l" and "rows = map argv_of (AList.clearjunk l)"
        by auto
      with all [of l] show ?thesis
        by (intro disjI2 exI [of _ "map_of l"] exI [of _ "AList.clearjunk l"]
            exI [of _ "length (AList.clearjunk l)"]) (simp add: mem_view_def)
    qed simp
  next
    fix id
    assume sql: "sql = select_id_sql id"
    with select [of id] show "v_table mem_view w' = v_table mem_view w" by (simp add: mem_view_def)
    from select [of id] sql show "rows = [] \<and> rc \<noteq> SQLITE_OK \<or> (\<exists>t. v_table mem_view w = Some t \<and>
        rows = (case t id of None \<Rightarrow> [] | Some r \<Rightarrow> [argv_of (id, r)]))"
      by (auto simp: mem_view_def select_id_text select_id_distinct split: option.split)
  qed
  have others: "(sql = drop_sql \<longrightarrow> v_table mem_view w' = (if rc = SQLITE_OK then None else v_table mem_view w)) \<and>
     (sql = check_sql \<longrightarrow> v_table mem_view w' = v_table mem_view w \<and>
        (rows \<noteq> [] \<longrightarrow> v_table mem_view w \<noteq> None) \<and>
        (rc = SQLITE_OK \<longrightarrow> rows = [] \<longrightarrow> v_table mem_view w = None)) \<and>
     (sql = create_sql \<longrightarrow>
        (if rc = SQLITE_OK then v_table mem_view w = None \<and> v_table mem_view w' = Some Map.empty
         else v_table mem_view w' = v_table mem_view w))"
    using run by (intro conjI) (auto simp: mem_exec_def mem_view_def sqlite_codes select_id_distinct
        select_id_distinct [THEN not_sym] split: if_splits)
  have frame': "v_stmt mem_view w' = v_stmt mem_view w" "v_open mem_view w' = v_open mem_view w"
    using frame by (simp_all add: mem_view_def)
  show "v_stmt mem_view w' = v_stmt mem_view w \<and> v_open mem_view w' = v_open mem_view w \<and>
     (sql = drop_sql \<longrightarrow> v_table mem_view w' = (if rc = SQLITE_OK then None else v_table mem_view w)) \<and>
     (sql = check_sql \<longrightarrow> v_table mem_view w' = v_table mem_view w \<and>
        (rows \<noteq> [] \<longrightarrow> v_table mem_view w \<noteq> None) \<and>
        (rc = SQLITE_OK \<longrightarrow> rows = [] \<longrightarrow> v_table mem_view w = None)) \<and>
     (sql = create_sql \<longrightarrow>
        (if rc = SQLITE_OK then v_table mem_view w = None \<and> v_table mem_view w' = Some Map.empty
         else v_table mem_view w' = v_table mem_view w)) \<and>
     (sql = select_all_sql \<longrightarrow> v_table mem_view w' = v_table mem_view w \<and>
        (rows = [] \<and> rc \<noteq> SQLITE_OK \<or> (\<exists>t rs n. v_table mem_view w = Some t \<and> table_rows t (\<lambda>_ _. True) rs \<and>
           rows = map argv_of (take n rs) \<and> (rc = SQLITE_OK \<longrightarrow> rows = map argv_of rs)))) \<and>
     (\<forall>id. sql = select_id_sql id \<longrightarrow> v_table mem_view w' = v_table mem_view w \<and>
        (rows = [] \<and> rc \<noteq> SQLITE_OK \<or> (\<exists>t. v_table mem_view w = Some t \<and>
           rows = (case t id of None \<Rightarrow> [] | Some r \<Rightarrow> [argv_of (id, r)]))))"
    using queries others frame' by blast
qed

lemma new_rowid_first: "new_rowid Map.empty 1"
  by (simp add: new_rowid_def)

lemma new_rowid_max:
  assumes "rows \<noteq> []"
  shows "new_rowid (map_of rows) (Max (fst ` set rows) + 1)"
proof -
  have "Max (fst ` set rows) + 1 \<notin> fst ` set rows"
  proof
    assume "Max (fst ` set rows) + 1 \<in> fst ` set rows"
    then have "Max (fst ` set rows) + 1 \<le> Max (fst ` set rows)" by (intro Max_ge) simp_all
    then show False by simp
  qed
  then have "map_of rows (Max (fst ` set rows) + 1) = None" by (simp add: map_of_eq_None_iff)
  with assms show ?thesis by (simp add: new_rowid_def dom_map_of_conv_image_fst)
qed

lemma mem_insert_step:
  "mem_insert r w = (rc, w') \<Longrightarrow> m_stmts w' = m_stmts w \<and> m_open w' = m_open w \<and>
   (if rc = SQLITE_DONE
    then \<exists>rows. m_table w = Some rows \<and> new_rowid (map_of rows) (m_last w') \<and>
      m_table w' = Some ((m_last w', r) # rows)
    else m_table w' = m_table w)"
  using new_rowid_first new_rowid_max by (auto simp: mem_insert_def sqlite_codes Let_def split: option.splits if_splits)

lemma mem_next_step:
  "mem_next st p rs w = (rc, w') \<Longrightarrow> m_table w' = m_table w \<and> m_open w' = m_open w \<and>
   (if rc = SQLITE_ROW
    then \<exists>r rs'. rs = r # rs' \<and>
      map_of (m_stmts w') = (map_of (m_stmts w))(st \<mapsto> p\<lparr>p_pending := Some rs', p_current := Some r\<rparr>)
    else m_stmts w' = m_stmts w \<and> rs = [])"
  by (auto simp: mem_next_def sqlite_codes split: list.splits)

lemma mem_step_doc: "step_doc mem_api mem_view"
  unfolding step_doc_def
proof (intro allI impI)
  fix st p w rc w'
  assume "sqlite3_step mem_api st w = (rc, w')" and "v_stmt mem_view w st = Some p"
  then have run: "mem_step st w = (rc, w')" and p: "map_of (m_stmts w) st = Some p"
    by (simp_all add: mem_api_def mem_view_def)
  have upd: "map_of (AList.update i r rows) = (map_of rows)(i \<mapsto> r)" for i r and rows :: "(int \<times> meme_row) list"
    by (rule update_conv')
  have frame: "m_open w' = m_open w"
    using run p by (auto simp: mem_step_def dest: mem_insert_step mem_next_step
        split: if_splits option.splits sql_value.splits prod.splits)
  have ins: "m_stmts w' = m_stmts w \<and>
      (if rc = SQLITE_DONE then \<exists>rows. m_table w = Some rows \<and> new_rowid (map_of rows) (m_last w') \<and>
         m_table w' = Some ((m_last w', (a, Some b, Some c)) # rows)
       else m_table w' = m_table w)"
    if "p_sql p = insert_sql" "p_binds p 1 = Some (Sql_int a)" "p_binds p 2 = Some (Sql_text b)"
      "p_binds p 3 = Some (Sql_text c)" for a b c
    using run p that mem_insert_step by (simp add: mem_step_def)
  have del: "m_stmts w' = m_stmts w \<and> rc = SQLITE_DONE \<and> m_table w' = map_option (AList.delete i) (m_table w)"
    if "p_sql p = delete_sql" "p_binds p 1 = Some (Sql_int i)" for i
    using run p that by (auto simp: mem_step_def step_sql_distinct)
  have updated: "m_stmts w' = m_stmts w \<and> rc = SQLITE_DONE \<and> m_table w' = map_option (\<lambda>rows.
        if i \<in> fst ` set rows then AList.update i (a, Some b, Some c) rows else rows) (m_table w)"
    if "p_sql p = update_sql" "p_binds p 4 = Some (Sql_int i)" "p_binds p 1 = Some (Sql_int a)"
      "p_binds p 2 = Some (Sql_text b)" "p_binds p 3 = Some (Sql_text c)" for i a b c
    using run p that by (auto simp: mem_step_def step_sql_distinct)
  have sel: "m_table w' = m_table w \<and>
      (if rc = SQLITE_ROW
       then \<exists>r rs. pending_rows mem_view w p (r # rs) \<and>
         map_of (m_stmts w') = (map_of (m_stmts w))(st \<mapsto> p\<lparr>p_pending := Some rs, p_current := Some r\<rparr>)
       else m_stmts w' = m_stmts w \<and> (rc = SQLITE_DONE \<longrightarrow> pending_rows mem_view w p []))"
    if like: "p_sql p = select_like_sql"
  proof (cases "p_pending p")
    case (Some rs)
    with run p like have "mem_next st p rs w = (rc, w')"
      by (simp add: mem_step_def step_sql_distinct)
    from mem_next_step [OF this] show ?thesis by (auto simp: pending_rows_def Some split: if_splits)
  next
    case None
    show ?thesis
    proof (cases "\<exists>rows x y. m_table w = Some rows \<and> p_binds p 1 = Some (Sql_text x) \<and>
        p_binds p 2 = Some (Sql_text y)")
      case True
      then obtain rows x y where b: "m_table w = Some rows" "p_binds p 1 = Some (Sql_text x)"
        "p_binds p 2 = Some (Sql_text y)" by blast
      let ?rs = "filter (\<lambda>(i, r). like_row x y i r) (AList.clearjunk rows)"
      from run p like None b have "mem_next st p ?rs w = (rc, w')"
        by (simp add: mem_step_def step_sql_distinct)
      moreover have "pending_rows mem_view w p ?rs"
        using table_rows_filter [of rows "like_row x y"] by (simp add: pending_rows_def None mem_view_def b b(2) [simplified])
      ultimately show ?thesis using mem_next_step by fastforce
    next
      case False
      with run p like None have "(rc, w') = (1, w)"
        by (auto simp: mem_step_def step_sql_distinct split: option.splits sql_value.splits)
      then show ?thesis by (simp add: sqlite_codes)
    qed
  qed
  show "v_open mem_view w' = v_open mem_view w \<and>
     (\<forall>a b c. p_sql p = insert_sql \<longrightarrow> p_binds p 1 = Some (Sql_int a) \<longrightarrow>
        p_binds p 2 = Some (Sql_text b) \<longrightarrow> p_binds p 3 = Some (Sql_text c) \<longrightarrow>
        v_stmt mem_view w' = v_stmt mem_view w \<and>
        (if rc = SQLITE_DONE
         then \<exists>t i. v_table mem_view w = Some t \<and> new_rowid t i \<and>
           v_table mem_view w' = Some (t(i \<mapsto> (a, Some b, Some c))) \<and>
           sqlite3_last_insert_rowid mem_api (p_db p) w' = i
         else v_table mem_view w' = v_table mem_view w)) \<and>
     (\<forall>i. p_sql p = delete_sql \<longrightarrow> p_binds p 1 = Some (Sql_int i) \<longrightarrow>
        v_stmt mem_view w' = v_stmt mem_view w \<and>
        v_table mem_view w' = (if rc = SQLITE_DONE then map_option (\<lambda>t. t(i := None)) (v_table mem_view w)
                        else v_table mem_view w)) \<and>
     (\<forall>i a b c. p_sql p = update_sql \<longrightarrow> p_binds p 4 = Some (Sql_int i) \<longrightarrow>
        p_binds p 1 = Some (Sql_int a) \<longrightarrow> p_binds p 2 = Some (Sql_text b) \<longrightarrow>
        p_binds p 3 = Some (Sql_text c) \<longrightarrow>
        v_stmt mem_view w' = v_stmt mem_view w \<and>
        v_table mem_view w' = (if rc = SQLITE_DONE
          then map_option (update_row i (a, Some b, Some c)) (v_table mem_view w) else v_table mem_view w)) \<and>
     (p_sql p = select_like_sql \<longrightarrow>
        v_table mem_view w' = v_table mem_view w \<and>
        (if rc = SQLITE_ROW
         then \<exists>r rs. pending_rows mem_view w p (r # rs) \<and>
           v_stmt mem_view w' = (v_stmt mem_view w)(st \<mapsto> p\<lparr>p_pending := Some rs, p_current := Some r\<rparr>)
         else v_stmt mem_view w' = v_stmt mem_view w \<and> (rc = SQLITE_DONE \<longrightarrow> pending_rows mem_view w p [])))"
  proof (intro conjI allI impI)
    fix i a b c
    assume u: "p_sql p = update_sql" "p_binds p 4 = Some (Sql_int i)" "p_binds p 1 = Some (Sql_int a)"
      "p_binds p 2 = Some (Sql_text b)" "p_binds p 3 = Some (Sql_text c)"
    have "update_row i r (map_of rows) = map_of (if i \<in> fst ` set rows then AList.update i r rows else rows)"
      for r and rows :: "(int \<times> meme_row) list"
    proof (cases "map_of rows i")
      case (Some r')
      then have "i \<in> fst ` set rows" by (force dest: map_of_SomeD)
      with Some show ?thesis by (simp add: update_row_def upd)
    next
      case None
      then have "i \<notin> fst ` set rows" by (simp add: map_of_eq_None_iff)
      with None show ?thesis by (simp add: update_row_def)
    qed
    then show "v_table mem_view w' = (if rc = SQLITE_DONE
          then map_option (update_row i (a, Some b, Some c)) (v_table mem_view w) else v_table mem_view w)"
      using updated [OF u] by (cases "m_table w") (simp_all add: mem_view_def)
    show "v_stmt mem_view w' = v_stmt mem_view w"
      using updated [OF u] by (simp add: mem_view_def)
  next
    fix a b c
    assume i: "p_sql p = insert_sql" "p_binds p 1 = Some (Sql_int a)" "p_binds p 2 = Some (Sql_text b)"
      "p_binds p 3 = Some (Sql_text c)"
    show "v_stmt mem_view w' = v_stmt mem_view w"
      using ins [OF i] by (simp add: mem_view_def)
    show "if rc = SQLITE_DONE
         then \<exists>t i. v_table mem_view w = Some t \<and> new_rowid t i \<and>
           v_table mem_view w' = Some (t(i \<mapsto> (a, Some b, Some c))) \<and>
           sqlite3_last_insert_rowid mem_api (p_db p) w' = i
         else v_table mem_view w' = v_table mem_view w"
      using ins [OF i] by (auto simp: mem_view_def mem_api_def)
  next
    fix i
    assume d: "p_sql p = delete_sql" "p_binds p 1 = Some (Sql_int i)"
    show "v_stmt mem_view w' = v_stmt mem_view w"
      using del [OF d] by (simp add: mem_view_def)
    show "v_table mem_view w' = (if rc = SQLITE_DONE then map_option (\<lambda>t. t(i := None)) (v_table mem_view w)
        else v_table mem_view w)"
      using del [OF d] by (cases "m_table w") (simp_all add: mem_view_def delete_conv')
  qed (use frame sel in \<open>auto simp: mem_view_def mem_api_def split: if_splits\<close>)
qed

lemma mem_documented: "sqlite_documented mem_api mem_view"
  by (simp add: sqlite_documented_def mem_open_doc mem_close_doc mem_exec_doc mem_prepare_doc
      mem_bind_doc mem_step_doc mem_column_doc mem_finalize_doc)

end
