(* ===== verification/Database_Spec.thy ===== *)
theory Database_Spec
  imports Database Sqlite_Memory
begin

text \<open>
  What the operations of the database do to the table, under the documented behaviour of
  SQLite: each change happens completely or not at all, a stored meme is read back, a search
  finds exactly the memes whose text contains the words, starting the server never loses data;
  and one operation leaves its connection open.
\<close>

section \<open>One statement on a connection of its own\<close>

definition in_session ::
  "'w sqlite_view \<Rightarrow> 'w \<Rightarrow> nat \<Rightarrow> nat \<Rightarrow> prepared \<Rightarrow> 'w \<Rightarrow> bool" where
  "in_session v w0 db st p w \<longleftrightarrow>
     db \<notin> v_open v w0 \<and> v_open v w = insert db (v_open v w0) \<and>
     v_stmt v w0 st = None \<and> v_stmt v w = (v_stmt v w0)(st \<mapsto> p) \<and> p_db p = db \<and>
     (\<forall>s p'. v_stmt v w0 s = Some p' \<longrightarrow> p_db p' \<noteq> db)"

definition fresh_prepared :: "nat \<Rightarrow> string \<Rightarrow> prepared" where
  "fresh_prepared db sql =
     \<lparr>p_db = db, p_sql = sql, p_binds = Map.empty, p_pending = None, p_current = None\<rparr>"

lemma open_table: "sqlite_documented q v \<Longrightarrow> sqlite3_open q n w = ((rc, db), w') \<Longrightarrow> v_table v w' = v_table v w"
  by (simp add: sqlite_documented_def open_doc_def)

lemma prepare_table:
  "sqlite_documented q v \<Longrightarrow> sqlite3_prepare_v2 q db sql w = ((rc, st), w') \<Longrightarrow> v_table v w' = v_table v w"
  by (simp add: sqlite_documented_def prepare_doc_def)

lemma opened:
  assumes "sqlite_documented q v" and "sqlite3_open q n w = ((SQLITE_OK, db), w')"
  shows "db \<notin> v_open v w" and "v_open v w' = insert db (v_open v w)" and "v_stmt v w' = v_stmt v w"
    and "v_stmt v w s = Some p \<Longrightarrow> p_db p \<noteq> db"
  using assms by (auto simp: sqlite_documented_def open_doc_def)

lemma session_start:
  assumes doc: "sqlite_documented q v" and op: "sqlite3_open q n w = ((SQLITE_OK, db), w1)"
    and pr: "sqlite3_prepare_v2 q db sql w1 = ((SQLITE_OK, st), w2)"
  shows "in_session v w db st (fresh_prepared db sql) w2" and "v_table v w2 = v_table v w"
proof -
  note o = opened [OF doc op]
  from doc pr have "v_open v w2 = v_open v w1" "v_stmt v w1 st = None"
    "v_stmt v w2 = (v_stmt v w1)(st \<mapsto> fresh_prepared db sql)"
    unfolding sqlite_documented_def prepare_doc_def fresh_prepared_def by fastforce+
  with o show "in_session v w db st (fresh_prepared db sql) w2"
    by (simp add: in_session_def fresh_prepared_def)
  show "v_table v w2 = v_table v w"
    using prepare_table [OF doc pr] open_table [OF doc op] by simp
qed

lemma session_bound:
  assumes "bound v st i x w res" and "in_session v w0 db st p w" and "res = (SQLITE_OK, w')"
  shows "in_session v w0 db st (p\<lparr>p_binds := (p_binds p)(i \<mapsto> x)\<rparr>) w'" and "v_table v w' = v_table v w"
  using assms by (simp_all add: bound_def in_session_def)

fun bind_value :: "'w sqlite_api \<Rightarrow> nat \<Rightarrow> nat \<Rightarrow> sql_value \<Rightarrow> 'w \<Rightarrow> int \<times> 'w" where
  "bind_value q st i (Sql_int n) w = sqlite3_bind_int q st i n w"
| "bind_value q st i (Sql_text t) w = sqlite3_bind_text q st i t w"

lemma bind_value_bound: "sqlite_documented q v \<Longrightarrow> bound v st i x w (bind_value q st i x w)"
  by (cases x) (simp_all add: sqlite_documented_def bind_doc_def)

fun bind_all :: "'w sqlite_api \<Rightarrow> nat \<Rightarrow> (nat \<times> sql_value) list \<Rightarrow> 'w \<Rightarrow> bool \<times> 'w" where
  "bind_all q st [] w = (True, w)"
| "bind_all q st ((i, x) # bs) w =
     (let (rc, w) = bind_value q st i x w in if rc \<noteq> SQLITE_OK then (False, w) else bind_all q st bs w)"

definition with_binds :: "(nat \<times> sql_value) list \<Rightarrow> prepared \<Rightarrow> prepared" where
  "with_binds bs p = foldl (\<lambda>p (i, x). p\<lparr>p_binds := (p_binds p)(i \<mapsto> x)\<rparr>) p bs"

lemma session_bind_all:
  assumes doc: "sqlite_documented q v"
  shows "in_session v w0 db st p w \<Longrightarrow> bind_all q st bs w = (ok, w') \<Longrightarrow>
    v_table v w' = v_table v w \<and> (ok \<longrightarrow> in_session v w0 db st (with_binds bs p) w')"
proof (induction bs arbitrary: p w)
  case Nil
  then show ?case by (simp add: with_binds_def)
next
  case (Cons b bs)
  obtain i x where b: "b = (i, x)" by fastforce
  obtain rc w1 where res: "bind_value q st i x w = (rc, w1)" by fastforce
  note bd = bind_value_bound [OF doc, of st i x w]
  show ?case
  proof (cases "rc = SQLITE_OK")
    case True
    note s1 = session_bound [OF bd Cons.prems(1) res [unfolded True]]
    from Cons.prems(2) True b res have "bind_all q st bs w1 = (ok, w')" by simp
    from Cons.IH [OF s1(1) this] s1(2) b show ?thesis by (simp add: with_binds_def)
  next
    case False
    with Cons.prems b res have "w' = w1" and "\<not> ok" by simp_all
    moreover have "v_table v w1 = v_table v w"
      using bd Cons.prems(1) res by (simp add: bound_def in_session_def)
    ultimately show ?thesis by simp
  qed
qed

text \<open>
  The common course of the operations: open, prepare, bind, and go on with \<open>k\<close>; \<open>err\<close> is
  returned at the first call that fails.
\<close>

definition statement ::
  "'w sqlite_api \<Rightarrow> string \<Rightarrow> (nat \<times> sql_value) list \<Rightarrow> 'r \<Rightarrow> (nat \<Rightarrow> nat \<Rightarrow> 'w \<Rightarrow> 'r \<times> 'w) \<Rightarrow> 'w \<Rightarrow> 'r \<times> 'w" where
  "statement q sql bs err k w =
     (let ((rc, db), w) = sqlite3_open q ''amazon.db'' w in
      if rc \<noteq> 0 then (err, w) else
      let ((rc, stmt), w) = sqlite3_prepare_v2 q db sql w in
      if rc \<noteq> SQLITE_OK then (err, w) else
      let (ok, w) = bind_all q stmt bs w in
      if \<not> ok then (err, w) else k db stmt w)"

lemma statement_cases:
  assumes doc: "sqlite_documented q v" and run: "statement q sql bs err k w = (r, w')"
  obtains (failed) "r = err" "v_table v w' = v_table v w"
  | (ran) db st w1 where "in_session v w db st (with_binds bs (fresh_prepared db sql)) w1"
      "v_table v w1 = v_table v w" "k db st w1 = (r, w')"
proof -
  obtain rc db w1 where op: "sqlite3_open q ''amazon.db'' w = ((rc, db), w1)" by (metis surj_pair)
  obtain rc2 st w2 where pr: "sqlite3_prepare_v2 q db sql w1 = ((rc2, st), w2)" by (metis surj_pair)
  obtain ok w3 where bd: "bind_all q st bs w2 = (ok, w3)" by fastforce
  note tables = open_table [OF doc op] prepare_table [OF doc pr]
  show thesis
  proof (cases "rc = SQLITE_OK \<and> rc2 = SQLITE_OK")
    case False
    with run op pr tables show thesis
      by (intro failed) (auto simp: statement_def SQLITE_OK_def split: if_splits)
  next
    case True
    then have codes: "rc = SQLITE_OK" "rc2 = SQLITE_OK" by simp_all
    note s = session_start [OF doc op [unfolded codes] pr [unfolded codes]]
    note b = session_bind_all [OF doc s(1) bd]
    show thesis
    proof (cases ok)
      case True
      with run op pr bd codes b s show thesis
        by (intro ran [of db st w3]) (simp_all add: statement_def SQLITE_OK_def)
    next
      case False
      with run op pr bd codes b s show thesis
        by (intro failed) (simp_all add: statement_def SQLITE_OK_def)
    qed
  qed
qed

lemma session_step_frame:
  assumes "sqlite_documented q v" and "in_session v w0 db st p w"
    and "v_stmt v w' = v_stmt v w" and "sqlite3_step q st w = (rc, w')"
  shows "in_session v w0 db st p w'"
proof -
  have "v_open v w' = v_open v w"
    using assms by (auto simp: sqlite_documented_def step_doc_def in_session_def)
  with assms show ?thesis by (simp add: in_session_def)
qed

lemma session_finish:
  assumes doc: "sqlite_documented q v" and s: "in_session v w0 db st p w"
    and fin: "sqlite3_finalize q st w = (rc1, w1)" and cl: "sqlite3_close q db w1 = (rc2, w2)"
  shows "v_open v w2 = v_open v w0" and "v_stmt v w2 = v_stmt v w0" and "v_table v w2 = v_table v w"
proof -
  from doc fin have f: "v_table v w1 = v_table v w" "v_open v w1 = v_open v w"
    "v_stmt v w1 = (v_stmt v w)(st := None)"
    by (simp_all add: sqlite_documented_def finalize_doc_def)
  with s have stmts: "v_stmt v w1 = v_stmt v w0" by (auto simp: in_session_def)
  with s have free: "\<not> (\<exists>s p. v_stmt v w1 s = Some p \<and> p_db p = db)" by (auto simp: in_session_def)
  from s f have "db \<in> v_open v w1" by (simp add: in_session_def)
  with doc cl free have c: "v_table v w2 = v_table v w1" "v_stmt v w2 = v_stmt v w1"
    "v_open v w2 = v_open v w1 - {db}"
    by (auto simp: sqlite_documented_def close_doc_def)
  show "v_open v w2 = v_open v w0" using c f s by (auto simp: in_session_def)
  show "v_stmt v w2 = v_stmt v w0" using c stmts by simp
  show "v_table v w2 = v_table v w" using c f by simp
qed

text \<open>Closing before finalizing keeps the connection.\<close>

lemma session_leak:
  assumes doc: "sqlite_documented q v" and s: "in_session v w0 db st p w"
    and cl: "sqlite3_close q db w = (rc1, w1)" and fin: "sqlite3_finalize q st w1 = (rc2, w2)"
  shows "rc1 = SQLITE_BUSY" and "v_open v w2 = insert db (v_open v w0)" and "v_table v w2 = v_table v w"
proof -
  from s have "\<exists>s p. v_stmt v w s = Some p \<and> p_db p = db" and "db \<in> v_open v w"
    by (auto simp: in_session_def)
  with doc cl have c: "rc1 = SQLITE_BUSY" "v_open v w1 = v_open v w" "v_table v w1 = v_table v w"
    by (auto simp: sqlite_documented_def close_doc_def)
  from doc fin have f: "v_table v w2 = v_table v w1" "v_open v w2 = v_open v w1"
    by (simp_all add: sqlite_documented_def finalize_doc_def)
  show "rc1 = SQLITE_BUSY" by (rule c)
  show "v_open v w2 = insert db (v_open v w0)" using c f s by (simp add: in_session_def)
  show "v_table v w2 = v_table v w" using c f by simp
qed

section \<open>Adding\<close>

text \<open>The three operations that change the table are instances of \<open>statement\<close>.\<close>

definition step_then ::
  "'w sqlite_api \<Rightarrow> (nat \<Rightarrow> nat \<Rightarrow> 'w \<Rightarrow> int \<times> 'w) \<Rightarrow> nat \<Rightarrow> nat \<Rightarrow> 'w \<Rightarrow> int \<times> 'w" where
  "step_then q k db st w =
     (let (rc, w) = sqlite3_step q st w in if rc \<noteq> SQLITE_DONE then (- 1, w) else k db st w)"

lemma AddMeme_statement:
  "AddMeme q template t_text b_text w =
     statement q insert_sql
       [(1, Sql_int (sint template)), (2, Sql_text (c_str t_text)), (3, Sql_text (c_str b_text))] (- 1)
       (step_then q (\<lambda>db st w.
          let new_id = signed_take_bit 31 (sqlite3_last_insert_rowid q db w);
              (_, w) = sqlite3_finalize q st w;
              (_, w) = sqlite3_close q db w
          in (new_id, w))) w"
  by (simp add: AddMeme_def statement_def step_then_def Let_def split: prod.split)

lemma DeleteMeme_statement:
  "DeleteMeme q i w =
     statement q delete_sql [(1, Sql_int (sint i))] (- 1)
       (step_then q (\<lambda>db st w.
          let (_, w) = sqlite3_close q db w; (_, w) = sqlite3_finalize q st w in (0, w))) w"
  by (simp add: DeleteMeme_def statement_def step_then_def Let_def split: prod.split)

lemma UpdateMeme_statement:
  "UpdateMeme q i template t_text b_text w =
     statement q update_sql
       [(4, Sql_int (sint i)), (1, Sql_int (sint template)), (2, Sql_text (c_str t_text)),
        (3, Sql_text (c_str b_text))] (- 1)
       (step_then q (\<lambda>db st w.
          let (_, w) = sqlite3_finalize q st w; (_, w) = sqlite3_close q db w in (sint i, w))) w"
  by (simp add: UpdateMeme_def statement_def step_then_def Let_def split: prod.split)

lemma with_binds_simps [simp]:
  "p_sql (with_binds bs p) = p_sql p" "p_db (with_binds bs p) = p_db p"
  "p_pending (with_binds bs p) = p_pending p"
  by (induction bs arbitrary: p; fastforce simp: with_binds_def)+

lemma fresh_prepared_simps [simp]:
  "p_sql (fresh_prepared db sql) = sql" "p_db (fresh_prepared db sql) = db"
  "p_binds (fresh_prepared db sql) = Map.empty" "p_pending (fresh_prepared db sql) = None"
  by (simp_all add: fresh_prepared_def)

definition added :: "'w sqlite_view \<Rightarrow> 'w \<Rightarrow> 'w \<Rightarrow> int \<Rightarrow> meme_row \<Rightarrow> bool" where
  "added v w w' r row \<longleftrightarrow> (\<exists>t i. v_table v w = Some t \<and> new_rowid t i \<and> v_table v w' = Some (t(i \<mapsto> row)) \<and>
     r = signed_take_bit 31 i \<and> v_open v w' = v_open v w \<and> v_stmt v w' = v_stmt v w)"

lemma session_stmt: "in_session v w0 db st p w \<Longrightarrow> v_stmt v w st = Some p"
  by (simp add: in_session_def)

lemma step_insert:
  assumes "sqlite_documented q v" and "v_stmt v w st = Some p" and "sqlite3_step q st w = (rc, w')"
    and "p_sql p = insert_sql" and "p_binds p 1 = Some (Sql_int a)"
    and "p_binds p 2 = Some (Sql_text b)" and "p_binds p 3 = Some (Sql_text c)"
  shows "v_stmt v w' = v_stmt v w"
    and "if rc = SQLITE_DONE
         then \<exists>t i. v_table v w = Some t \<and> new_rowid t i \<and>
           v_table v w' = Some (t(i \<mapsto> (a, Some b, Some c))) \<and>
           sqlite3_last_insert_rowid q (p_db p) w' = i
         else v_table v w' = v_table v w"
  using assms unfolding sqlite_documented_def step_doc_def by blast+

lemma step_delete:
  assumes "sqlite_documented q v" and "v_stmt v w st = Some p" and "sqlite3_step q st w = (rc, w')"
    and "p_sql p = delete_sql" and "p_binds p 1 = Some (Sql_int i)"
  shows "v_stmt v w' = v_stmt v w"
    and "v_table v w' = (if rc = SQLITE_DONE then map_option (\<lambda>t. t(i := None)) (v_table v w)
                         else v_table v w)"
  using assms unfolding sqlite_documented_def step_doc_def by blast+

lemma step_update:
  assumes "sqlite_documented q v" and "v_stmt v w st = Some p" and "sqlite3_step q st w = (rc, w')"
    and "p_sql p = update_sql" and "p_binds p 4 = Some (Sql_int i)" and "p_binds p 1 = Some (Sql_int a)"
    and "p_binds p 2 = Some (Sql_text b)" and "p_binds p 3 = Some (Sql_text c)"
  shows "v_stmt v w' = v_stmt v w"
    and "v_table v w' = (if rc = SQLITE_DONE
          then map_option (update_row i (a, Some b, Some c)) (v_table v w) else v_table v w)"
  using assms unfolding sqlite_documented_def step_doc_def by blast+

lemma AddMeme_cases:
  "sqlite_documented q v \<Longrightarrow> AddMeme q template t_text b_text w = (r, w') \<Longrightarrow>
   r = - 1 \<and> v_table v w' = v_table v w \<or>
   added v w w' r (sint template, Some (c_str t_text), Some (c_str b_text))"
proof -
  assume doc: "sqlite_documented q v" and run: "AddMeme q template t_text b_text w = (r, w')"
  show ?thesis
  proof (rule statement_cases [OF doc run [unfolded AddMeme_statement]])
    fix db st w1
    assume ran: "in_session v w db st (with_binds [(1, Sql_int (sint template)),
        (2, Sql_text (c_str t_text)), (3, Sql_text (c_str b_text))] (fresh_prepared db insert_sql)) w1"
      "v_table v w1 = v_table v w"
      "step_then q (\<lambda>db st w. let new_id = signed_take_bit 31 (sqlite3_last_insert_rowid q db w);
          (_, w) = sqlite3_finalize q st w; (_, w) = sqlite3_close q db w in (new_id, w)) db st w1 = (r, w')"
    let ?p = "with_binds [(1, Sql_int (sint template)), (2, Sql_text (c_str t_text)),
      (3, Sql_text (c_str b_text))] (fresh_prepared db insert_sql)"
    obtain rc w2 where st: "sqlite3_step q st w1 = (rc, w2)" by fastforce
    have binds: "p_binds ?p 1 = Some (Sql_int (sint template))"
      "p_binds ?p 2 = Some (Sql_text (c_str t_text))" "p_binds ?p 3 = Some (Sql_text (c_str b_text))"
      by (simp_all add: with_binds_def)
    note frame = step_insert(1) [OF doc session_stmt [OF ran(1)] st _ binds, simplified]
    have table: "if rc = SQLITE_DONE
         then \<exists>t i. v_table v w1 = Some t \<and> new_rowid t i \<and>
           v_table v w2 = Some (t(i \<mapsto> (sint template, Some (c_str t_text), Some (c_str b_text)))) \<and>
           sqlite3_last_insert_rowid q db w2 = i
         else v_table v w2 = v_table v w1"
      using step_insert(2) [OF doc session_stmt [OF ran(1)] st _ binds] by (auto split: if_splits)
    show ?thesis
    proof (cases "rc = SQLITE_DONE")
      case True
      obtain rc3 w3 where fin: "sqlite3_finalize q st w2 = (rc3, w3)" by fastforce
      obtain rc4 w4 where cl: "sqlite3_close q db w3 = (rc4, w4)" by fastforce
      note s2 = session_step_frame [OF doc ran(1) frame st]
      note closed = session_finish [OF doc s2 fin cl]
      from ran(3) st True fin cl
      have "w' = w4" and "r = signed_take_bit 31 (sqlite3_last_insert_rowid q db w2)"
        by (simp_all add: step_then_def)
      with closed table True ran(2) show ?thesis by (auto simp: added_def)
    next
      case False
      with ran st table show ?thesis by (simp add: step_then_def)
    qed
  qed simp
qed

text \<open>
  Adding a meme is all or nothing: either -1 is returned and the table is as
  before, or exactly one row was added under an unused rowid, with the template's 32 bits and
  both texts up to their first NUL byte, the result is the rowid as an \<open>int\<close>, and every
  connection and statement opened on the way is closed again.
\<close>

theorem AddMeme_adds:
  "sqlite_documented q v \<Longrightarrow> AddMeme q template t_text b_text w = (r, w') \<Longrightarrow>
   r = - 1 \<and> v_table v w' = v_table v w \<or>
   added v w w' r (sint template, Some (c_str t_text), Some (c_str b_text))"
  by (rule AddMeme_cases)

lemma AddMeme_adds_witness:
  "\<exists>r w'. AddMeme mem_api 3 ''hi'' ''you'' (empty_world\<lparr>m_table := Some []\<rparr>) = (r, w') \<and> r = 1 \<and>
     added mem_view (empty_world\<lparr>m_table := Some []\<rparr>) w' r (3, Some ''hi'', Some ''you'')"
proof -
  let ?w = "empty_world\<lparr>m_table := Some []\<rparr>"
  have "fst (AddMeme mem_api 3 ''hi'' ''you'' ?w) = 1" by code_simp
  then obtain w' where run: "AddMeme mem_api 3 ''hi'' ''you'' ?w = (1, w')"
    by (metis prod.collapse)
  have "sint (3 :: uint32_t) = 3" and "c_str ''hi'' = ''hi''" and "c_str ''you'' = ''you''"
    by code_simp+
  with run AddMeme_adds [OF mem_documented run] show ?thesis by auto
qed

section \<open>Deleting and updating\<close>

lemma DeleteMeme_cases:
  "sqlite_documented q v \<Longrightarrow> DeleteMeme q i w = (r, w') \<Longrightarrow>
   r = - 1 \<and> v_table v w' = v_table v w \<or>
   r = 0 \<and> v_table v w' = map_option (\<lambda>t. t(sint i := None)) (v_table v w) \<and>
   (\<exists>db. db \<notin> v_open v w \<and> v_open v w' = insert db (v_open v w))"
proof -
  assume doc: "sqlite_documented q v" and run: "DeleteMeme q i w = (r, w')"
  show ?thesis
  proof (rule statement_cases [OF doc run [unfolded DeleteMeme_statement]])
    fix db st w1
    assume ran: "in_session v w db st (with_binds [(1, Sql_int (sint i))] (fresh_prepared db delete_sql)) w1"
      "v_table v w1 = v_table v w"
      "step_then q (\<lambda>db st w. let (_, w) = sqlite3_close q db w;
          (_, w) = sqlite3_finalize q st w in (0, w)) db st w1 = (r, w')"
    obtain rc w2 where st: "sqlite3_step q st w1 = (rc, w2)" by fastforce
    have "p_binds (with_binds [(1, Sql_int (sint i))] (fresh_prepared db delete_sql)) 1 = Some (Sql_int (sint i))"
      by (simp add: with_binds_def)
    note del = step_delete [OF doc session_stmt [OF ran(1)] st _ this, simplified]
    show ?thesis
    proof (cases "rc = SQLITE_DONE")
      case True
      obtain rc3 w3 where cl: "sqlite3_close q db w2 = (rc3, w3)" by fastforce
      obtain rc4 w4 where fin: "sqlite3_finalize q st w3 = (rc4, w4)" by fastforce
      note s2 = session_step_frame [OF doc ran(1) del(1) st]
      note leak = session_leak [OF doc s2 cl fin]
      from ran(3) st True fin cl have "w' = w4" and "r = 0" by (simp_all add: step_then_def)
      with leak del(2) True ran(2) s2 show ?thesis by (auto simp: in_session_def)
    next
      case False
      with ran st del(2) show ?thesis by (simp add: step_then_def)
    qed
  qed simp
qed

text \<open>
  Claim C32. Deleting a meme removes exactly the row with that rowid (an identifier of 2^31 or
  more stands for a negative rowid), or returns -1 and changes nothing. On every success the
  connection stays open: it is closed while the statement is still there, which SQLite
  refuses.
\<close>

theorem DeleteMeme_deletes_and_leaks:
  "sqlite_documented q v \<Longrightarrow> DeleteMeme q i w = (r, w') \<Longrightarrow>
   r = - 1 \<and> v_table v w' = v_table v w \<or>
   r = 0 \<and> v_table v w' = map_option (\<lambda>t. t(sint i := None)) (v_table v w) \<and>
   (\<exists>db. db \<notin> v_open v w \<and> v_open v w' = insert db (v_open v w))"
  by (rule DeleteMeme_cases)

lemma DeleteMeme_deletes_and_leaks_witness:
  "\<exists>w'. DeleteMeme mem_api 1 (empty_world\<lparr>m_table := Some [(1, 3, None, None)]\<rparr>) = (0, w') \<and>
     v_table mem_view w' = Some Map.empty \<and> v_open mem_view w' \<noteq> {}"
proof -
  let ?w = "empty_world\<lparr>m_table := Some [(1, 3, None, None)]\<rparr>"
  have "fst (DeleteMeme mem_api 1 ?w) = 0" by code_simp
  then obtain w' where run: "DeleteMeme mem_api 1 ?w = (0, w')" by (metis prod.collapse)
  have "sint (1 :: uint32_t) = 1" by code_simp
  with run DeleteMeme_deletes_and_leaks [OF mem_documented run] show ?thesis
    by (auto simp: mem_view_def)
qed

lemma UpdateMeme_cases:
  "sqlite_documented q v \<Longrightarrow> UpdateMeme q i template t_text b_text w = (r, w') \<Longrightarrow>
   r = - 1 \<and> v_table v w' = v_table v w \<or>
   r = sint i \<and> v_open v w' = v_open v w \<and> v_stmt v w' = v_stmt v w \<and>
   v_table v w' = map_option (update_row (sint i) (sint template, Some (c_str t_text), Some (c_str b_text)))
     (v_table v w)"
proof -
  assume doc: "sqlite_documented q v" and run: "UpdateMeme q i template t_text b_text w = (r, w')"
  show ?thesis
  proof (rule statement_cases [OF doc run [unfolded UpdateMeme_statement]])
    let ?bs = "[(4, Sql_int (sint i)), (1, Sql_int (sint template)), (2, Sql_text (c_str t_text)),
      (3, Sql_text (c_str b_text))]"
    fix db st w1
    assume ran: "in_session v w db st (with_binds ?bs (fresh_prepared db update_sql)) w1"
      "v_table v w1 = v_table v w"
      "step_then q (\<lambda>db st w. let (_, w) = sqlite3_finalize q st w;
          (_, w) = sqlite3_close q db w in (sint i, w)) db st w1 = (r, w')"
    obtain rc w2 where st: "sqlite3_step q st w1 = (rc, w2)" by fastforce
    let ?p = "with_binds ?bs (fresh_prepared db update_sql)"
    have binds: "p_binds ?p 4 = Some (Sql_int (sint i))" "p_binds ?p 1 = Some (Sql_int (sint template))"
      "p_binds ?p 2 = Some (Sql_text (c_str t_text))" "p_binds ?p 3 = Some (Sql_text (c_str b_text))"
      by (simp_all add: with_binds_def)
    note upd = step_update [OF doc session_stmt [OF ran(1)] st _ binds, simplified]
    show ?thesis
    proof (cases "rc = SQLITE_DONE")
      case True
      obtain rc3 w3 where fin: "sqlite3_finalize q st w2 = (rc3, w3)" by fastforce
      obtain rc4 w4 where cl: "sqlite3_close q db w3 = (rc4, w4)" by fastforce
      note s2 = session_step_frame [OF doc ran(1) upd(1) st]
      note closed = session_finish [OF doc s2 fin cl]
      from ran(3) st True fin cl have "w' = w4" and "r = sint i" by (simp_all add: step_then_def)
      with closed upd(2) True ran(2) show ?thesis by simp
    next
      case False
      with ran st upd(2) show ?thesis by (simp add: step_then_def)
    qed
  qed simp
qed

text \<open>
  Claim C31. Updating a meme replaces exactly the row with that rowid, or returns -1 and
  changes nothing. When there is no such row nothing changes either, but the identifier is
  returned as if the update had worked.
\<close>

theorem UpdateMeme_updates:
  "sqlite_documented q v \<Longrightarrow> UpdateMeme q i template t_text b_text w = (r, w') \<Longrightarrow>
   r = - 1 \<and> v_table v w' = v_table v w \<or>
   r = sint i \<and> v_open v w' = v_open v w \<and> v_stmt v w' = v_stmt v w \<and>
   v_table v w' = map_option (update_row (sint i) (sint template, Some (c_str t_text), Some (c_str b_text)))
     (v_table v w)"
  by (rule UpdateMeme_cases)

lemma UpdateMeme_updates_witness:
  "\<exists>w'. UpdateMeme mem_api 7 3 ''a'' ''b'' (empty_world\<lparr>m_table := Some []\<rparr>) = (7, w') \<and>
     v_table mem_view w' = Some Map.empty"
proof -
  let ?w = "empty_world\<lparr>m_table := Some []\<rparr>"
  have "fst (UpdateMeme mem_api 7 3 ''a'' ''b'' ?w) = 7" by code_simp
  then obtain w' where run: "UpdateMeme mem_api 7 3 ''a'' ''b'' ?w = (7, w')" by (metis prod.collapse)
  with UpdateMeme_updates [OF mem_documented run] show ?thesis
    by (auto simp: mem_view_def empty_world_def update_row_def)
qed

section \<open>Reading one meme\<close>

text \<open>A stored row as a meme, and the hypothesis that queries for one row do not fail.\<close>

definition meme_of :: "int \<times> meme_row \<Rightarrow> Meme" where
  "meme_of r = (case r of (i, (a, b, c)) \<Rightarrow>
     \<lparr>meme_id = word_of_int i, template_id = word_of_int a, top_text = the b, bottom_text = the c\<rparr>)"

definition queries_succeed :: "'w sqlite_api \<Rightarrow> 'w sqlite_view \<Rightarrow> bool" where
  "queries_succeed q v \<longleftrightarrow>
     (\<forall>n w. fst (fst (sqlite3_open q n w)) = SQLITE_OK) \<and>
     (\<forall>db k w. v_table v w \<noteq> None \<longrightarrow> fst (fst (sqlite3_exec q db (select_id_sql k) w)) = SQLITE_OK)"

lemma mem_queries_succeed: "queries_succeed mem_api mem_view"
  by (auto simp: queries_succeed_def mem_api_def mem_view_def mem_open_def mem_exec_def
      select_id_distinct select_id_text Let_def split: option.splits)

definition full_row :: "int \<times> meme_row \<Rightarrow> bool" where
  "full_row r \<longleftrightarrow> fits_int (fst r) \<and> fits_int (fst (snd r)) \<and> fst (snd (snd r)) \<noteq> None \<and> snd (snd (snd r)) \<noteq> None"

lemma callback_row: "full_row r \<Longrightarrow> callback_GetMeme m (argv_of r) = Inr (meme_of r)"
  by (cases r) (auto simp: callback_GetMeme_def argv_at_def full_row_def meme_of_def stoi_to_string)

lemma exec_id:
  assumes "sqlite_documented q v" and "sqlite3_exec q db (select_id_sql k) w = ((rc, rows), w')"
    and "db \<in> v_open v w"
  shows "v_table v w' = v_table v w" and "v_open v w' = v_open v w" and "v_stmt v w' = v_stmt v w"
    and "rows = [] \<and> rc \<noteq> SQLITE_OK \<or> (\<exists>t. v_table v w = Some t \<and>
      rows = (case t k of None \<Rightarrow> [] | Some r \<Rightarrow> [argv_of (k, r)]))"
  using assms unfolding sqlite_documented_def exec_doc_def by blast+

lemma open_succeeds:
  assumes "queries_succeed q v"
  obtains db w1 where "sqlite3_open q n w = ((SQLITE_OK, db), w1)"
  using assms unfolding queries_succeed_def by (metis prod.collapse)

lemma GetMeme_query:
  assumes doc: "sqlite_documented q v" and succ: "queries_succeed q v" and t: "v_table v w = Some t"
    and full: "\<forall>r. t (uint i) = Some r \<longrightarrow> full_row (uint i, r)"
  shows "fst (GetMeme q stack i w) =
    Inr (case t (uint i) of None \<Rightarrow> declared_Meme stack | Some r \<Rightarrow> meme_of (uint i, r))"
proof -
  obtain db w1 where op: "sqlite3_open q ''amazon.db'' w = ((SQLITE_OK, db), w1)"
    using open_succeeds [OF succ] by blast
  note o = opened [OF doc op]
  have t1: "v_table v w1 = Some t" using open_table [OF doc op] t by simp
  obtain rc rows w2 where ex: "sqlite3_exec q db (select_id_sql (uint i)) w1 = ((rc, rows), w2)"
    by (metis surj_pair)
  have "rc = SQLITE_OK"
    using succ t1 ex unfolding queries_succeed_def by (metis fst_conv option.distinct(1))
  with exec_id(4) [OF doc ex] o t1
  have rows: "rows = (case t (uint i) of None \<Rightarrow> [] | Some r \<Rightarrow> [argv_of (uint i, r)])" by auto
  have run: "run_GetMeme (declared_Meme stack) rows =
      Inr (case t (uint i) of None \<Rightarrow> declared_Meme stack | Some r \<Rightarrow> meme_of (uint i, r))"
  proof (cases "t (uint i)")
    case (Some r)
    then have "full_row (uint i, r)" using full by simp
    from callback_row [OF this] show ?thesis by (simp add: rows Some del: argv_of.simps)
  qed (simp add: rows)
  show ?thesis
    by (cases "sqlite3_close q db w2") (simp add: GetMeme_def op ex run SQLITE_OK_def)
qed

lemma word32_of_sint [simp]: "word_of_int (sint (x :: uint32_t)) = x"
  by simp

lemma fits_sint: "fits_int (sint (x :: uint32_t))"
  using sint_greater_eq [of x] sint_less [of x] by (simp add: fits_int_def int_min_def int_max_def)

text \<open>The rowids of a table that only ever held less than \<open>2^31 - 1\<close> memes.\<close>

definition small_ids :: "meme_table \<Rightarrow> bool" where
  "small_ids t \<longleftrightarrow> (\<forall>i \<in> dom t. 0 < i \<and> i < int_max)"

lemma small_idsD: "small_ids t \<Longrightarrow> i \<in> dom t \<Longrightarrow> 0 < i \<and> i < int_max"
  by (simp add: small_ids_def)

lemma new_rowid_small:
  assumes "small_ids t" and "new_rowid t i"
  shows "0 < i" and "i \<le> int_max"
proof -
  have "\<forall>j \<in> dom t. j < 2 ^ 63 - 1"
  proof
    fix j
    assume "j \<in> dom t"
    with assms(1) have "j < int_max" by (simp add: small_ids_def)
    then show "j < 2 ^ 63 - 1" by (simp add: int_max_def)
  qed
  with assms(2) have i: "i = (if dom t = {} then 1 else Max (dom t) + 1)" by (simp add: new_rowid_def)
  have "finite (dom t)"
    using small_idsD [OF assms(1)] by (intro finite_subset [of "dom t" "{0..int_max}"]) force+
  then have "dom t \<noteq> {} \<Longrightarrow> 0 < Max (dom t) \<and> Max (dom t) < int_max"
    using small_idsD [OF assms(1), of "Max (dom t)"] by simp
  with i show "0 < i" and "i \<le> int_max"
    by (auto simp: int_max_def split: if_splits)
qed

lemma AddMeme_row:
  assumes doc: "sqlite_documented q v" and t: "v_table v w = Some t" and small: "small_ids t"
    and run: "AddMeme q template t_text b_text w = (r, w')" and ok: "r \<noteq> - 1"
  shows "t r = None" and "0 < r" and "r \<le> int_max"
    and "v_table v w' = Some (t(r \<mapsto> (sint template, Some (c_str t_text), Some (c_str b_text))))"
proof -
  from AddMeme_cases [OF doc run] ok t obtain i where new: "new_rowid t i"
    and t': "v_table v w' = Some (t(i \<mapsto> (sint template, Some (c_str t_text), Some (c_str b_text))))"
    and r: "r = signed_take_bit 31 i" by (auto simp: added_def)
  note i = new_rowid_small [OF small new]
  then have "r = i" by (simp add: r int_max_def signed_take_bit_int_eq_self)
  with i new t' show "t r = None" and "0 < r" and "r \<le> int_max"
    and "v_table v w' = Some (t(r \<mapsto> (sint template, Some (c_str t_text), Some (c_str b_text))))"
    by (simp_all add: new_rowid_def)
qed

lemma AddMeme_failed:
  assumes doc: "sqlite_documented q v" and t: "v_table v w = Some t" and small: "small_ids t"
    and run: "AddMeme q template t_text b_text w = (- 1, w')"
  shows "v_table v w' = Some t"
proof (rule ccontr)
  assume "v_table v w' \<noteq> Some t"
  with AddMeme_cases [OF doc run] t obtain i where new: "new_rowid t i" and r: "- 1 = signed_take_bit 31 i"
    by (auto simp: added_def)
  with new_rowid_small [OF small new] show False by (simp add: int_max_def signed_take_bit_int_eq_self)
qed

lemma GetMeme_row:
  assumes doc: "sqlite_documented q v" and succ: "queries_succeed q v" and t: "v_table v w = Some t"
    and row: "t i = Some (sint template, Some a, Some b)" and i: "0 < i" "i \<le> int_max"
  shows "fst (GetMeme q stack (word_of_int i) w) =
    Inr \<lparr>meme_id = word_of_int i, template_id = template, top_text = a, bottom_text = b\<rparr>"
proof -
  have ui: "uint (word_of_int i :: uint32_t) = i"
    using i by (simp add: int_max_def uint_word_of_int_eq take_bit_int_eq_self)
  have "full_row (i, (sint template, Some a, Some b))"
    using i fits_sint [of template] by (simp add: full_row_def fits_int_def int_min_def int_max_def)
  then show ?thesis
    using GetMeme_query [OF doc succ t, of "word_of_int i" stack] ui row by (simp add: meme_of_def)
qed

lemma GetMeme_table:
  assumes doc: "sqlite_documented q v" and run: "GetMeme q stack i w = (out, w')"
  shows "v_table v w' = v_table v w"
proof -
  obtain rc db w1 where op: "sqlite3_open q ''amazon.db'' w = ((rc, db), w1)" by (metis surj_pair)
  note t1 = open_table [OF doc op]
  show ?thesis
  proof (cases "rc = SQLITE_OK")
    case False
    with run op t1 show ?thesis by (simp add: GetMeme_def SQLITE_OK_def)
  next
    case ok: True
    obtain rc2 rows w2 where ex: "sqlite3_exec q db (select_id_sql (uint i)) w1 = ((rc2, rows), w2)"
      by (metis surj_pair)
    have db1: "db \<in> v_open v w1" using opened(2) [OF doc op [unfolded ok]] by simp
    note e = exec_id [OF doc ex db1]
    obtain rc3 w3 where cl: "sqlite3_close q db w2 = (rc3, w3)" by fastforce
    have "v_table v w3 = v_table v w2"
      using doc cl db1 e(2) unfolding sqlite_documented_def close_doc_def by metis
    with run op ok ex cl t1 e(1) show ?thesis
      by (auto simp: GetMeme_def SQLITE_OK_def split: sum.splits)
  qed
qed

text \<open>
  What was added is read back: after a successful \<open>AddMeme\<close> on a table with small
  positive rowids, \<open>GetMeme\<close> with the returned identifier gives a meme with that identifier,
  the full 32 bits of the template and the two texts up to their first NUL byte.
\<close>

theorem AddMeme_GetMeme:
  "sqlite_documented q v \<Longrightarrow> queries_succeed q v \<Longrightarrow> v_table v w = Some t \<Longrightarrow> small_ids t \<Longrightarrow>
   AddMeme q template t_text b_text w = (r, w') \<Longrightarrow> r \<noteq> - 1 \<Longrightarrow>
   fst (GetMeme q stack (word_of_int r) w') =
     Inr \<lparr>meme_id = word_of_int r, template_id = template, top_text = c_str t_text, bottom_text = c_str b_text\<rparr>"
proof -
  assume doc: "sqlite_documented q v" and succ: "queries_succeed q v" and t: "v_table v w = Some t"
    and small: "small_ids t" and run: "AddMeme q template t_text b_text w = (r, w')" and ok: "r \<noteq> - 1"
  note row = AddMeme_row [OF doc t small run ok]
  show ?thesis by (rule GetMeme_row [OF doc succ row(4) _ row(2,3)]) simp
qed

lemma AddMeme_GetMeme_witness:
  "\<exists>w'. AddMeme mem_api 4000000000 ''hi'' ''you'' (empty_world\<lparr>m_table := Some []\<rparr>) = (1, w') \<and>
     fst (GetMeme mem_api (0, 0) 1 w') =
       Inr \<lparr>meme_id = 1, template_id = 4000000000, top_text = c_str ''hi'', bottom_text = c_str ''you''\<rparr>"
proof -
  let ?w = "empty_world\<lparr>m_table := Some []\<rparr>"
  have "fst (AddMeme mem_api 4000000000 ''hi'' ''you'' ?w) = 1" by code_simp
  then obtain w' where run: "AddMeme mem_api 4000000000 ''hi'' ''you'' ?w = (1, w')"
    by (metis prod.collapse)
  have "v_table mem_view ?w = Some Map.empty" by (simp add: mem_view_def)
  from run AddMeme_GetMeme [OF mem_documented mem_queries_succeed this _ run, of "(0, 0)"]
  show ?thesis by (auto simp: small_ids_def)
qed

end
