(* ===== verification/Database_Search.thy ===== *)
theory Database_Search
  imports Database_Spec
begin

text \<open>
  Searching, and creating the table. \<open>FindMemes\<close> is shown to return, and to find exactly the
  memes one of whose texts contains the words up to case; \<open>Init\<close> keeps every row.
\<close>

section \<open>Patterns\<close>

lemma like_any: "sql_like (CHR ''%'' # ps) t \<longleftrightarrow> (\<exists>u v. t = u @ v \<and> sql_like ps v)"
proof (induction t)
  case Nil
  then show ?case by simp
next
  case (Cons c t)
  show ?case
  proof
    assume "sql_like (CHR ''%'' # ps) (c # t)"
    then have "sql_like ps (c # t) \<or> sql_like (CHR ''%'' # ps) t" by simp
    then show "\<exists>u v. c # t = u @ v \<and> sql_like ps v"
    proof
      assume "sql_like (CHR ''%'' # ps) t"
      then obtain u v where "t = u @ v" and "sql_like ps v" using Cons.IH by blast
      then have "c # t = (c # u) @ v \<and> sql_like ps v" by simp
      then show ?thesis by blast
    qed (intro exI [of _ "[]"] exI [of _ "c # t"], simp)
  next
    assume "\<exists>u v. c # t = u @ v \<and> sql_like ps v"
    then obtain u v where uv: "c # t = u @ v" "sql_like ps v" by blast
    show "sql_like (CHR ''%'' # ps) (c # t)"
    proof (cases u)
      case Nil
      with uv have "sql_like ps (c # t)" by simp
      then show ?thesis by simp
    next
      case (Cons d u')
      with uv have "sql_like (CHR ''%'' # ps) t" using Cons.IH by auto
      then show ?thesis by simp
    qed
  qed
qed

definition plain_words :: "string \<Rightarrow> bool" where
  "plain_words s \<longleftrightarrow> CHR ''%'' \<notin> set s \<and> CHR ''_'' \<notin> set s \<and> CHR 0x00 \<notin> set s"

lemma like_plain:
  "CHR ''%'' \<notin> set s \<Longrightarrow> CHR ''_'' \<notin> set s \<Longrightarrow>
   sql_like (s @ ''%'') t \<longleftrightarrow> (\<exists>u v. t = u @ v \<and> map to_lower u = map to_lower s)"
proof (induction s arbitrary: t)
  case Nil
  have "sql_like ''%'' t"
    using like_any [of "[]" t] by (auto intro: exI [of _ t])
  then show ?case by auto
next
  case (Cons c s)
  show ?case
  proof (cases t)
    case Nil
    with Cons show ?thesis by auto
  next
    case (Cons d t')
    have "(\<exists>u v. d # t' = u @ v \<and> map to_lower u = map to_lower (c # s)) \<longleftrightarrow>
        to_lower c = to_lower d \<and> (\<exists>u v. t' = u @ v \<and> map to_lower u = map to_lower s)"
      by (auto simp: Cons_eq_append_conv) (metis append_Cons list.simps(9))
    moreover have "c \<noteq> CHR ''%''" and "c \<noteq> CHR ''_''" using "Cons.prems" by auto
    ultimately show ?thesis using Cons "Cons.IH" [of t'] "Cons.prems" by simp
  qed
qed

text \<open>Containment up to case.\<close>

definition contains_words :: "string \<Rightarrow> string \<Rightarrow> bool" where
  "contains_words s t \<longleftrightarrow> sublist (map to_lower s) (map to_lower t)"

lemma like_contains:
  assumes "plain_words s"
  shows "sql_like (c_str (''%'' @ s @ ''%'')) t \<longleftrightarrow> contains_words s t"
proof -
  have "c_str (''%'' @ s @ ''%'') = CHR ''%'' # s @ ''%''"
    using assms by (auto simp: c_str_def plain_words_def takeWhile_eq_all_conv)
  then have "sql_like (c_str (''%'' @ s @ ''%'')) t \<longleftrightarrow>
      (\<exists>u v w. t = u @ v @ w \<and> map to_lower v = map to_lower s)"
    using assms by (simp add: like_any like_plain plain_words_def) metis
  also have "\<dots> \<longleftrightarrow> contains_words s t"
    by (auto simp: contains_words_def sublist_def map_eq_append_conv append_eq_map_conv)
      (metis map_append)+
  finally show ?thesis .
qed

section \<open>The loop over the rows\<close>

definition texts_present :: "meme_table \<Rightarrow> bool" where
  "texts_present t \<longleftrightarrow> (\<forall>i a b c. t i = Some (a, b, c) \<longrightarrow> b \<noteq> None \<and> c \<noteq> None)"

definition has_texts :: "int \<times> meme_row \<Rightarrow> bool" where
  "has_texts r \<longleftrightarrow> fst (snd (snd r)) \<noteq> None \<and> snd (snd (snd r)) \<noteq> None"

definition can_step :: "'w sqlite_view \<Rightarrow> 'w \<Rightarrow> prepared \<Rightarrow> bool" where
  "can_step v w p \<longleftrightarrow> p_pending p \<noteq> None \<or>
     v_table v w \<noteq> None \<and> (\<exists>x. p_binds p 1 = Some (Sql_text x)) \<and> (\<exists>y. p_binds p 2 = Some (Sql_text y))"

text \<open>The hypothesis that no call of a search fails.\<close>

definition searches_succeed :: "'w sqlite_api \<Rightarrow> 'w sqlite_view \<Rightarrow> bool" where
  "searches_succeed q v \<longleftrightarrow>
     (\<forall>n w. fst (fst (sqlite3_open q n w)) = SQLITE_OK) \<and>
     (\<forall>db w. fst (fst (sqlite3_prepare_v2 q db select_like_sql w)) = SQLITE_OK) \<and>
     (\<forall>st p i t w. v_stmt v w st = Some p \<longrightarrow> fst (sqlite3_bind_text q st i t w) = SQLITE_OK) \<and>
     (\<forall>st p w. v_stmt v w st = Some p \<longrightarrow> p_sql p = select_like_sql \<longrightarrow> can_step v w p \<longrightarrow>
        fst (sqlite3_step q st w) \<in> {SQLITE_ROW, SQLITE_DONE})"

lemma step_like:
  assumes "sqlite_documented q v" and "v_stmt v w st = Some p" and "sqlite3_step q st w = (rc, w')"
    and "p_sql p = select_like_sql"
  shows "v_table v w' = v_table v w" and "v_open v w' = v_open v w"
    and "if rc = SQLITE_ROW
         then \<exists>r rs. pending_rows v w p (r # rs) \<and>
           v_stmt v w' = (v_stmt v w)(st \<mapsto> p\<lparr>p_pending := Some rs, p_current := Some r\<rparr>)
         else v_stmt v w' = v_stmt v w \<and> (rc = SQLITE_DONE \<longrightarrow> pending_rows v w p [])"
  using assms unfolding sqlite_documented_def step_doc_def by blast+

lemma columns:
  assumes "sqlite_documented q v" and "v_stmt v w st = Some p" and "p_current p = Some (i, (a, b, c))"
  shows "sqlite3_column_int q st 0 w = signed_take_bit 31 i"
    and "sqlite3_column_int q st 1 w = signed_take_bit 31 a"
    and "sqlite3_column_text q st 2 w = b" and "sqlite3_column_text q st 3 w = c"
  using assms unfolding sqlite_documented_def column_doc_def by blast+

lemma word_of_signed [simp]: "(word_of_int (signed_take_bit 31 k) :: uint32_t) = word_of_int k"
proof (rule bit_word_eqI)
  fix n
  assume "n < LENGTH(32)"
  then have "min n 31 = n" by simp
  then show "bit (word_of_int (signed_take_bit 31 k) :: uint32_t) n = bit (word_of_int k :: uint32_t) n"
    by (simp add: bit_word_of_int_iff bit_signed_take_bit_iff min.commute)
qed

text \<open>
  One round: the loop stops, or takes the next row and continues with the rest.
\<close>

lemma loop_round:
  assumes doc: "sqlite_documented q v" and s: "in_session v w0 db st p w"
    and sql: "p_sql p = select_like_sql" and st: "sqlite3_step q st w = (rc, w1)"
    and texts: "\<And>rs. pending_rows v w p rs \<Longrightarrow> list_all has_texts rs"
  shows "if rc = SQLITE_ROW
    then \<exists>r rs p'. pending_rows v w p (r # rs) \<and> in_session v w0 db st p' w1 \<and>
      p_sql p' = select_like_sql \<and> p_pending p' = Some rs \<and>
      FindMemes_loop q st memes w = FindMemes_loop q st (memes @ [meme_of r]) w1
    else FindMemes_loop q st memes w = Some (Inr memes, w1) \<and> in_session v w0 db st p w1 \<and>
      (rc = SQLITE_DONE \<longrightarrow> pending_rows v w p [])"
proof -
  note step = step_like [OF doc session_stmt [OF s] st sql]
  show ?thesis
  proof (cases "rc = SQLITE_ROW")
    case True
    with step(3) obtain r rs where pend: "pending_rows v w p (r # rs)"
      and stmt: "v_stmt v w1 = (v_stmt v w)(st \<mapsto> p\<lparr>p_pending := Some rs, p_current := Some r\<rparr>)"
      by auto
    let ?p = "p\<lparr>p_pending := Some rs, p_current := Some r\<rparr>"
    have s1: "in_session v w0 db st ?p w1"
      using s step(2) stmt by (simp add: in_session_def)
    obtain i a b c where r: "r = (i, (a, Some b, Some c))"
      using texts [OF pend] by (cases r) (auto simp: has_texts_def)
    note cols = columns [OF doc session_stmt [OF s1], of i a "Some b" "Some c"]
    have "FindMemes_loop q st memes w = FindMemes_loop q st (memes @ [meme_of r]) w1"
      by (subst FindMemes_loop.simps) (simp add: st True cols cols(2) [simplified] r meme_of_def)
    with pend s1 sql have "pending_rows v w p (r # rs) \<and> in_session v w0 db st ?p w1 \<and>
        p_sql ?p = select_like_sql \<and> p_pending ?p = Some rs \<and>
        FindMemes_loop q st memes w = FindMemes_loop q st (memes @ [meme_of r]) w1" by simp
    with True show ?thesis by metis
  next
    case False
    with step(3) have "v_stmt v w1 = v_stmt v w" and "rc = SQLITE_DONE \<longrightarrow> pending_rows v w p []" by simp_all
    moreover have "FindMemes_loop q st memes w = Some (Inr memes, w1)"
      using False by (subst FindMemes_loop.simps) (simp add: st)
    ultimately show ?thesis using s step(2) False by (simp add: in_session_def)
  qed
qed

lemma loop_rest:
  assumes doc: "sqlite_documented q v" and succ: "searches_succeed q v"
  shows "in_session v w0 db st p w \<Longrightarrow> p_sql p = select_like_sql \<Longrightarrow> p_pending p = Some rs \<Longrightarrow>
    list_all has_texts rs \<Longrightarrow>
    \<exists>w1 p'. FindMemes_loop q st memes w = Some (Inr (memes @ map meme_of rs), w1) \<and>
      in_session v w0 db st p' w1 \<and> v_table v w1 = v_table v w"
proof (induction rs arbitrary: memes p w)
  case Nil
  obtain rc w1 where st: "sqlite3_step q st w = (rc, w1)" by fastforce
  have pend: "pending_rows v w p rs' \<longleftrightarrow> rs' = []" for rs' using Nil by (simp add: pending_rows_def)
  from step_like(1) [OF doc session_stmt [OF Nil(1)] st Nil(2)]
  have "v_table v w1 = v_table v w" .
  moreover note loop_round [OF doc Nil(1,2) st, of memes]
  ultimately show ?case by (auto simp: pend split: if_splits)
next
  case (Cons r rs)
  obtain rc w1 where st: "sqlite3_step q st w = (rc, w1)" by fastforce
  have pend: "pending_rows v w p rs' \<longleftrightarrow> rs' = r # rs" for rs' using Cons by (simp add: pending_rows_def)
  have t1: "v_table v w1 = v_table v w"
    using step_like(1) [OF doc session_stmt [OF Cons(2)] st Cons(3)] .
  have "can_step v w p" using Cons(4) by (simp add: can_step_def)
  then have "rc \<in> {SQLITE_ROW, SQLITE_DONE}"
    using succ session_stmt [OF Cons(2)] Cons(3) st unfolding searches_succeed_def by (metis fst_conv)
  moreover have texts: "pending_rows v w p rs' \<Longrightarrow> list_all has_texts rs'" for rs'
    using Cons(5) by (simp add: pend)
  note round = loop_round [OF doc Cons(2,3) st texts, of memes]
  ultimately obtain p' where "in_session v w0 db st p' w1" "p_sql p' = select_like_sql"
    "p_pending p' = Some rs"
    and loop: "FindMemes_loop q st memes w = FindMemes_loop q st (memes @ [meme_of r]) w1"
    using round by (auto simp: pend split: if_splits)
  from Cons.IH [OF this(1-3), of "memes @ [meme_of r]"] Cons(5) t1 loop show ?case by simp
qed

section \<open>The search\<close>

lemma FindMemes_rows:
  assumes doc: "sqlite_documented q v" and succ: "searches_succeed q v"
    and t: "v_table v w = Some t" and texts: "texts_present t"
  shows "\<exists>rs w'. FindMemes q s w = Some (Inr (map meme_of rs), w') \<and>
    table_rows t (like_row (c_str (''%'' @ s @ ''%'')) (c_str (''%'' @ s @ ''%''))) rs \<and>
    v_table v w' = Some t \<and> v_open v w' = v_open v w"
proof -
  let ?pat = "c_str (''%'' @ s @ ''%'')"
  obtain db w1 where op: "sqlite3_open q ''amazon.db'' w = ((SQLITE_OK, db), w1)"
    using succ unfolding searches_succeed_def by (metis prod.collapse)
  obtain st w2 where pr: "sqlite3_prepare_v2 q db select_like_sql w1 = ((SQLITE_OK, st), w2)"
    using succ unfolding searches_succeed_def by (metis prod.collapse)
  note s2 = session_start [OF doc op pr]
  obtain w3 where b1: "sqlite3_bind_text q st 1 ?pat w2 = (SQLITE_OK, w3)"
    using succ session_stmt [OF s2(1)] unfolding searches_succeed_def by (metis prod.collapse)
  have "bound v st 1 (Sql_text ?pat) w2 (sqlite3_bind_text q st 1 ?pat w2)"
    using bind_value_bound [OF doc, of st 1 "Sql_text ?pat" w2] by simp
  note s3 = session_bound [OF this s2(1) b1]
  obtain w4 where b2: "sqlite3_bind_text q st 2 ?pat w3 = (SQLITE_OK, w4)"
    using succ session_stmt [OF s3(1)] unfolding searches_succeed_def by (metis prod.collapse)
  have "bound v st 2 (Sql_text ?pat) w3 (sqlite3_bind_text q st 2 ?pat w3)"
    using bind_value_bound [OF doc, of st 2 "Sql_text ?pat" w3] by simp
  note s4 = session_bound [OF this s3(1) b2]
  define p where "p = (let p = fresh_prepared db select_like_sql; p = p\<lparr>p_binds := (p_binds p)(1 \<mapsto> Sql_text ?pat)\<rparr>
    in p\<lparr>p_binds := (p_binds p)(2 \<mapsto> Sql_text ?pat)\<rparr>)"
  have s: "in_session v w db st p w4" using s4(1) by (simp add: p_def Let_def)
  have t4: "v_table v w4 = Some t" using s4(2) s3(2) s2(2) t by simp
  have sql: "p_sql p = select_like_sql" by (simp add: p_def Let_def)
  have pend: "pending_rows v w4 p rs \<longleftrightarrow> table_rows t (like_row ?pat ?pat) rs" for rs
    by (simp add: pending_rows_def p_def Let_def t4)
  have texts': "pending_rows v w4 p rs \<Longrightarrow> list_all has_texts rs" for rs
    using texts by (fastforce simp: pend table_rows_def texts_present_def has_texts_def list_all_iff)
  obtain rc w5 where st5: "sqlite3_step q st w4 = (rc, w5)" by fastforce
  have t5: "v_table v w5 = Some t"
    using step_like(1) [OF doc session_stmt [OF s] st5 sql] t4 by simp
  note round = loop_round [OF doc s sql st5 texts', of "[]"]
  have "can_step v w4 p" by (simp add: can_step_def t4 p_def Let_def)
  then have rc: "rc \<in> {SQLITE_ROW, SQLITE_DONE}"
    using succ session_stmt [OF s] sql st5 unfolding searches_succeed_def by (metis fst_conv)
  have "\<exists>rs w6 p'. FindMemes_loop q st [] w4 = Some (Inr (map meme_of rs), w6) \<and> pending_rows v w4 p rs \<and>
      in_session v w db st p' w6 \<and> v_table v w6 = Some t"
  proof (cases "rc = SQLITE_ROW")
    case True
    with round obtain r rs p' where "pending_rows v w4 p (r # rs)" and s5: "in_session v w db st p' w5"
      "p_sql p' = select_like_sql" "p_pending p' = Some rs"
      and "FindMemes_loop q st [] w4 = FindMemes_loop q st [meme_of r] w5" by auto
    with loop_rest [OF doc succ s5, of "[meme_of r]"] texts' [of "r # rs"] t5 show ?thesis
      by (intro exI [of _ "r # rs"]) auto
  next
    case False
    with rc round t5 show ?thesis by (intro exI [of _ "[]"]) auto
  qed
  then obtain rs w6 p' where loop: "FindMemes_loop q st [] w4 = Some (Inr (map meme_of rs), w6)"
    and rs: "pending_rows v w4 p rs" and s6: "in_session v w db st p' w6" and t6: "v_table v w6 = Some t"
    by blast
  obtain rc7 w7 where fin: "sqlite3_finalize q st w6 = (rc7, w7)" by fastforce
  obtain rc8 w8 where cl: "sqlite3_close q db w7 = (rc8, w8)" by fastforce
  have "FindMemes q s w = Some (Inr (map meme_of rs), w8)"
    using op pr b1 b2 loop fin cl by (simp add: FindMemes_def SQLITE_OK_def)
  with session_finish [OF doc s6 fin cl] t6 rs show ?thesis by (auto simp: pend)
qed

text \<open>
  Claim C21. Searching for words without wildcards returns, in an order that is not specified
  and each once, exactly the memes whose top or bottom text contains the words up to case, and
  leaves the table and the connections as they were.
\<close>

theorem FindMemes_search:
  "sqlite_documented q v \<Longrightarrow> searches_succeed q v \<Longrightarrow> v_table v w = Some t \<Longrightarrow> texts_present t \<Longrightarrow>
   plain_words s \<Longrightarrow>
   \<exists>rs w'. FindMemes q s w = Some (Inr (map meme_of rs), w') \<and> distinct (map fst rs) \<and>
     set rs = {(i, (a, b, c)). t i = Some (a, b, c) \<and>
       (contains_words s (the b) \<or> contains_words s (the c))} \<and>
     v_table v w' = Some t \<and> v_open v w' = v_open v w"
proof -
  assume doc: "sqlite_documented q v" and succ: "searches_succeed q v" and t: "v_table v w = Some t"
    and texts: "texts_present t" and s: "plain_words s"
  let ?pat = "c_str (''%'' @ s @ ''%'')"
  obtain rs w' where run: "FindMemes q s w = Some (Inr (map meme_of rs), w')"
    and rows: "table_rows t (like_row ?pat ?pat) rs" and frame: "v_table v w' = Some t" "v_open v w' = v_open v w"
    using FindMemes_rows [OF doc succ t texts, of s] by blast
  have "t i = Some (a, b, c) \<Longrightarrow> like_row ?pat ?pat i (a, b, c) \<longleftrightarrow>
      contains_words s (the b) \<or> contains_words s (the c)" for i a b c
  proof -
    assume "t i = Some (a, b, c)"
    with texts obtain b' c' where "b = Some b'" and "c = Some c'"
      by (fastforce simp: texts_present_def)
    then show ?thesis by (simp add: like_row_def like_text_def like_contains [OF s] del: append.simps)
  qed
  with rows have "set rs = {(i, (a, b, c)). t i = Some (a, b, c) \<and>
       (contains_words s (the b) \<or> contains_words s (the c))}"
    by (auto simp: table_rows_def)
  with run rows frame show ?thesis by (auto simp: table_rows_def)
qed

lemma mem_searches_succeed: "searches_succeed mem_api mem_view"
proof -
  have [simp]: "fst (mem_next st p rs w) = (if rs = [] then SQLITE_DONE else SQLITE_ROW)" for st p rs w
    by (simp add: mem_next_def split: list.split)
  have "fst (mem_step st w) \<in> {SQLITE_ROW, SQLITE_DONE}"
    if "map_of (m_stmts w) st = Some p" "p_sql p = select_like_sql" "can_step mem_view w p" for st p w
    using that by (cases "p_pending p") (auto simp: mem_step_def can_step_def mem_view_def step_sql_distinct)
  then show ?thesis
    by (auto simp: searches_succeed_def mem_api_def mem_view_def mem_open_def mem_prepare_def
        mem_bind_def Let_def)
qed

lemma FindMemes_search_witness:
  "\<exists>rs w'. FindMemes mem_api ''HI'' (empty_world\<lparr>m_table := Some [(1, 3, Some ''oh hi'', Some ''x'')]\<rparr>) =
       Some (Inr (map meme_of rs), w') \<and> set rs = {(1, (3, Some ''oh hi'', Some ''x''))}"
proof -
  let ?w = "empty_world\<lparr>m_table := Some [(1, 3, Some ''oh hi'', Some ''x'')]\<rparr>"
  let ?t = "[1 \<mapsto> (3, Some ''oh hi'', Some ''x'')]"
  have "map to_lower ''HI'' = ''hi''" and "map to_lower ''oh hi'' = ''oh hi''" and "map to_lower ''x'' = ''x''"
    by code_simp+
  moreover have "sublist ''hi'' ''oh hi''"
    unfolding sublist_def by (rule exI [of _ "''oh ''"]) simp
  ultimately have "contains_words ''HI'' ''oh hi''"
    by (simp add: contains_words_def)
  then have rows: "{(i, (a, b, c)). ?t i = Some (a, b, c) \<and>
      (contains_words ''HI'' (the b) \<or> contains_words ''HI'' (the c))} = {(1, (3, Some ''oh hi'', Some ''x''))}"
    by (auto split: if_splits)
  have "v_table mem_view ?w = Some ?t" by (simp add: mem_view_def)
  moreover have "texts_present ?t" and "plain_words ''HI''"
    by (auto simp: texts_present_def plain_words_def split: if_splits)
  ultimately show ?thesis
    using FindMemes_search [OF mem_documented mem_searches_succeed, of ?w ?t "''HI''", unfolded rows] by blast
qed

section \<open>Creating the table\<close>

lemma exec_schema:
  assumes "sqlite_documented q v" and "sqlite3_exec q db sql w = ((rc, rows), w')" and "db \<in> v_open v w"
  shows "v_open v w' = v_open v w" and "v_stmt v w' = v_stmt v w"
    and "sql = check_sql \<Longrightarrow> v_table v w' = v_table v w \<and> (rows \<noteq> [] \<longrightarrow> v_table v w \<noteq> None)"
    and "sql = create_sql \<Longrightarrow> (if rc = SQLITE_OK then v_table v w = None \<and> v_table v w' = Some Map.empty
         else v_table v w' = v_table v w)"
    and "sql = drop_sql \<Longrightarrow> v_table v w' = (if rc = SQLITE_OK then None else v_table v w)"
  using assms unfolding sqlite_documented_def exec_doc_def by blast+

lemma close_table:
  "sqlite_documented q v \<Longrightarrow> sqlite3_close q db w = (rc, w') \<Longrightarrow> db \<in> v_open v w \<Longrightarrow> v_table v w' = v_table v w"
  unfolding sqlite_documented_def close_doc_def by blast

lemma Init_table:
  assumes doc: "sqlite_documented q v"
  shows "v_table v (Init q w) = v_table v w \<or>
    v_table v w = None \<and> v_table v (Init q w) = Some Map.empty"
proof -
  obtain rc db w1 where op: "sqlite3_open q ''amazon.db'' w = ((rc, db), w1)" by (metis surj_pair)
  note t1 = open_table [OF doc op]
  show ?thesis
  proof (cases "rc = SQLITE_OK")
    case False
    with op t1 show ?thesis by (simp add: Init_def SQLITE_OK_def)
  next
    case ok: True
    note o = opened [OF doc op [unfolded ok]]
    obtain rc2 rows w2 where ck: "sqlite3_exec q db check_sql w1 = ((rc2, rows), w2)" by (metis surj_pair)
    have db1: "db \<in> v_open v w1" using o by simp
    note c = exec_schema [OF doc ck db1]
    obtain rc3 rows3 w3 where cr: "sqlite3_exec q db create_sql w2 = ((rc3, rows3), w3)" by (metis surj_pair)
    have db2: "db \<in> v_open v w2" using c(1) db1 by simp
    note e = exec_schema [OF doc cr db2]
    obtain rc4 w4 where cl2: "sqlite3_close q db w2 = (rc4, w4)" by fastforce
    obtain rc5 w5 where cl3: "sqlite3_close q db w3 = (rc5, w5)" by fastforce
    have db3: "db \<in> v_open v w3" using e(1) db2 by simp
    show ?thesis
    proof (cases "rows = []")
      case False
      with op ok ck cl2 have "Init q w = w4" by (simp add: Init_def SQLITE_OK_def)
      with close_table [OF doc cl2 db2] c(3) t1 show ?thesis by simp
    next
      case True
      with op ok ck cr cl3 have "Init q w = w5" by (simp add: Init_def SQLITE_OK_def)
      with close_table [OF doc cl3 db3] c(3) e(4) t1 show ?thesis by (auto split: if_splits)
    qed
  qed
qed

text \<open>
  Starting the server never loses a meme: \<open>Init\<close> leaves an existing table as it is,
  also when checking for it fails, and otherwise creates an empty one or changes nothing.
\<close>

theorem Init_keeps_table:
  "sqlite_documented q v \<Longrightarrow>
   (v_table v w = Some t \<longrightarrow> v_table v (Init q w) = Some t) \<and>
   (v_table v w = None \<longrightarrow> v_table v (Init q w) \<in> {None, Some Map.empty})"
  using Init_table [of q v w] by auto

lemma Init_keeps_table_witness:
  "v_table mem_view (Init mem_api (empty_world\<lparr>m_table := Some [(1, 3, None, None)]\<rparr>)) =
     Some [1 \<mapsto> (3, None, None)]"
  using Init_keeps_table [OF mem_documented, of "empty_world\<lparr>m_table := Some [(1, 3, None, None)]\<rparr>"
      "[1 \<mapsto> (3, None, None)]"]
  by (simp add: mem_view_def)

end
