(* ===== verification/Database_Refine.thy ===== *)
theory Database_Refine
  imports Database_Spec
begin

text \<open>
  The database class against an abstract store of memes: a map from identifiers to rows, on
  which an operation either is refused with -1 or has its one effect. The locale
  \<open>meme_store\<close> states what the callers of the class rely on; from it follow, once for all
  implementations, that every sequence of operations is simulated by the abstract store and
  that rows nobody deletes or updates stay. It is interpreted by the operations of
  \<open>src/database.cc\<close>.
\<close>

section \<open>The abstract store\<close>

datatype db_op = Add uint32_t string string | Delete uint32_t | Update uint32_t uint32_t string string

definition stored_row :: "uint32_t \<Rightarrow> string \<Rightarrow> string \<Rightarrow> meme_row" where
  "stored_row template t_text b_text = (sint template, Some (c_str t_text), Some (c_str b_text))"

inductive abs_step :: "meme_table \<Rightarrow> db_op \<Rightarrow> int \<Rightarrow> meme_table \<Rightarrow> bool" where
  refused: "abs_step t op (- 1) t"
| add: "new_rowid t i \<Longrightarrow>
    abs_step t (Add template t_text b_text) (signed_take_bit 31 i) (t(i \<mapsto> stored_row template t_text b_text))"
| delete: "abs_step t (Delete i) 0 (t(sint i := None))"
| update: "abs_step t (Update i template t_text b_text) (sint i)
    (update_row (sint i) (stored_row template t_text b_text) t)"

inductive_cases abs_stepE: "abs_step t op r t'"
inductive_simps abs_step_Delete: "abs_step t (Delete i) r t'"
inductive_simps abs_step_Update: "abs_step t (Update i template t_text b_text) r t'"

inductive abs_run :: "meme_table \<Rightarrow> (db_op \<times> int) list \<Rightarrow> meme_table \<Rightarrow> bool" where
  Nil: "abs_run t [] t"
| Cons: "abs_step t op r t1 \<Longrightarrow> abs_run t1 es t' \<Longrightarrow> abs_run t ((op, r) # es) t'"

fun touches :: "int \<Rightarrow> db_op \<Rightarrow> bool" where
  "touches i (Add template t_text b_text) = False"
| "touches i (Delete j) = (sint j = i)"
| "touches i (Update j template t_text b_text) = (sint j = i)"

lemma abs_step_keeps:
  "abs_step t op r t' \<Longrightarrow> t i = Some row \<Longrightarrow> \<not> touches i op \<Longrightarrow> t' i = Some row"
  by (erule abs_stepE) (auto simp: new_rowid_def update_row_def split: option.splits)

lemma abs_run_keeps:
  "abs_run t es t' \<Longrightarrow> t i = Some row \<Longrightarrow> list_all (\<lambda>(op, r). \<not> touches i op) es \<Longrightarrow> t' i = Some row"
  by (induction rule: abs_run.induct) (auto dest: abs_step_keeps)

section \<open>The contract\<close>

text \<open>A sequence of operations with the values they return.\<close>

fun run_ops :: "(db_op \<Rightarrow> 'w \<Rightarrow> int \<times> 'w) \<Rightarrow> db_op list \<Rightarrow> 'w \<Rightarrow> int list \<times> 'w" where
  "run_ops exec [] w = ([], w)"
| "run_ops exec (op # ops) w =
     (let (r, w) = exec op w; (rs, w) = run_ops exec ops w in (r # rs, w))"

locale meme_store =
  fixes ok :: bool and table :: "'w \<Rightarrow> meme_table option" and exec :: "db_op \<Rightarrow> 'w \<Rightarrow> int \<times> 'w"
  assumes simulated: "ok \<Longrightarrow> table w = Some t \<Longrightarrow> exec op w = (r, w') \<Longrightarrow>
      \<exists>t'. table w' = Some t' \<and> abs_step t op r t'"
begin

lemma run_simulated:
  "ok \<Longrightarrow> table w = Some t \<Longrightarrow> run_ops exec ops w = (rs, w') \<Longrightarrow>
   length rs = length ops \<and> (\<exists>t'. table w' = Some t' \<and> abs_run t (zip ops rs) t')"
proof (induction ops arbitrary: w t rs w')
  case Nil
  then show ?case by (auto intro: abs_run.Nil)
next
  case (Cons op ops)
  obtain r w1 where r: "exec op w = (r, w1)" by fastforce
  obtain rs1 w2 where rs: "run_ops exec ops w1 = (rs1, w2)" by fastforce
  obtain t1 where t1: "table w1 = Some t1" "abs_step t op r t1"
    using simulated [OF Cons.prems(1,2) r] by blast
  from Cons.prems(3) r rs have eq: "rs = r # rs1" "w' = w2" by simp_all
  from Cons.IH [OF Cons.prems(1) t1(1) rs] obtain t2 where
    "length rs1 = length ops" "table w2 = Some t2" "abs_run t1 (zip ops rs1) t2" by blast
  with t1(2) eq show ?case by (auto intro: abs_run.Cons)
qed

lemma row_stays:
  assumes "ok" and "table w = Some t" and "t i = Some row" and "run_ops exec ops w = (rs, w')"
    and "list_all (\<lambda>op. \<not> touches i op) ops"
  shows "\<exists>t'. table w' = Some t' \<and> t' i = Some row"
proof -
  obtain t' where t': "table w' = Some t'" "abs_run t (zip ops rs) t'"
    using run_simulated [OF assms(1,2,4)] by blast
  have "list_all (\<lambda>(op, r). \<not> touches i op) (zip ops rs)"
    using assms(5) by (auto simp: list_all_iff dest: set_zip_leftD)
  with abs_run_keeps [OF t'(2) assms(3)] t'(1) show ?thesis by blast
qed

end

section \<open>The operations of the class\<close>

fun db_exec :: "'w sqlite_api \<Rightarrow> db_op \<Rightarrow> 'w \<Rightarrow> int \<times> 'w" where
  "db_exec q (Add template t_text b_text) w = AddMeme q template t_text b_text w"
| "db_exec q (Delete i) w = DeleteMeme q i w"
| "db_exec q (Update i template t_text b_text) w = UpdateMeme q i template t_text b_text w"

lemma db_exec_simulated:
  assumes doc: "sqlite_documented q v" and t: "v_table v w = Some t" and run: "db_exec q op w = (r, w')"
  shows "\<exists>t'. v_table v w' = Some t' \<and> abs_step t op r t'"
proof (cases op)
  case (Add template t_text b_text)
  with run have "AddMeme q template t_text b_text w = (r, w')" by simp
  from AddMeme_cases [OF doc this] t Add show ?thesis
    by (auto simp: added_def stored_row_def [symmetric] intro: abs_step.intros)
next
  case (Delete i)
  with run have "DeleteMeme q i w = (r, w')" by simp
  from DeleteMeme_cases [OF doc this] t Delete show ?thesis by (auto intro: abs_step.intros)
next
  case (Update i template t_text b_text)
  with run have "UpdateMeme q i template t_text b_text w = (r, w')" by simp
  from UpdateMeme_cases [OF doc this] t Update show ?thesis
    by (auto simp: stored_row_def [symmetric] intro: abs_step.intros)
qed

interpretation memes: meme_store "sqlite_documented q v" "v_table v" "db_exec q"
  by unfold_locales (rule db_exec_simulated)

section \<open>Properties\<close>

text \<open>
  Claim C4. The database class implements the abstract store: whatever sequence of additions,
  deletions and updates is run, with whatever failures of SQLite in between, the table and
  the values returned are those of a run of the store, in which each operation has its one
  effect or was refused with -1.
\<close>

theorem database_refines_store:
  "sqlite_documented q v \<Longrightarrow> v_table v w = Some t \<Longrightarrow> run_ops (db_exec q) ops w = (rs, w') \<Longrightarrow>
   length rs = length ops \<and> (\<exists>t'. v_table v w' = Some t' \<and> abs_run t (zip ops rs) t')"
  by (rule memes.run_simulated)

definition sample_ops :: "db_op list" where
  "sample_ops = [Add 3 ''a'' ''b'', Delete 1, Delete 7]"

lemma database_refines_store_witness:
  "\<exists>w' rs t'. run_ops (db_exec mem_api) sample_ops (empty_world\<lparr>m_table := Some []\<rparr>) = (rs, w') \<and>
     length rs = 3 \<and> abs_run Map.empty (zip sample_ops rs) t'"
proof -
  obtain rs w' where run: "run_ops (db_exec mem_api) sample_ops (empty_world\<lparr>m_table := Some []\<rparr>) = (rs, w')"
    by fastforce
  have "v_table mem_view (empty_world\<lparr>m_table := Some []\<rparr>) = Some Map.empty" by (simp add: mem_view_def)
  from database_refines_store [OF mem_documented this run] run show ?thesis
    by (auto simp: sample_ops_def)
qed

text \<open>
  Claim C19. Memes are safe: a stored meme keeps its row through every sequence of operations
  that neither deletes nor updates its identifier, whatever else is added, deleted or
  refused.
\<close>

theorem stored_meme_stays:
  "sqlite_documented q v \<Longrightarrow> v_table v w = Some t \<Longrightarrow> t i = Some row \<Longrightarrow>
   run_ops (db_exec q) ops w = (rs, w') \<Longrightarrow> list_all (\<lambda>op. \<not> touches i op) ops \<Longrightarrow>
   \<exists>t'. v_table v w' = Some t' \<and> t' i = Some row"
  by (rule memes.row_stays)

lemma stored_meme_stays_witness:
  "\<exists>t'. v_table mem_view (snd (run_ops (db_exec mem_api) [Delete 7, Add 3 ''a'' ''b'']
       (empty_world\<lparr>m_table := Some [(1, 3, None, None)]\<rparr>))) = Some t' \<and> t' 1 = Some (3, None, None)"
proof -
  let ?w = "empty_world\<lparr>m_table := Some [(1, 3, None, None)]\<rparr>"
  obtain rs w' where run: "run_ops (db_exec mem_api) [Delete 7, Add 3 ''a'' ''b''] ?w = (rs, w')" by fastforce
  have "v_table mem_view ?w = Some [1 \<mapsto> (3, None, None)]" by (simp add: mem_view_def)
  from stored_meme_stays [OF mem_documented this _ run, of 1 "(3, None, None)"] run show ?thesis by simp
qed

end
