(* ===== verification/Meme_Handler.thy ===== *)
theory Meme_Handler
  imports Handlers Static_Handler Html_Builder Database
begin

text \<open>
  The meme handler: \<open>src/meme_handler.cc\<close>. A request under its prefix names an action (new,
  create, view, list, assets, delete); the actions work on the database and fill the HTML
  templates. The file system (\<open>file_env\<close>), the SQLite functions and the content of the stack
  in a declared \<open>Meme\<close> are parameters, the world of the database is passed through, and
  \<open>None\<close> is a call that does not return (the loop over search results).
\<close>

section \<open>The handler and its helpers\<close>

record MemeHandler =
  mh_database :: Database
  mh_uri_prefix :: string
  mh_path_prefix :: string
  mh_root_path :: string

definition InitDatabase :: Database where
  "InitDatabase = (let db = New_Database in db)"

definition MemeHandler_Init :: "boost_api \<Rightarrow> NginxConfig \<Rightarrow> string \<Rightarrow> MemeHandler outcome" where
  "MemeHandler_Init b config root_path =
     obind (Find b config ''root'') (\<lambda>path_prefix.
     obind (Find b config ''location'') (\<lambda>uri_prefix.
       Inr \<lparr>mh_database = InitDatabase, mh_uri_prefix = uri_prefix, mh_path_prefix = path_prefix,
            mh_root_path = root_path\<rparr>))"

definition newMeme :: string where
  "newMeme = (let form_string = [] in form_string)"

text \<open>The search for the next plus sign starts from the beginning each time.\<close>

function pseudoDecode :: "string \<Rightarrow> string" where
  "pseudoDecode result =
     (case find_str result ''+'' of
        None \<Rightarrow> result
      | Some pos \<Rightarrow> pseudoDecode (take pos result @ '' '' @ drop (pos + 1) result))"
  by pat_completeness auto
termination
proof (relation "measure (\<lambda>s. count_list s (CHR ''+''))", simp)
  fix s pos
  assume "find_str s ''+'' = Some pos"
  then have "s = take pos s @ CHR ''+'' # drop (Suc pos) s"
    using index_of_char_SomeD by (simp add: find_str_eq)
  then have "count_list s (CHR ''+'') = count_list (take pos s @ CHR ''+'' # drop (Suc pos) s) (CHR ''+'')"
    by simp
  then show "(take pos s @ '' '' @ drop (pos + 1) s, s) \<in> measure (\<lambda>s. count_list s (CHR ''+''))"
    by simp
qed

declare pseudoDecode.simps [simp del]

text \<open>\<open>GetParams\<close> is the loop of \<open>Request::set_params\<close>, written out a second time.\<close>

definition GetParams :: "string \<Rightarrow> params" where
  "GetParams params_str = params_loop [] params_str"

definition MemeHandler_GetPath :: "MemeHandler \<Rightarrow> string \<Rightarrow> string outcome" where
  "MemeHandler_GetPath h url =
     (let prefix_len = length (mh_uri_prefix h) in
      obind (substr_from url prefix_len) (\<lambda>rest.
        Inr (mh_root_path h @ mh_path_prefix h @ rest)))"

text \<open>Three more functions are copies of the static handler's.\<close>

definition MemeHandler_IsRegularFile :: "file_env \<Rightarrow> string \<Rightarrow> bool" where
  "MemeHandler_IsRegularFile env path = IsRegularFile env path"

definition MemeHandler_GetContentType :: "string \<Rightarrow> string" where
  "MemeHandler_GetContentType file_name = GetContentType file_name"

definition MemeHandler_GetContent :: "ifstream \<Rightarrow> string \<times> ifstream" where
  "MemeHandler_GetContent file = GetContent file"

definition ReadFromFile :: "file_env \<Rightarrow> string \<Rightarrow> string" where
  "ReadFromFile env file_path =
     (let empty_str = [] in
      if \<not> MemeHandler_IsRegularFile env file_path then empty_str
      else
        (let file = open_file env file_path in
         if \<not> fs_open file then empty_str
         else (let (file_content, file) = MemeHandler_GetContent file in file_content)))"

section \<open>Memes as maps\<close>

definition meme_map :: "Meme \<Rightarrow> params" where
  "meme_map m =
     map_put ''bottom_text'' (bottom_text m)
       (map_put ''top_text'' (top_text m)
         (map_put ''template_id'' (to_string (uint (template_id m)))
           (map_put ''meme_id'' (to_string (uint (meme_id m))) [])))"

definition viewMeme_id ::
  "'w sqlite_api \<Rightarrow> (uint32_t \<times> uint32_t) \<Rightarrow> uint32_t \<Rightarrow> 'w \<Rightarrow> params outcome \<times> 'w" where
  "viewMeme_id q stack i w =
     (case GetMeme q stack i w of
        (Inl e, w) \<Rightarrow> (Inl e, w)
      | (Inr meme, w) \<Rightarrow> (Inr (meme_map meme), w))"

definition viewMeme_str ::
  "'w sqlite_api \<Rightarrow> (uint32_t \<times> uint32_t) \<Rightarrow> string \<Rightarrow> 'w \<Rightarrow> params outcome \<times> 'w" where
  "viewMeme_str q stack meme_id_str w =
     (case atoi (c_str meme_id_str) of
        Inl e \<Rightarrow> (Inl e, w)
      | Inr n \<Rightarrow>
          (let i = word_of_int n :: uint32_t in
           case GetMeme q stack i w of
             (Inl e, w) \<Rightarrow> (Inl e, w)
           | (Inr meme, w) \<Rightarrow> (Inr (if meme_id meme = i then meme_map meme else []), w)))"

definition createMeme ::
  "'w sqlite_api \<Rightarrow> (uint32_t \<times> uint32_t) \<Rightarrow> string \<Rightarrow> string \<Rightarrow> string \<Rightarrow> 'w \<Rightarrow> params outcome \<times> 'w" where
  "createMeme q stack template t_text b_text w =
     (case atoi (c_str template) of
        Inl e \<Rightarrow> (Inl e, w)
      | Inr n \<Rightarrow>
          (let (new_id, w) = AddMeme q (word_of_int n) t_text b_text w in
           if new_id = - 1 then (Inr [], w)
           else viewMeme_id q stack (word_of_int new_id) w))"

definition editMeme ::
  "'w sqlite_api \<Rightarrow> (uint32_t \<times> uint32_t) \<Rightarrow> string \<Rightarrow> string \<Rightarrow> string \<Rightarrow> string \<Rightarrow> 'w \<Rightarrow>
   params outcome \<times> 'w" where
  "editMeme q stack id_str template t_text b_text w =
     (case atoi (c_str id_str) of
        Inl e \<Rightarrow> (Inl e, w)
      | Inr i \<Rightarrow>
          (case atoi (c_str template) of
             Inl e \<Rightarrow> (Inl e, w)
           | Inr n \<Rightarrow>
               (let (new_id, w) = UpdateMeme q (word_of_int i) (word_of_int n) t_text b_text w in
                if new_id = - 1 then (Inr [], w) else viewMeme_str q stack id_str w)))"

definition viewMemes ::
  "'w sqlite_api \<Rightarrow> (uint32_t \<times> uint32_t) \<Rightarrow> 'w \<Rightarrow> params list outcome \<times> 'w" where
  "viewMemes q stack w =
     (case GetAllMemes q stack w of
        (Inl e, w) \<Rightarrow> (Inl e, w)
      | (Inr memes, w) \<Rightarrow> (Inr (map meme_map memes), w))"

definition compareMemesId :: "params \<Rightarrow> params \<Rightarrow> bool" where
  "compareMemesId meme1 meme2 \<longleftrightarrow> map_at [] meme1 ''meme_id'' > map_at [] meme2 ''meme_id''"

text \<open>
  \<open>std::sort\<close> with \<open>compareMemesId\<close>: descending by the key. Where keys are equal the order is
  not specified by the library; here it is the reverse of the input.
\<close>

definition sort_memes :: "params list \<Rightarrow> params list" where
  "sort_memes memes = rev (sort_key (\<lambda>m. map_at [] m ''meme_id'') memes)"

definition findMemes ::
  "'w sqlite_api \<Rightarrow> string \<Rightarrow> 'w \<Rightarrow> (params list outcome \<times> 'w) option" where
  "findMemes q search_param w =
     (case FindMemes q (pseudoDecode search_param) w of
        None \<Rightarrow> None
      | Some (Inl e, w) \<Rightarrow> Some (Inl e, w)
      | Some (Inr memes, w) \<Rightarrow> Some (Inr (sort_memes (map meme_map memes)), w))"

definition listMeme ::
  "'w sqlite_api \<Rightarrow> (uint32_t \<times> uint32_t) \<Rightarrow> 'w \<Rightarrow> uint32_t list outcome \<times> 'w" where
  "listMeme q stack w =
     (case GetAllMemes q stack w of
        (Inl e, w) \<Rightarrow> (Inl e, w)
      | (Inr memes, w) \<Rightarrow> (Inr (map meme_id memes), w))"

definition deleteMeme :: "'w sqlite_api \<Rightarrow> uint32_t \<Rightarrow> 'w \<Rightarrow> int \<times> 'w" where
  "deleteMeme q i w = DeleteMeme q i w"

section \<open>The actions\<close>

text \<open>
  The action and its parameter text: what follows the first slash after the prefix, up to a
  question mark, and of that what comes before the next slash. \<open>None\<close> is the null reply.
\<close>

definition meme_action :: "MemeHandler \<Rightarrow> string \<Rightarrow> (string \<times> string) option outcome" where
  "meme_action h uri =
     obind (substr_from uri (length (mh_uri_prefix h))) (\<lambda>action_str.
       case find_str action_str ''/'' of
         None \<Rightarrow> Inr None
       | Some pos \<Rightarrow>
           let action_str = drop (pos + 1) action_str;
               (action_str, params_str) = (case find_str action_str ''?'' of
                  Some pos \<Rightarrow> (take pos action_str, drop (pos + 1) action_str)
                | None \<Rightarrow> (action_str, []));
               action_str = (case find_str action_str ''/'' of
                  Some pos \<Rightarrow> take pos action_str
                | None \<Rightarrow> action_str)
           in Inr (Some (action_str, params_str)))"

definition html_reply :: "string \<Rightarrow> Reply" where
  "html_reply body = SetHeader ''Content-Type'' ''text/html'' (SetBody body new_Reply)"

definition redirect_reply :: "string \<Rightarrow> Reply" where
  "redirect_reply location = SetHeader ''Location'' location (SetStatus 301 new_Reply)"

text \<open>
  The actions that are answered with status 200 return the reply before the status is set;
  the status is set after the branches.
\<close>

definition action_new ::
  "file_env \<Rightarrow> 'w sqlite_api \<Rightarrow> (uint32_t \<times> uint32_t) \<Rightarrow> string \<Rightarrow> 'w \<Rightarrow> Reply option outcome \<times> 'w" where
  "action_new env q stack params_str w =
     (let params = GetParams params_str;
          update = map_at [] params ''update'' in
      if update \<noteq> [] then
        (case viewMeme_str q stack update w of
           (Inl e, w) \<Rightarrow> (Inl e, w)
         | (Inr m, w) \<Rightarrow>
             if map_at [] m ''meme_id'' = [] then (Inr None, w)
             else
               (let editBuilder = inject_map m (HtmlBuilder_file env ''./static/memes/edit.html'') in
                case map_find m ''template_id'' of
                  None \<Rightarrow> (Inl Null_dereference, w)
                | Some v \<Rightarrow>
                    (obind (equalityInject v ''template_id'' ''selected'' editBuilder) (\<lambda>hb.
                       Inr (Some (html_reply (getHtml hb)))), w)))
      else (Inr (Some (html_reply (ReadFromFile env ''./static/memes/new.html''))), w))"

definition action_create ::
  "boost_api \<Rightarrow> 'w sqlite_api \<Rightarrow> (uint32_t \<times> uint32_t) \<Rightarrow> Request \<Rightarrow> 'w \<Rightarrow> Reply option outcome \<times> 'w" where
  "action_create b q stack request w =
     (if \<not> boost_iequals b (m_method request) ''POST'' then (Inr None, w)
      else
        (let params = m_params request;
             t_text = pseudoDecode (map_at [] params ''top_text'');
             b_text = pseudoDecode (map_at [] params ''bottom_text'');
             redirect = (\<lambda>new_meme. redirect_reply (''/meme/view?id='' @ map_at [] new_meme ''meme_id'')) in
         if map_at [] params ''update'' \<noteq> [] then
           (case editMeme q stack (map_at [] params ''update'') (map_at [] params ''template_id'') t_text b_text w of
              (Inl e, w) \<Rightarrow> (Inl e, w)
            | (Inr new_meme, w) \<Rightarrow> (Inr (Some (redirect new_meme)), w))
         else
           (case createMeme q stack (map_at [] params ''template_id'') t_text b_text w of
              (Inl e, w) \<Rightarrow> (Inl e, w)
            | (Inr new_meme, w) \<Rightarrow>
                if new_meme = [] then (Inr None, w) else (Inr (Some (redirect new_meme)), w))))"

definition action_view ::
  "file_env \<Rightarrow> 'w sqlite_api \<Rightarrow> (uint32_t \<times> uint32_t) \<Rightarrow> string \<Rightarrow> 'w \<Rightarrow> Reply option outcome \<times> 'w" where
  "action_view env q stack params_str w =
     (let params = GetParams params_str in
      case viewMeme_str q stack (map_at [] params ''id'') w of
        (Inl e, w) \<Rightarrow> (Inl e, w)
      | (Inr m, w) \<Rightarrow>
          (let showBuilder = HtmlBuilder_file env ''./static/memes/show.html'';
               showBuilder =
                 (if m = [] then inject ''not-found'' ''Error: Meme does not exist.'' showBuilder
                  else
                    (let partialBuilder =
                       inject_map m (HtmlBuilder_file env ''./static/memes/partials/_meme.html'')
                     in inject ''meme'' (getHtml partialBuilder) showBuilder))
           in (Inr (Some (html_reply (getHtml showBuilder))), w)))"

definition list_page :: "file_env \<Rightarrow> string \<Rightarrow> params list \<Rightarrow> Reply" where
  "list_page env query memes =
     (let notFoundText = (if query \<noteq> [] \<and> memes = [] then ''No results found for <b>'' @ query @ ''</b>'' else []);
          partialBuilder = inject_maps memes (HtmlBuilder_file env ''./static/memes/partials/_meme.html'');
          indexBuilder = HtmlBuilder_file env ''./static/memes/index.html'';
          indexBuilder = inject ''q'' query indexBuilder;
          indexBuilder = inject ''memes'' (getHtml partialBuilder) indexBuilder;
          indexBuilder = inject ''not-found'' notFoundText indexBuilder
      in html_reply (getHtml indexBuilder))"

definition action_list ::
  "file_env \<Rightarrow> 'w sqlite_api \<Rightarrow> (uint32_t \<times> uint32_t) \<Rightarrow> string \<Rightarrow> 'w \<Rightarrow> (Reply option outcome \<times> 'w) option" where
  "action_list env q stack params_str w =
     (let query = map_at [] (GetParams params_str) ''q'' in
      case (if query = [] then Some (viewMemes q stack w) else findMemes q query w) of
        None \<Rightarrow> None
      | Some (Inl e, w) \<Rightarrow> Some (Inl e, w)
      | Some (Inr memes, w) \<Rightarrow> Some (Inr (Some (list_page env query memes)), w))"

definition action_assets :: "file_env \<Rightarrow> MemeHandler \<Rightarrow> Request \<Rightarrow> Reply option outcome" where
  "action_assets env h request =
     obind (MemeHandler_GetPath h (m_uri request)) (\<lambda>file_path.
       if \<not> MemeHandler_IsRegularFile env file_path then Inr None
       else
         (let file = open_file env file_path in
          if \<not> fs_open file then Inr None
          else
            (let (file_content, file) = MemeHandler_GetContent file in
             Inr (Some (SetHeader ''Content-Type'' (MemeHandler_GetContentType file_path)
               (SetBody file_content new_Reply))))))"

definition action_delete :: "'w sqlite_api \<Rightarrow> string \<Rightarrow> 'w \<Rightarrow> Reply option outcome \<times> 'w" where
  "action_delete q params_str w =
     (case atoi (c_str (map_at [] (GetParams params_str) ''id'')) of
        Inl e \<Rightarrow> (Inl e, w)
      | Inr n \<Rightarrow>
          (let (result, w) = deleteMeme q (word_of_int n) w
           in (Inr (Some (redirect_reply ''/meme/list'')), w)))"

definition with_status_200 :: "Reply option outcome \<times> 'w \<Rightarrow> Reply option outcome \<times> 'w" where
  "with_status_200 res =
     (case res of (out, w) \<Rightarrow> (obind out (\<lambda>r. Inr (map_option (SetStatus 200) r)), w))"

definition MemeHandler_HandleRequest ::
  "boost_api \<Rightarrow> file_env \<Rightarrow> 'w sqlite_api \<Rightarrow> (uint32_t \<times> uint32_t) \<Rightarrow> MemeHandler \<Rightarrow> Request \<Rightarrow> 'w \<Rightarrow>
   (Reply option outcome \<times> 'w) option" where
  "MemeHandler_HandleRequest b env q stack h request w =
     (case meme_action h (m_uri request) of
        Inl e \<Rightarrow> Some (Inl e, w)
      | Inr None \<Rightarrow> Some (Inr None, w)
      | Inr (Some (action_str, params_str)) \<Rightarrow>
          if action_str = ''new'' then Some (with_status_200 (action_new env q stack params_str w))
          else if action_str = ''create'' then Some (action_create b q stack request w)
          else if action_str = ''view'' then Some (with_status_200 (action_view env q stack params_str w))
          else if action_str = ''list'' then map_option with_status_200 (action_list env q stack params_str w)
          else if action_str = ''assets'' then Some (with_status_200 (action_assets env h request, w))
          else if action_str = ''delete'' then Some (action_delete q params_str w)
          else Some (Inr None, w))"

section \<open>The contract\<close>

lemma with_status_200_set:
  "with_status_200 res = (Inr (Some r), w) \<Longrightarrow> r_status_code r \<noteq> None"
  by (auto simp: with_status_200_def obind_Inr_iff SetStatus_def split: prod.splits)

lemma redirect_reply_set: "r_status_code (redirect_reply location) = Some 301"
  by (simp add: redirect_reply_def reply_ops)

interpretation meme: request_handler
  "\<lambda>request. case MemeHandler_HandleRequest b env q stack h request w of
     None \<Rightarrow> Inr None | Some (r, _) \<Rightarrow> r"
  by unfold_locales
    (auto simp: MemeHandler_HandleRequest_def action_create_def action_delete_def Let_def redirect_reply_set
      dest!: with_status_200_set split: sum.splits option.splits if_splits prod.splits)

declare meme.answered [handler_laws]

end
