(* ===== verification/Meme_Spec.thy ===== *)
theory Meme_Spec
  imports Meme_Handler Database_Search "HOL-Library.Multiset"
begin

text \<open>
  What the meme handler does: how a URI is split into action and parameters, decoding, the
  order of search results, what viewing a missing meme shows, deletion, and the way from a
  submitted form through the redirect to the page with the new meme.
\<close>

section \<open>Decoding\<close>

lemma pseudoDecode_step: "map (\<lambda>c. if c = CHR ''+'' then CHR '' '' else c) (take p s @ '' '' @ drop (p + 1) s) =
    map (\<lambda>c. if c = CHR ''+'' then CHR '' '' else c) s"
  if "find_str s ''+'' = Some p"
proof -
  from that have "s = take p s @ CHR ''+'' # drop (Suc p) s"
    using index_of_char_SomeD by (simp add: find_str_eq)
  then have "map (\<lambda>c. if c = CHR ''+'' then CHR '' '' else c) s =
      map (\<lambda>c. if c = CHR ''+'' then CHR '' '' else c) (take p s @ CHR ''+'' # drop (Suc p) s)"
    by simp
  then show ?thesis by simp
qed

text \<open>
  Decoding a form text turns every plus sign into a blank and changes nothing else
  (percent escapes stay); the loop ends for every text.
\<close>

theorem pseudoDecode_map: "pseudoDecode s = map (\<lambda>c. if c = CHR ''+'' then CHR '' '' else c) s"
proof (induction s rule: pseudoDecode.induct)
  case (1 s)
  show ?case
  proof (cases "find_str s ''+''")
    case None
    then have "CHR ''+'' \<notin> set s" by (simp add: find_str_eq index_of_char_None_iff)
    then have "map (\<lambda>c. if c = CHR ''+'' then CHR '' '' else c) s = s"
      by (intro map_idI) auto
    with None show ?thesis by (simp add: pseudoDecode.simps [of s])
  next
    case (Some p)
    with 1 have "pseudoDecode s = map (\<lambda>c. if c = CHR ''+'' then CHR '' '' else c) (take p s @ '' '' @ drop (p + 1) s)"
      by (simp add: pseudoDecode.simps [of s])
    then show ?thesis using pseudoDecode_step [OF Some] by simp
  qed
qed

section \<open>Actions\<close>

lemma meme_action_query:
  assumes "set a \<inter> {CHR ''/'', CHR ''?''} = {}"
  shows "meme_action h (mh_uri_prefix h @ ''/'' @ a @ ''?'' @ p) = Inr (Some (a, p))"
    and "meme_action h (mh_uri_prefix h @ ''/'' @ a) = Inr (Some (a, []))"
  using assms by (simp_all add: meme_action_def find_str_eq index_of_char_append)

lemma params_id: "map_at [] (GetParams (''id='' @ to_string i)) ''id'' = to_string i"
proof -
  have chars: "c \<in> set (to_string i) \<Longrightarrow> c \<noteq> CHR ''='' \<and> c \<noteq> CHR ''&''" for c
    using to_string_chars [of c i] by (auto simp: is_digit_def)
  then have "form_pairs [(''id'', to_string i)]"
    by (auto simp: form_pairs_def form_key_def form_value_def)
  from params_loop_encode [OF this, of "[]"] show ?thesis
    by (simp add: GetParams_def map_at_def)
qed

lemma to_string_c_str [simp]: "c_str (to_string i) = to_string i"
proof -
  have "c \<in> set (to_string i) \<Longrightarrow> c \<noteq> CHR 0x00" for c
    using to_string_chars [of c i] by (auto simp: is_digit_def)
  then show ?thesis by (simp add: c_str_def takeWhile_eq_all_conv)
qed

section \<open>Looking at a meme\<close>

lemma uint_of_id: "0 \<le> i \<Longrightarrow> i \<le> int_max \<Longrightarrow> uint (word_of_int i :: uint32_t) = i"
  by (simp add: int_max_def uint_word_of_int_eq take_bit_int_eq_self)

lemma id_as_int: "0 \<le> n \<Longrightarrow> n \<le> int_max \<Longrightarrow> sint (word_of_int n :: uint32_t) = n"
  by (simp add: int_max_def sint_sbintrunc' signed_take_bit_int_eq_self)

lemma atoi_id: "0 \<le> i \<Longrightarrow> i \<le> int_max \<Longrightarrow> atoi (to_string i) = Inr i"
  by (simp add: atoi_to_string fits_int_def int_min_def int_max_def)

text \<open>
  Claim C38. Viewing a meme that is not in the table: what comes back depends on memory that
  was never written. If the stack happens to hold the number asked for, an empty meme with
  that number is shown; otherwise none is.
\<close>

theorem viewMeme_missing:
  "sqlite_documented q v \<Longrightarrow> queries_succeed q v \<Longrightarrow> v_table v w = Some t \<Longrightarrow> t n = None \<Longrightarrow>
   0 \<le> n \<Longrightarrow> n \<le> int_max \<Longrightarrow>
   fst (viewMeme_str q (x, y) (to_string n) w) =
     Inr (if x = word_of_int n
          then meme_map \<lparr>meme_id = x, template_id = y, top_text = [], bottom_text = []\<rparr> else [])"
proof -
  assume doc: "sqlite_documented q v" and succ: "queries_succeed q v" and t: "v_table v w = Some t"
    and n: "t n = None" "0 \<le> n" "n \<le> int_max"
  obtain out w' where run: "GetMeme q (x, y) (word_of_int n) w = (out, w')" by fastforce
  have "out = Inr \<lparr>meme_id = x, template_id = y, top_text = [], bottom_text = []\<rparr>"
    using GetMeme_query [OF doc succ t, of "word_of_int n" "(x, y)"] n uint_of_id [OF n(2,3)] run
    by (simp add: declared_Meme_def)
  with run atoi_id [OF n(2,3)] show ?thesis by (simp add: viewMeme_str_def Let_def)
qed

lemma viewMeme_missing_witness:
  "fst (viewMeme_str mem_api (7, 0) (to_string 7) (empty_world\<lparr>m_table := Some []\<rparr>)) =
     Inr (meme_map \<lparr>meme_id = 7, template_id = 0, top_text = [], bottom_text = []\<rparr>)"
  using viewMeme_missing [OF mem_documented mem_queries_succeed,
      of "empty_world\<lparr>m_table := Some []\<rparr>" Map.empty 7 7 0]
  by (simp add: mem_view_def int_max_def)

section \<open>The order of search results\<close>

lemma sort_memes_sorted: "sorted_wrt (\<lambda>a b. \<not> compareMemesId b a) (sort_memes ms)"
proof -
  have "sorted (map (\<lambda>m. map_at [] m ''meme_id'') (sort_key (\<lambda>m. map_at [] m ''meme_id'') ms))"
    by simp
  then show ?thesis
    by (simp add: sort_memes_def compareMemesId_def sorted_wrt_rev sorted_map not_less)
qed

text \<open>
  Claim C37. Search results are a rearrangement of what the database found, never placing a
  meme before one with a larger identifier; identifiers are compared as TEXTS, so 9 comes
  before 10.
\<close>

theorem findMemes_order:
  "findMemes q s w = Some (Inr ms, w') \<Longrightarrow>
   sorted_wrt (\<lambda>a b. \<not> map_at [] b ''meme_id'' > map_at [] a ''meme_id'') ms \<and>
   (\<exists>found. FindMemes q (pseudoDecode s) w = Some (Inr found, w') \<and> mset ms = mset (map meme_map found))"
proof -
  assume "findMemes q s w = Some (Inr ms, w')"
  then obtain found where found: "FindMemes q (pseudoDecode s) w = Some (Inr found, w')"
    and ms: "ms = sort_memes (map meme_map found)"
    by (auto simp: findMemes_def split: option.splits prod.splits sum.splits)
  have "mset (sort_memes xs) = mset xs" for xs by (simp add: sort_memes_def)
  with found ms sort_memes_sorted [of "map meme_map found"] show ?thesis
    by (simp add: compareMemesId_def)
qed

lemma findMemes_order_witness:
  "\<exists>ms w'. findMemes mem_api ''hi'' (empty_world\<lparr>m_table := Some [(1, 3, Some ''oh hi'', Some ''x'')]\<rparr>) =
       Some (Inr ms, w') \<and>
     sorted_wrt (\<lambda>a b. \<not> map_at [] b ''meme_id'' > map_at [] a ''meme_id'') ms"
proof -
  let ?w = "empty_world\<lparr>m_table := Some [(1, 3, Some ''oh hi'', Some ''x'')]\<rparr>"
  have "v_table mem_view ?w = Some [1 \<mapsto> (3, Some ''oh hi'', Some ''x'')]" by (simp add: mem_view_def)
  moreover have "texts_present [1 \<mapsto> (3, Some ''oh hi'', Some ''x'')]"
    by (auto simp: texts_present_def split: if_splits)
  ultimately obtain rs w' where
    "FindMemes mem_api (pseudoDecode ''hi'') ?w = Some (Inr (map meme_of rs), w')"
    using FindMemes_rows [OF mem_documented mem_searches_succeed] by blast
  then obtain ms where run: "findMemes mem_api ''hi'' ?w = Some (Inr ms, w')"
    by (simp add: findMemes_def)
  with findMemes_order [OF run] show ?thesis by blast
qed

lemma sort_memes_textual:
  "sort_memes [meme_map \<lparr>meme_id = 10, template_id = 1, top_text = [], bottom_text = []\<rparr>,
     meme_map \<lparr>meme_id = 9, template_id = 1, top_text = [], bottom_text = []\<rparr>] =
   [meme_map \<lparr>meme_id = 9, template_id = 1, top_text = [], bottom_text = []\<rparr>,
     meme_map \<lparr>meme_id = 10, template_id = 1, top_text = [], bottom_text = []\<rparr>]"
  by code_simp

section \<open>Deleting\<close>

text \<open>
  Claim C33. The delete action answers every request under it with a redirect to the list,
  whatever its method (a plain GET deletes) and whether or not the deletion worked; the table
  is unchanged or loses exactly the row asked for.
\<close>

theorem delete_request:
  "sqlite_documented q v \<Longrightarrow> v_table v w = Some t \<Longrightarrow>
   0 \<le> n \<Longrightarrow> n \<le> int_max \<Longrightarrow> m_uri request = mh_uri_prefix h @ ''/delete?id='' @ to_string n \<Longrightarrow>
   \<exists>w'. MemeHandler_HandleRequest b env q stack h request w = Some (Inr (Some (redirect_reply ''/meme/list'')), w') \<and>
     v_table v w' \<in> {Some t, Some (t(n := None))}"
proof -
  assume doc: "sqlite_documented q v" and t: "v_table v w = Some t" and n: "0 \<le> n" "n \<le> int_max"
    and uri: "m_uri request = mh_uri_prefix h @ ''/delete?id='' @ to_string n"
  have action: "meme_action h (m_uri request) = Inr (Some (''delete'', ''id='' @ to_string n))"
    using meme_action_query(1) [of "''delete''" h "''id='' @ to_string n"] by (simp add: uri)
  obtain r w' where run: "DeleteMeme q (word_of_int n) w = (r, w')" by fastforce
  from DeleteMeme_cases [OF doc run] id_as_int [OF n] t have "v_table v w' \<in> {Some t, Some (t(n := None))}" by auto
  moreover have "action_delete q (''id='' @ to_string n) w = (Inr (Some (redirect_reply ''/meme/list'')), w')"
    using run params_id [of n] atoi_id [OF n] by (simp add: action_delete_def deleteMeme_def)
  ultimately show ?thesis using action by (simp add: MemeHandler_HandleRequest_def)
qed

definition sample_memes :: MemeHandler where
  "sample_memes = \<lparr>mh_database = New_Database, mh_uri_prefix = ''/meme'', mh_path_prefix = ''/static/memes'', mh_root_path = ''.''\<rparr>"

lemma delete_request_witness:
  "\<exists>w'. MemeHandler_HandleRequest boost_model sample_files mem_api (0, 0) sample_memes
     (set_uri (''/meme/delete?id='' @ to_string 1) (fresh_request []))
     (empty_world\<lparr>m_table := Some [(1, 3, None, None)]\<rparr>) = Some (Inr (Some (redirect_reply ''/meme/list'')), w')"
  using delete_request [OF mem_documented, of "empty_world\<lparr>m_table := Some [(1, 3, None, None)]\<rparr>" _ 1
      "set_uri (''/meme/delete?id='' @ to_string 1) (fresh_request [])" sample_memes boost_model sample_files "(0, 0)"]
  by (auto simp: mem_view_def int_max_def sample_memes_def set_uri_def)

section \<open>From the form to the page\<close>

text \<open>The page of one meme.\<close>

definition view_page :: "file_env \<Rightarrow> Meme \<Rightarrow> Reply" where
  "view_page env m = SetStatus 200 (html_reply (getHtml
     (inject ''meme'' (getHtml (inject_map (meme_map m) (HtmlBuilder_file env ''./static/memes/partials/_meme.html'')))
       (HtmlBuilder_file env ''./static/memes/show.html''))))"

text \<open>What that page says, when the files are templates and nothing in the texts looks like a marker.\<close>

definition shown_page :: "piece list \<Rightarrow> piece list \<Rightarrow> int \<Rightarrow> int \<Rightarrow> string \<Rightarrow> string \<Rightarrow> string" where
  "shown_page partial whole i n a c =
     page_text (map (fill [''meme'' \<mapsto> page_text (map (fill [''meme_id'' \<mapsto> to_string i, ''template_id'' \<mapsto> to_string n,
       ''top_text'' \<mapsto> a, ''bottom_text'' \<mapsto> c]) partial)]) whole)"

lemma meme_map_fields:
  "meme_map m = [(''bottom_text'', bottom_text m), (''meme_id'', to_string (uint (meme_id m))),
     (''template_id'', to_string (uint (template_id m))), (''top_text'', top_text m)]"
  by (simp add: meme_map_def)

lemma harmless_number: "harmless (to_string n)"
proof (rule no_bracket_harmless)
  have "\<not> is_digit (CHR ''<'')" "CHR ''<'' \<noteq> CHR ''-''" by (simp_all add: is_digit_def)
  then show "CHR ''<'' \<notin> set (to_string n)" using to_string_chars by blast
qed

lemma view_page_filled:
  assumes files: "file_text env ''./static/memes/partials/_meme.html'' = Some (page_text ps)"
      "file_text env ''./static/memes/show.html'' = Some (page_text qs)"
    and ok: "template_ok ps" "template_ok qs" and texts: "harmless a" "harmless c"
    and i: "0 \<le> i" "i \<le> int_max" and n: "0 \<le> n" "n \<le> int_max"
  shows "r_body (view_page env \<lparr>meme_id = word_of_int i, template_id = word_of_int n, top_text = a, bottom_text = c\<rparr>) =
    shown_page ps qs i n a c"
proof -
  let ?m = "\<lparr>meme_id = word_of_int i, template_id = word_of_int n, top_text = a, bottom_text = c\<rparr>"
  have words: "uint (word_of_int i :: uint32_t) = i" "uint (word_of_int n :: uint32_t) = n"
    using i n by (simp_all add: int_max_def uint_word_of_int_eq take_bit_int_eq_self)
  have paths: "c_str ''./static/memes/partials/_meme.html'' = ''./static/memes/partials/_meme.html''"
    "c_str ''./static/memes/show.html'' = ''./static/memes/show.html''" by code_simp+
  have names: "marker_name ''bottom_text''" "marker_name ''meme_id''" "marker_name ''template_id''" "marker_name ''top_text''"
    "marker_name ''meme''" by code_simp+
  have "html (inject_map (meme_map ?m) \<lparr>html = page_text ps\<rparr>) = page_text (map (fill (map_of (meme_map ?m))) ps)"
    unfolding inject_map_html HtmlBuilder.simps
    by (rule shallowInject_map_page) (simp_all add: meme_map_fields names texts harmless_number ok)
  moreover have "map_of (meme_map ?m) = [''meme_id'' \<mapsto> to_string i, ''template_id'' \<mapsto> to_string n,
       ''top_text'' \<mapsto> a, ''bottom_text'' \<mapsto> c]"
    by (auto simp: meme_map_fields words fun_eq_iff)
  ultimately show ?thesis
    using inject_text_page [OF names(5) ok(2)]
    by (simp add: view_page_def shown_page_def HtmlBuilder_file_def files paths getHtml_def html_reply_def
        inject_def reply_ops)
qed

lemma meme_map_id: "map_at [] (meme_map m) ''meme_id'' = to_string (uint (meme_id m))"
  by (simp add: meme_map_def map_at_def)

lemma meme_map_nonempty: "meme_map m \<noteq> []"
  using meme_map_id [of m] to_string_nonempty [of "uint (meme_id m)"] by (auto simp del: to_string_nonempty)

lemma view_request:
  assumes doc: "sqlite_documented q v" and succ: "queries_succeed q v" and t: "v_table v w = Some t"
    and row: "t i = Some (sint template, Some a, Some c)" and i: "0 < i" "i \<le> int_max"
    and uri: "m_uri request = mh_uri_prefix h @ ''/view?id='' @ to_string i"
  shows "\<exists>w'. MemeHandler_HandleRequest b env q stack h request w =
    Some (Inr (Some (view_page env \<lparr>meme_id = word_of_int i, template_id = template, top_text = a, bottom_text = c\<rparr>)), w')"
proof -
  let ?m = "\<lparr>meme_id = word_of_int i, template_id = template, top_text = a, bottom_text = c\<rparr>"
  have action: "meme_action h (m_uri request) = Inr (Some (''view'', ''id='' @ to_string i))"
    using meme_action_query(1) [of "''view''" h "''id='' @ to_string i"] by (simp add: uri)
  obtain w' where get: "GetMeme q stack (word_of_int i) w = (Inr ?m, w')"
    using GetMeme_row [OF doc succ t row i, of stack] by (metis prod.collapse)
  have "viewMeme_str q stack (to_string i) w = (Inr (meme_map ?m), w')"
    using get atoi_id [of i] i by (simp add: viewMeme_str_def)
  then have "action_view env q stack (''id='' @ to_string i) w =
      (Inr (Some (html_reply (getHtml (inject ''meme'' (getHtml (inject_map (meme_map ?m)
         (HtmlBuilder_file env ''./static/memes/partials/_meme.html'')))
       (HtmlBuilder_file env ''./static/memes/show.html''))))), w')"
    using params_id [of i] meme_map_nonempty [of ?m] by (simp add: action_view_def)
  with action show ?thesis
    by (simp add: MemeHandler_HandleRequest_def with_status_200_def view_page_def)
qed

text \<open>An answered submission has added one row and redirects to it; otherwise nothing was added.\<close>

lemma create_request:
  assumes doc: "sqlite_documented q v" and succ: "queries_succeed q v" and b: "boost_documented b"
    and t: "v_table v w = Some t" and small: "small_ids t"
    and h: "mh_uri_prefix h = ''/meme''" and uri: "m_uri request = ''/meme/create''"
    and meth: "map to_lower (m_method request) = ''post''"
    and new: "map_at [] (m_params request) ''update'' = []"
    and n: "atoi (c_str (map_at [] (m_params request) ''template_id'')) = Inr n" "0 \<le> n" "n \<le> int_max"
    and run: "MemeHandler_HandleRequest b env q stack h request w = Some (Inr ans, w')"
  shows "ans = None \<and> v_table v w' = Some t \<or>
   (\<exists>i. t i = None \<and> 0 < i \<and> i \<le> int_max \<and> ans = Some (redirect_reply (''/meme/view?id='' @ to_string i)) \<and>
    v_table v w' = Some (t(i \<mapsto> (sint (word_of_int n :: uint32_t),
      Some (c_str (pseudoDecode (map_at [] (m_params request) ''top_text''))),
      Some (c_str (pseudoDecode (map_at [] (m_params request) ''bottom_text'')))))))"
proof -
  let ?t = "pseudoDecode (map_at [] (m_params request) ''top_text'')"
  let ?b = "pseudoDecode (map_at [] (m_params request) ''bottom_text'')"
  let ?n = "map_at [] (m_params request) ''template_id''"
  have "map to_lower ''POST'' = ''post''" by code_simp
  with meth have post: "boost_iequals b (m_method request) ''POST''"
    using boost_iequalsD [OF b, of "m_method request" "''POST''"] by simp
  have action: "meme_action h (m_uri request) = Inr (Some (''create'', []))"
    using meme_action_query(2) [of "''create''" h] by (simp add: uri h)
  obtain i w1 where add: "AddMeme q (word_of_int n) ?t ?b w = (i, w1)" by fastforce
  obtain out w2 where get: "GetMeme q stack (word_of_int i) w1 = (out, w2)" by fastforce
  have "action_create b q stack request w = (Inr ans, w')"
    using run action by (simp add: MemeHandler_HandleRequest_def)
  then have create: "(case createMeme q stack ?n ?t ?b w of
      (Inl e, w) \<Rightarrow> (Inl e, w)
    | (Inr m, w) \<Rightarrow> if m = [] then (Inr None, w)
        else (Inr (Some (redirect_reply (''/meme/view?id='' @ map_at [] m ''meme_id''))), w)) = (Inr ans, w')"
    using post new by (simp add: action_create_def Let_def del: append.simps)
  show ?thesis
  proof (cases "i = - 1")
    case True
    with create add n(1) have "ans = None" and w1: "w' = w1" by (auto simp: createMeme_def)
    moreover have "v_table v w1 = Some t"
      using AddMeme_failed [OF doc t small] add True by blast
    ultimately show ?thesis by simp
  next
    case ok: False
    note row = AddMeme_row [OF doc t small add ok]
    let ?m = "\<lparr>meme_id = word_of_int i, template_id = word_of_int n, top_text = c_str ?t, bottom_text = c_str ?b\<rparr>"
    have "out = Inr ?m"
      using GetMeme_row [OF doc succ row(4) _ row(2,3), of "word_of_int n" _ _ stack] get by simp
    then have "createMeme q stack ?n ?t ?b w = (Inr (meme_map ?m), w2)"
      using add get ok n(1) by (simp add: createMeme_def viewMeme_id_def)
    with create have "ans = Some (redirect_reply (''/meme/view?id='' @ to_string i))" and "w' = w2"
      using meme_map_nonempty [of ?m] meme_map_id [of ?m] uint_of_id [of i] row(2,3) by auto
    with row GetMeme_table [OF doc get] show ?thesis by (intro disjI2 exI [of _ i]) simp
  qed
qed

text \<open>
  From the form to the page: when a POST to /meme/create with a template number is
  answered with a reply, that reply redirects to /meme/view with a new identifier, and a later
  request for exactly that address is answered with the page of a meme that has this
  identifier, the submitted template and the two submitted texts, decoded and cut at the first
  NUL byte.
\<close>

theorem create_then_view:
  "sqlite_documented q v \<Longrightarrow> queries_succeed q v \<Longrightarrow> boost_documented b \<Longrightarrow>
   v_table v w = Some t \<Longrightarrow> small_ids t \<Longrightarrow>
   mh_uri_prefix h = ''/meme'' \<Longrightarrow> m_uri request = ''/meme/create'' \<Longrightarrow>
   map to_lower (m_method request) = ''post'' \<Longrightarrow>
   map_at [] (m_params request) ''update'' = [] \<Longrightarrow>
   map_at [] (m_params request) ''template_id'' = to_string n \<Longrightarrow> 0 \<le> n \<Longrightarrow> n \<le> int_max \<Longrightarrow>
   MemeHandler_HandleRequest b env q stack h request w = Some (Inr (Some r), w') \<Longrightarrow>
   \<exists>i w''. t i = None \<and> r = redirect_reply (''/meme/view?id='' @ to_string i) \<and>
     MemeHandler_HandleRequest b env q stack' h (set_uri (''/meme/view?id='' @ to_string i) request') w' =
       Some (Inr (Some (view_page env
         \<lparr>meme_id = word_of_int i, template_id = word_of_int n,
          top_text = c_str (pseudoDecode (map_at [] (m_params request) ''top_text'')),
          bottom_text = c_str (pseudoDecode (map_at [] (m_params request) ''bottom_text''))\<rparr>)), w'')"
proof -
  assume doc: "sqlite_documented q v" and succ: "queries_succeed q v" and b: "boost_documented b"
    and t: "v_table v w = Some t" "small_ids t"
    and h: "mh_uri_prefix h = ''/meme''"
    and req: "m_uri request = ''/meme/create''" "map to_lower (m_method request) = ''post''"
      "map_at [] (m_params request) ''update'' = []"
      "map_at [] (m_params request) ''template_id'' = to_string n" "0 \<le> n" "n \<le> int_max"
    and run: "MemeHandler_HandleRequest b env q stack h request w = Some (Inr (Some r), w')"
  have "atoi (c_str (map_at [] (m_params request) ''template_id'')) = Inr n"
    using req(4) atoi_id [OF req(5,6)] by simp
  from create_request [OF doc succ b t h req(1-3) this req(5,6) run] obtain i where
    i: "t i = None" "0 < i" "i \<le> int_max" and r: "r = redirect_reply (''/meme/view?id='' @ to_string i)"
    and t': "v_table v w' = Some (t(i \<mapsto> (sint (word_of_int n :: uint32_t),
      Some (c_str (pseudoDecode (map_at [] (m_params request) ''top_text''))),
      Some (c_str (pseudoDecode (map_at [] (m_params request) ''bottom_text''))))))"
    by auto
  have "m_uri (set_uri (''/meme/view?id='' @ to_string i) request') = mh_uri_prefix h @ ''/view?id='' @ to_string i"
    by (simp add: set_uri_def h)
  from view_request [OF doc succ t' _ i(2,3) this] i(1) r show ?thesis
    by (intro exI [of _ i]) simp
qed

definition sample_post :: Request where
  "sample_post = (fresh_request [])\<lparr>m_method := ''POST'', m_uri := ''/meme/create'',
     m_params := [(''bottom_text'', ''x''), (''template_id'', ''2''), (''top_text'', ''hi+there'')]\<rparr>"

lemma create_then_view_witness:
  "\<exists>i w' w''. MemeHandler_HandleRequest boost_model sample_files mem_api (0, 0) sample_memes
     (set_uri (''/meme/view?id='' @ to_string i) (fresh_request [])) w' =
   Some (Inr (Some (view_page sample_files \<lparr>meme_id = word_of_int i, template_id = 2,
     top_text = ''hi there'', bottom_text = ''x''\<rparr>)), w'')"
proof -
  let ?w = "empty_world\<lparr>m_table := Some []\<rparr>"
  let ?run = "MemeHandler_HandleRequest boost_model sample_files mem_api (0, 0) sample_memes sample_post ?w"
  have "(case ?run of Some (Inr (Some r), w') \<Rightarrow> True | _ \<Rightarrow> False)" by code_simp
  then obtain r w' where run: "?run = Some (Inr (Some r), w')"
    by (auto split: option.splits prod.splits sum.splits)
  have t: "v_table mem_view ?w = Some Map.empty" and small: "small_ids Map.empty"
    by (simp_all add: mem_view_def small_ids_def)
  have vals: "mh_uri_prefix sample_memes = ''/meme''" "m_uri sample_post = ''/meme/create''"
    "map to_lower (m_method sample_post) = ''post''" "map_at [] (m_params sample_post) ''update'' = []"
    "map_at [] (m_params sample_post) ''template_id'' = to_string 2" "(0::int) \<le> 2" "2 \<le> int_max"
    by code_simp+
  have texts: "c_str (pseudoDecode (map_at [] (m_params sample_post) ''top_text'')) = ''hi there''"
    "c_str (pseudoDecode (map_at [] (m_params sample_post) ''bottom_text'')) = ''x''"
    by code_simp+
  show ?thesis
    using create_then_view [OF mem_documented mem_queries_succeed boost_model_documented t small vals run,
        of "(0, 0)" "fresh_request []"] texts by auto
qed

end
