(* ===== verification/Handler_Manager.thy ===== *)
theory Handler_Manager
  imports Proxy_Exchange Status_Handler Meme_Handler
begin

text \<open>
  The factory of the handlers: \<open>src/handler_manager.cc\<close>. \<open>Handler\<close> has one constructor per class
  derived from the abstract \<open>Handler\<close>, with the state that class keeps; \<open>createByName\<close> builds
  one from its name in the configuration, \<open>handler_HandleRequest\<close> is the virtual call. All
  that the handlers use of the outside is gathered in a \<open>server_env\<close>.
\<close>

section \<open>Handlers\<close>

record 'w server_env =
  env_boost :: boost_api
  env_files :: file_env
  env_net :: "'w asio"
  env_sql :: "'w sqlite_api"
  env_stack :: "uint32_t \<times> uint32_t"

datatype Handler =
    Echo EchoHandler
  | Static StaticHandler
  | NotFound NotFoundHandler
  | BadRequest BadRequestHandler
  | ReverseProxy ReverseProxyHandler
  | Sleep SleepHandler
  | Status StatusHandler
  | Memes MemeHandler
  | HealthCheck HealthCheckHandler

text \<open>
  The pointer to the counters is not initialised by the constructor: \<open>None\<close> until
  \<open>setRequestMap\<close>.
\<close>

record HandlerManager =
  handler_request_map :: "request_map option"
  manager_handlers :: "NginxConfig list"

definition new_HandlerManager :: HandlerManager where
  "new_HandlerManager = \<lparr>handler_request_map = None, manager_handlers = []\<rparr>"

definition setRequestMap :: "request_map \<Rightarrow> HandlerManager \<Rightarrow> HandlerManager" where
  "setRequestMap request_map m = m\<lparr>handler_request_map := Some request_map\<rparr>"

definition setHandlers :: "NginxConfig list \<Rightarrow> HandlerManager \<Rightarrow> HandlerManager" where
  "setHandlers handlers m = m\<lparr>manager_handlers := handlers\<rparr>"

text \<open>The factory methods of the classes.\<close>

definition StaticHandler_create :: "boost_api \<Rightarrow> NginxConfig \<Rightarrow> string \<Rightarrow> Handler outcome" where
  "StaticHandler_create b config root_path =
     obind (StaticHandler_Init b config root_path) (\<lambda>h. Inr (Static h))"

definition ReverseProxyHandler_create :: "boost_api \<Rightarrow> NginxConfig \<Rightarrow> string \<Rightarrow> Handler outcome" where
  "ReverseProxyHandler_create b config root_path =
     obind (ReverseProxyHandler_Init b config root_path) (\<lambda>h. Inr (ReverseProxy h))"

definition StatusHandler_create :: "NginxConfig \<Rightarrow> string \<Rightarrow> StatusHandler" where
  "StatusHandler_create config root_path = \<lparr>request_info_map = [], status_handlers = []\<rparr>"

definition MemeHandler_create :: "boost_api \<Rightarrow> NginxConfig \<Rightarrow> string \<Rightarrow> Handler outcome" where
  "MemeHandler_create b config root_path =
     obind (MemeHandler_Init b config root_path) (\<lambda>h. Inr (Memes h))"

lemmas create_defs = EchoHandler_create_def StaticHandler_create_def NotFoundHandler_create_def
  BadRequestHandler_create_def ReverseProxyHandler_create_def SleepHandler_create_def
  StatusHandler_create_def MemeHandler_create_def HealthCheckHandler_create_def

definition createByName ::
  "boost_api \<Rightarrow> HandlerManager \<Rightarrow> string \<Rightarrow> NginxConfig \<Rightarrow> string \<Rightarrow> Handler option outcome" where
  "createByName b m name config root_path =
     (let handler_ptr = None in
      if name = ''echo'' then Inr (Some (Echo (EchoHandler_create config root_path)))
      else if name = ''static'' then
        obind (StaticHandler_create b config root_path) (\<lambda>h. Inr (Some h))
      else if name = ''not_found'' then Inr (Some (NotFound (NotFoundHandler_create config root_path)))
      else if name = ''bad_request'' then Inr (Some (BadRequest (BadRequestHandler_create config root_path)))
      else if name = ''reverse_proxy'' then
        obind (ReverseProxyHandler_create b config root_path) (\<lambda>h. Inr (Some h))
      else if name = ''sleep'' then Inr (Some (Sleep (SleepHandler_create config root_path)))
      else if name = ''status'' then
        (case handler_request_map m of
           None \<Rightarrow> Inl Indeterminate_value
         | Some request_map \<Rightarrow>
             let st_handler = StatusHandler_create config root_path;
                 st_handler = setRequestInfo request_map st_handler;
                 st_handler = status_setHandlers (manager_handlers m) st_handler
             in Inr (Some (Status st_handler)))
      else if name = ''meme'' then
        obind (MemeHandler_create b config root_path) (\<lambda>h. Inr (Some h))
      else if name = ''health_check'' then Inr (Some (HealthCheck (HealthCheckHandler_create config root_path)))
      else Inr handler_ptr)"

section \<open>The virtual call\<close>

text \<open>
  The handlers without effects leave the world alone; the proxy and the meme handler may not
  return. The changed proxy object is dropped, since the session makes a new one per request.
\<close>

fun handler_HandleRequest ::
  "'w server_env \<Rightarrow> Handler \<Rightarrow> Request \<Rightarrow> 'w \<Rightarrow> (Reply option outcome \<times> 'w) option" where
  "handler_HandleRequest e (Echo h) request w = Some (EchoHandler_HandleRequest request, w)"
| "handler_HandleRequest e (Static h) request w =
     Some (StaticHandler_HandleRequest (env_files e) h request, w)"
| "handler_HandleRequest e (NotFound h) request w = Some (NotFoundHandler_HandleRequest request, w)"
| "handler_HandleRequest e (BadRequest h) request w = Some (BadRequestHandler_HandleRequest request, w)"
| "handler_HandleRequest e (ReverseProxy h) request w =
     map_option (\<lambda>(r, h', w'). (r, w'))
       (ReverseProxyHandler_HandleRequest (env_boost e) (env_net e) h request w)"
| "handler_HandleRequest e (Sleep h) request w = Some (SleepHandler_HandleRequest request, w)"
| "handler_HandleRequest e (Status h) request w =
     Some (StatusHandler_HandleRequest (env_boost e) h request, w)"
| "handler_HandleRequest e (Memes h) request w =
     MemeHandler_HandleRequest (env_boost e) (env_files e) (env_sql e) (env_stack e) h request w"
| "handler_HandleRequest e (HealthCheck h) request w = Some (HealthCheckHandler_HandleRequest request, w)"

fun_cases handler_HandleRequest_proxyE:
  "handler_HandleRequest e (ReverseProxy h) request w = Some res"

section \<open>The contract of every handler\<close>

definition answer_of :: "(Reply option outcome \<times> 'w) option \<Rightarrow> Reply option outcome" where
  "answer_of res = (case res of None \<Rightarrow> Inr None | Some (r, _) \<Rightarrow> r)"

lemma answer_of_simps [simp]:
  "answer_of None = Inr None"
  "answer_of (Some (r, w)) = r"
  by (simp_all add: answer_of_def)

lemma proxy_answer:
  "answer_of (map_option (\<lambda>(r, h', w'). (r, w')) res) =
     (case res of None \<Rightarrow> Inr None | Some (r, _) \<Rightarrow> r)"
  by (cases res) (auto split: prod.splits)

interpretation handler: request_handler
  "\<lambda>request. answer_of (handler_HandleRequest e h request w)"
proof unfold_locales
  fix req r
  assume run: "answer_of (handler_HandleRequest e h req w) = Inr (Some r)"
  show "r_status_code r \<noteq> None"
  proof (cases h)
    case ReverseProxy
    with run show ?thesis by (auto simp: proxy_answer dest: handler_laws)
  next
    case Memes
    with run show ?thesis by (auto simp: answer_of_def [abs_def] dest: handler_laws)
  qed (use run in \<open>auto dest: handler_laws\<close>)
qed

section \<open>Which names there are\<close>

definition handler_names :: "string list" where
  "handler_names = [''echo'', ''static'', ''not_found'', ''bad_request'', ''reverse_proxy'',
     ''sleep'', ''status'', ''meme'', ''health_check'']"

lemma createByName_None_iff: "createByName b m name config root_path = Inr None \<longleftrightarrow> name \<notin> set handler_names"
  unfolding createByName_def handler_names_def
  by (auto simp: obind_Inr_iff Let_def split: option.split)

lemma createByName_status:
  "handler_request_map m = Some rm \<Longrightarrow>
   createByName b m ''status'' config root_path =
     Inr (Some (Status \<lparr>request_info_map = rm, status_handlers = manager_handlers m\<rparr>))"
  by (simp add: createByName_def status_setHandlers_def setRequestInfo_def create_defs)

end
