(* ===== verification/Session.thy ===== *)
theory Session
  imports Handler_Manager
begin

text \<open>
  One connection: \<open>src/session.cc\<close>. The socket is a parameter, \<open>socket_api\<close>, over the state of
  the world. \<open>handle_request\<close> is modelled whole: parsing, the choice of the handler by the
  longest matching location, the virtual call, the fallbacks, counting, writing the answer
  and the line of the access log. Its result is \<open>None\<close> when a handler does not return, and
  otherwise the value returned or the fault that ends it, with the states it leaves.
\<close>

section \<open>Sockets and sessions\<close>

record 'w socket_api =
  so_remote_address :: "'w \<Rightarrow> string option"
    \<comment> \<open>\<open>remote_endpoint().address().to_string()\<close>; \<open>None\<close> when it throws\<close>
  so_read_until :: "string \<Rightarrow> 'w \<Rightarrow> (error_code \<times> string) \<times> 'w"
    \<comment> \<open>\<open>async_read_until\<close> up to its completion: the error and what the buffer holds\<close>
  so_write :: "string \<Rightarrow> 'w \<Rightarrow> bool \<times> 'w"
    \<comment> \<open>\<open>boost::asio::write\<close>; False when it throws\<close>
  so_shutdown :: "'w \<Rightarrow> error_code \<times> 'w"
  so_close :: "'w \<Rightarrow> bool \<times> 'w"
    \<comment> \<open>False when it throws\<close>

record Session =
  ss_buffer :: string
  ss_data :: string
  ss_manager :: HandlerManager
  ss_config :: NginxConfig

text \<open>What all sessions share: the counters, through a pointer, and the access log.\<close>

record server_data =
  counters :: request_map
  access_log :: "string list"

definition new_Session :: "NginxConfig \<Rightarrow> Session" where
  "new_Session config =
     \<lparr>ss_buffer = [], ss_data = [], ss_manager = new_HandlerManager, ss_config = config\<rparr>"

definition get_message_request :: "Session \<Rightarrow> string" where
  "get_message_request s = (let msg = ss_buffer s in msg)"

text \<open>The two callbacks of the old echo server, each with the operation it starts.\<close>

datatype session_action = Write_back string | Read_some nat | Delete_this

definition max_length :: nat where "max_length = 1024"

definition handle_read :: "error_code \<Rightarrow> nat \<Rightarrow> Session \<Rightarrow> session_action" where
  "handle_read error bytes_transferred s =
     (if error = Success then Write_back (take bytes_transferred (ss_data s)) else Delete_this)"

definition handle_write :: "error_code \<Rightarrow> session_action" where
  "handle_write error = (if error = Success then Read_some max_length else Delete_this)"

section \<open>Choosing the handler\<close>

text \<open>
  The loop over the handler blocks with the longest match so far, an \<open>unsigned int\<close>, and the
  name and block it came from. The pointer to the block is not initialised.
\<close>

fun match_loop ::
  "boost_api \<Rightarrow> string \<Rightarrow> NginxConfig list \<Rightarrow> uint32_t \<times> string \<times> NginxConfig option \<Rightarrow>
   (uint32_t \<times> string \<times> NginxConfig option) outcome" where
  "match_loop b original_url [] found = Inr found"
| "match_loop b original_url (c # cs) (longest_match_size, handler_name, handler_config) =
     obind (Find b c ''location'') (\<lambda>prefix.
       if find_str original_url prefix = Some 0 \<and> length prefix > unat longest_match_size then
         obind (Find b c ''name'') (\<lambda>name.
           match_loop b original_url cs (of_nat (length prefix), name, Some c))
       else match_loop b original_url cs (longest_match_size, handler_name, handler_config))"

text \<open>The reply of a fallback handler, built from the whole configuration.\<close>

definition fallback_reply ::
  "'w server_env \<Rightarrow> string \<Rightarrow> Session \<Rightarrow> Request \<Rightarrow> 'w \<Rightarrow> (Reply outcome \<times> Session \<times> 'w) option" where
  "fallback_reply e name s request w =
     (case obind (Find (env_boost e) (ss_config s) ''root'') (\<lambda>root.
          createByName (env_boost e) (ss_manager s) name (ss_config s) root) of
        Inl f \<Rightarrow> Some (Inl f, s, w)
      | Inr None \<Rightarrow> Some (Inl Null_dereference, s, w)
      | Inr (Some h) \<Rightarrow>
          (case handler_HandleRequest e h request w of
             None \<Rightarrow> None
           | Some (Inl f, w) \<Rightarrow> Some (Inl f, s, w)
           | Some (Inr None, w) \<Rightarrow> Some (Inl Null_dereference, s, w)
           | Some (Inr (Some r), w) \<Rightarrow> Some (Inr r, s, w)))"

definition choose_reply ::
  "'w server_env \<Rightarrow> request_map \<Rightarrow> Session \<Rightarrow> Request \<Rightarrow> 'w \<Rightarrow> (Reply outcome \<times> Session \<times> 'w) option" where
  "choose_reply e request_map s request w =
     (let b = env_boost e in
      if m_valid request then
        (case obind (FindBlocks b (ss_config s) ''handler'') (\<lambda>handlers.
             obind (match_loop b (m_uri request) handlers (0, [], None)) (\<lambda>found. Inr (handlers, found))) of
           Inl f \<Rightarrow> Some (Inl f, s, w)
         | Inr (handlers, longest_match_size, handler_name, handler_config) \<Rightarrow>
             let manager = setHandlers handlers (setRequestMap request_map (ss_manager s));
                 s = s\<lparr>ss_manager := manager\<rparr> in
             (case handler_config of
                None \<Rightarrow> Some (Inl Indeterminate_value, s, w)
              | Some config \<Rightarrow>
                  (case obind (Find b (ss_config s) ''root'') (createByName b manager handler_name config) of
                     Inl f \<Rightarrow> Some (Inl f, s, w)
                   | Inr None \<Rightarrow> Some (Inl Null_dereference, s, w)
                   | Inr (Some h) \<Rightarrow>
                       (case handler_HandleRequest e h request w of
                          None \<Rightarrow> None
                        | Some (Inl f, w) \<Rightarrow> Some (Inl f, s, w)
                        | Some (Inr None, w) \<Rightarrow> fallback_reply e ''not_found'' s request w
                        | Some (Inr (Some r), w) \<Rightarrow> Some (Inr r, s, w)))))
      else fallback_reply e ''bad_request'' s request w)"

section \<open>Answering\<close>

definition write_string :: "'w socket_api \<Rightarrow> string \<Rightarrow> 'w \<Rightarrow> unit outcome \<times> 'w" where
  "write_string sock send w =
     (let (ok, w) = so_write sock send w in
      if \<not> ok then (Inl System_error, w) else
      let (ec, w) = so_shutdown sock w; (ok, w) = so_close sock w
      in (if ok then Inr () else Inl System_error, w))"

text \<open>
  The loop that strips line ends: its second comparison is made for the empty string too,
  where it reads outside of the string.
\<close>

function strip_line_ends :: "string \<Rightarrow> string outcome" where
  "strip_line_ends s =
     (if s \<noteq> [] \<and> last s = LF then strip_line_ends (butlast s)
      else if s = [] then Inl Bad_index
      else if last s = CR then strip_line_ends (butlast s)
      else Inr s)"
  by pat_completeness auto
termination by (relation "measure length") auto

declare strip_line_ends.simps [simp del]

definition reply_status :: "Reply \<Rightarrow> int outcome" where
  "reply_status r = (case r_status_code r of None \<Rightarrow> Inl Indeterminate_value | Some z \<Rightarrow> Inr z)"

definition access_line :: "string \<Rightarrow> string \<Rightarrow> int \<Rightarrow> string" where
  "access_line s original_request_str status = s @ '' - - '' @ original_request_str @ '' '' @ to_string status"

text \<open>Lines 98 to 123: from the reply to the return.\<close>

definition send_reply ::
  "'w socket_api \<Rightarrow> string \<Rightarrow> Request \<Rightarrow> Reply \<Rightarrow> server_data \<Rightarrow> 'w \<Rightarrow> int outcome \<times> server_data \<times> 'w" where
  "send_reply sock remote request r d w =
     (case obind (reply_status r) (\<lambda>z.
          obind (record_request (m_uri request) z (counters d)) (\<lambda>m. Inr (z, m))) of
        Inl f \<Rightarrow> (Inl f, d, w)
      | Inr (z, m) \<Rightarrow>
          (let d = d\<lparr>counters := m\<rparr> in
           case reply_ToString r of
             Inl f \<Rightarrow> (Inl f, d, w)
           | Inr str \<Rightarrow>
               (case write_string sock str w of
                  (Inl f, w) \<Rightarrow> (Inl f, d, w)
                | (Inr _, w) \<Rightarrow>
                    (case strip_line_ends (m_original_request request) of
                       Inl f \<Rightarrow> (Inl f, d, w)
                     | Inr line \<Rightarrow>
                         (Inr 0, d\<lparr>access_log := access_log d @ [access_line remote line z]\<rparr>, w)))))"

definition handle_request ::
  "'w server_env \<Rightarrow> 'w socket_api \<Rightarrow> Session \<Rightarrow> server_data \<Rightarrow> 'w \<Rightarrow>
   (int outcome \<times> Session \<times> server_data \<times> 'w) option" where
  "handle_request e sock s d w =
     (case ParseRequest (env_boost e) (get_message_request s) of
        Inl f \<Rightarrow> Some (Inl f, s, d, w)
      | Inr request \<Rightarrow>
          (case so_remote_address sock w of
             None \<Rightarrow> Some (Inl System_error, s, d, w)
           | Some remote \<Rightarrow>
               (case choose_reply e (counters d) s request w of
                  None \<Rightarrow> None
                | Some (Inl f, s, w) \<Rightarrow> Some (Inl f, s, d, w)
                | Some (Inr r, s, w) \<Rightarrow>
                    (case send_reply sock remote request r d w of
                       (out, d, w) \<Rightarrow> Some (out, s, d, w)))))"

text \<open>
  \<open>start\<close> up to the completion of what it starts: the callback takes no error code, so it runs
  on whatever was read.
\<close>

definition Session_start ::
  "'w server_env \<Rightarrow> 'w socket_api \<Rightarrow> Session \<Rightarrow> server_data \<Rightarrow> 'w \<Rightarrow>
   (int outcome \<times> Session \<times> server_data \<times> 'w) option" where
  "Session_start e sock s d w =
     (let ((error, received), w) = so_read_until sock crlf2 w
      in handle_request e sock (s\<lparr>ss_buffer := ss_buffer s @ received\<rparr>) d w)"

end
