(* ===== verification/Session_Spec.thy ===== *)
theory Session_Spec
  imports Session Sqlite_Memory
begin

text \<open>
  What a session does: the location loop against the specification \<open>longest match, first of
  equals\<close>, the fallbacks, and the whole of \<open>handle_request\<close> for requests that are echoed, that
  are refused, and that no location matches.
\<close>

section \<open>The longest match\<close>

definition matches :: "(NginxConfig \<Rightarrow> string) \<Rightarrow> string \<Rightarrow> NginxConfig \<Rightarrow> bool" where
  "matches loc uri c \<longleftrightarrow> loc c \<noteq> [] \<and> prefix (loc c) uri"

text \<open>\<open>best loc uri cs c\<close>: of the blocks \<open>cs\<close>, \<open>c\<close> is the first one with a longest match.\<close>

definition best :: "(NginxConfig \<Rightarrow> string) \<Rightarrow> string \<Rightarrow> NginxConfig list \<Rightarrow> NginxConfig \<Rightarrow> bool" where
  "best loc uri cs c \<longleftrightarrow> (\<exists>xs ys. cs = xs @ c # ys \<and> matches loc uri c \<and>
     (\<forall>x \<in> set xs. matches loc uri x \<longrightarrow> length (loc x) < length (loc c)) \<and>
     (\<forall>y \<in> set ys. matches loc uri y \<longrightarrow> length (loc y) \<le> length (loc c)))"

definition readable_block :: "boost_api \<Rightarrow> (NginxConfig \<Rightarrow> string) \<Rightarrow> (NginxConfig \<Rightarrow> string) \<Rightarrow> NginxConfig \<Rightarrow> bool" where
  "readable_block b loc nm c \<longleftrightarrow> Find b c ''location'' = Inr (loc c) \<and> Find b c ''name'' = Inr (nm c)"

lemma match_loop_append:
  "match_loop b uri (xs @ ys) acc = obind (match_loop b uri xs acc) (match_loop b uri ys)"
proof (induction b uri xs acc rule: match_loop.induct)
  case (2 b uri c cs longest name config)
  show ?case
  proof (cases "Find b c ''location''")
    case (Inr p)
    with 2 show ?thesis by (cases "Find b c ''name''") simp_all
  qed simp
qed simp

lemma find_str_0_iff: "find_str s p = Some 0 \<longleftrightarrow> prefix p s"
  by (cases s) (auto simp: find_str_eq)

lemma best_snoc_new:
  "matches loc uri c \<Longrightarrow> \<forall>x \<in> set cs. matches loc uri x \<longrightarrow> length (loc x) < length (loc c) \<Longrightarrow>
   best loc uri (cs @ [c]) c"
  unfolding best_def by (intro exI [of _ cs] exI [of _ "[]"]) simp

lemma best_snoc_old:
  assumes "best loc uri cs d" and "matches loc uri c \<longrightarrow> length (loc c) \<le> length (loc d)"
  shows "best loc uri (cs @ [c]) d"
proof -
  from assms(1) obtain xs ys where "cs = xs @ d # ys" "matches loc uri d"
    "\<forall>x \<in> set xs. matches loc uri x \<longrightarrow> length (loc x) < length (loc d)"
    "\<forall>y \<in> set ys. matches loc uri y \<longrightarrow> length (loc y) \<le> length (loc d)"
    by (auto simp: best_def)
  with assms(2) show ?thesis
    unfolding best_def by (intro exI [of _ xs] exI [of _ "ys @ [c]"]) auto
qed

lemma best_bound: "best loc uri cs d \<Longrightarrow> x \<in> set cs \<Longrightarrow> matches loc uri x \<Longrightarrow> length (loc x) \<le> length (loc d)"
  unfolding best_def by fastforce

lemma matches_length: "matches loc uri c \<Longrightarrow> length (loc c) \<le> length uri"
  unfolding matches_def using prefix_length_le by blast

lemma match_loop_best:
  assumes "\<forall>c \<in> set cs. readable_block b loc nm c" and "length uri < 2 ^ 32"
  shows "(match_loop b uri cs (0, [], None) = Inr (0, [], None) \<and> (\<forall>c \<in> set cs. \<not> matches loc uri c)) \<or>
    (\<exists>c. match_loop b uri cs (0, [], None) = Inr (of_nat (length (loc c)), nm c, Some c) \<and> best loc uri cs c)"
  using assms(1)
proof (induction cs rule: rev_induct)
  case (snoc c cs)
  then have c: "Find b c ''location'' = Inr (loc c)" "Find b c ''name'' = Inr (nm c)"
    by (simp_all add: readable_block_def)
  have len: "unat (of_nat (length (loc d)) :: uint32_t) = length (loc d)" if "matches loc uri d" for d
    using matches_length [OF that] assms(2) by (simp add: unat_of_nat take_bit_nat_eq_self)
  from snoc consider
    (none) "match_loop b uri cs (0, [], None) = Inr (0, [], None)" "\<forall>c \<in> set cs. \<not> matches loc uri c"
  | (some) d where "match_loop b uri cs (0, [], None) = Inr (of_nat (length (loc d)), nm d, Some d)"
      "best loc uri cs d"
    by auto
  then show ?case
  proof cases
    case none
    show ?thesis
    proof (cases "matches loc uri c")
      case True
      have "best loc uri (cs @ [c]) c" using True none by (intro best_snoc_new) auto
      moreover have "prefix (loc c) uri" "loc c \<noteq> []" using True by (simp_all add: matches_def)
      ultimately show ?thesis using none c by (simp add: match_loop_append find_str_0_iff)
    next
      case False
      with none c show ?thesis
        by (auto simp: match_loop_append find_str_0_iff matches_def)
    qed
  next
    case (some d)
    then have "matches loc uri d" by (auto simp: best_def)
    note ld = len [OF this]
    show ?thesis
    proof (cases "matches loc uri c \<and> length (loc d) < length (loc c)")
      case True
      have "\<forall>x \<in> set cs. matches loc uri x \<longrightarrow> length (loc x) < length (loc c)"
        using True best_bound [OF some(2)] by fastforce
      then have "best loc uri (cs @ [c]) c" using True by (intro best_snoc_new) auto
      moreover have "prefix (loc c) uri" using True by (simp add: matches_def)
      ultimately show ?thesis using some True c ld
        by (intro disjI2 exI [of _ c]) (simp add: match_loop_append find_str_0_iff)
    next
      case False
      then have "\<not> (prefix (loc c) uri \<and> length (loc d) < length (loc c))"
        by (auto simp: matches_def)
      with some False best_snoc_old [OF some(2), of c] c ld show ?thesis
        by (intro disjI2 exI [of _ d]) (auto simp: match_loop_append find_str_0_iff)
    qed
  qed
qed simp

lemma split_two:
  assumes "xs @ c # ys = xs' @ d # ys'"
  shows "c = d \<or> (c \<in> set xs' \<and> d \<in> set ys) \<or> (d \<in> set xs \<and> c \<in> set ys')"
proof -
  from assms obtain us where "xs = xs' @ us \<and> us @ c # ys = d # ys' \<or> xs @ us = xs' \<and> c # ys = us @ d # ys'"
    unfolding append_eq_append_conv2 by blast
  then show ?thesis by (cases us) auto
qed

lemma best_unique:
  assumes "best loc uri cs c" and "best loc uri cs d"
  shows "c = d"
proof -
  from assms(1) obtain xs ys where
    c: "cs = xs @ c # ys" "\<forall>x \<in> set xs. matches loc uri x \<longrightarrow> length (loc x) < length (loc c)"
      "matches loc uri c" "\<forall>y \<in> set ys. matches loc uri y \<longrightarrow> length (loc y) \<le> length (loc c)"
    unfolding best_def by blast
  from assms(2) obtain xs' ys' where
    d: "cs = xs' @ d # ys'" "\<forall>x \<in> set xs'. matches loc uri x \<longrightarrow> length (loc x) < length (loc d)"
      "matches loc uri d" "\<forall>y \<in> set ys'. matches loc uri y \<longrightarrow> length (loc y) \<le> length (loc d)"
    unfolding best_def by blast
  from c(1) d(1) have "xs @ c # ys = xs' @ d # ys'" by simp
  from split_two [OF this] c(2-4) d(2-4) show "c = d" by (metis leD)
qed

lemma best_in: "best loc uri cs c \<Longrightarrow> c \<in> set cs \<and> matches loc uri c"
  by (auto simp: best_def)

lemma match_loop_chooses:
  assumes "\<forall>c \<in> set cs. readable_block b loc nm c" and "length uri < 2 ^ 32" and best: "best loc uri cs c"
  shows "match_loop b uri cs (0, [], None) = Inr (of_nat (length (loc c)), nm c, Some c)"
  using match_loop_best [OF assms(1,2)]
proof
  assume "\<exists>d. match_loop b uri cs (0, [], None) = Inr (of_nat (length (loc d)), nm d, Some d) \<and> best loc uri cs d"
  then obtain d where d: "match_loop b uri cs (0, [], None) = Inr (of_nat (length (loc d)), nm d, Some d)"
    and "best loc uri cs d" by blast
  from best_unique [OF this(2) best] d show ?thesis by simp
qed (use best_in [OF best] in blast)

lemma match_loop_none:
  assumes "\<forall>c \<in> set cs. readable_block b loc nm c" and "length uri < 2 ^ 32"
    and none: "\<forall>c \<in> set cs. \<not> matches loc uri c"
  shows "match_loop b uri cs (0, [], None) = Inr (0, [], None)"
  using match_loop_best [OF assms(1,2)] none best_in by blast

section \<open>From the request to the reply\<close>

definition not_found_reply :: Reply where
  "not_found_reply = SetBody (''404 NOT FOUND'' @ crlf)
     (SetHeader ''Content-Type'' ''text/plain'' (SetStatus 404 new_Reply))"

definition bad_request_reply :: Reply where
  "bad_request_reply = SetBody (''400 BAD REQUEST'' @ crlf)
     (SetHeader ''Content-Type'' ''text/plain'' (SetStatus 400 new_Reply))"

lemma fallback_replies:
  assumes "Find (env_boost e) (ss_config s) ''root'' = Inr root"
  shows "fallback_reply e ''not_found'' s request w = Some (Inr not_found_reply, s, w)"
    and "fallback_reply e ''bad_request'' s request w = Some (Inr bad_request_reply, s, w)"
  using assms
  by (simp_all add: fallback_reply_def createByName_def create_defs NotFoundHandler_HandleRequest_def
      BadRequestHandler_HandleRequest_def not_found_reply_def bad_request_reply_def Let_def)

text \<open>The manager a valid request leaves behind, and the handler the best block stands for.\<close>

definition managed :: "request_map \<Rightarrow> NginxConfig list \<Rightarrow> Session \<Rightarrow> Session" where
  "managed rm cs s = s\<lparr>ss_manager := setHandlers cs (setRequestMap rm (ss_manager s))\<rparr>"

definition routed ::
  "boost_api \<Rightarrow> request_map \<Rightarrow> Session \<Rightarrow> string \<Rightarrow> Handler option outcome \<Rightarrow> bool" where
  "routed b rm s uri made \<longleftrightarrow> (\<exists>cs loc nm c root.
     FindBlocks b (ss_config s) ''handler'' = Inr cs \<and> (\<forall>c \<in> set cs. readable_block b loc nm c) \<and>
     best loc uri cs c \<and> Find b (ss_config s) ''root'' = Inr root \<and>
     createByName b (ss_manager (managed rm cs s)) (nm c) c root = made)"

lemma routedI:
  "FindBlocks b (ss_config s) ''handler'' = Inr cs \<Longrightarrow> \<forall>c \<in> set cs. readable_block b loc nm c \<Longrightarrow>
   best loc uri cs c \<Longrightarrow> Find b (ss_config s) ''root'' = Inr root \<Longrightarrow>
   createByName b (ss_manager (managed rm cs s)) (nm c) c root = made \<Longrightarrow> routed b rm s uri made"
  unfolding routed_def by blast

lemma routed_choose:
  assumes "routed (env_boost e) rm s (m_uri request) (Inr (Some h))"
    and "m_valid request" and "length (m_uri request) < 2 ^ 32"
  shows "\<exists>cs. FindBlocks (env_boost e) (ss_config s) ''handler'' = Inr cs \<and>
    choose_reply e rm s request w =
      (case handler_HandleRequest e h request w of
         None \<Rightarrow> None
       | Some (out, w') \<Rightarrow>
           Some (obind out (\<lambda>r. Inr (case r of None \<Rightarrow> not_found_reply | Some r \<Rightarrow> r)), managed rm cs s, w'))"
proof -
  from assms(1) obtain cs loc nm c root where
    cs: "FindBlocks (env_boost e) (ss_config s) ''handler'' = Inr cs"
    and blocks: "\<forall>c \<in> set cs. readable_block (env_boost e) loc nm c" and best: "best loc (m_uri request) cs c"
    and root: "Find (env_boost e) (ss_config s) ''root'' = Inr root"
    and made: "createByName (env_boost e) (ss_manager (managed rm cs s)) (nm c) c root = Inr (Some h)"
    unfolding routed_def by blast
  note loop = match_loop_chooses [OF blocks assms(3) best]
  have made': "createByName (env_boost e) (setHandlers cs (setRequestMap rm (ss_manager s))) (nm c) c root = Inr (Some h)"
    using made by (simp add: managed_def)
  have "Find (env_boost e) (ss_config (managed rm cs s)) ''root'' = Inr root"
    using root by (simp add: managed_def)
  from fallback_replies(1) [OF this] cs loop made' root assms(2) show ?thesis
    by (auto simp: choose_reply_def Let_def managed_def split: option.splits sum.splits)
qed

lemma unmatched_choose:
  assumes "FindBlocks (env_boost e) (ss_config s) ''handler'' = Inr cs"
    and "\<forall>c \<in> set cs. readable_block (env_boost e) loc nm c \<and> \<not> matches loc (m_uri request) c"
    and "m_valid request" and "length (m_uri request) < 2 ^ 32"
  shows "choose_reply e rm s request w = Some (Inl Indeterminate_value, managed rm cs s, w)"
  using assms match_loop_none [of cs "env_boost e" loc nm "m_uri request"]
  by (simp add: choose_reply_def managed_def)

lemma unnamed_choose:
  assumes "routed (env_boost e) rm s (m_uri request) (Inr None)"
    and "m_valid request" and "length (m_uri request) < 2 ^ 32"
  shows "\<exists>s'. choose_reply e rm s request w = Some (Inl Null_dereference, s', w)"
proof -
  from assms(1) obtain cs loc nm c root where
    cs: "FindBlocks (env_boost e) (ss_config s) ''handler'' = Inr cs"
    and blocks: "\<forall>c \<in> set cs. readable_block (env_boost e) loc nm c" and best: "best loc (m_uri request) cs c"
    and root: "Find (env_boost e) (ss_config s) ''root'' = Inr root"
    and made: "createByName (env_boost e) (ss_manager (managed rm cs s)) (nm c) c root = Inr None"
    unfolding routed_def by blast
  note loop = match_loop_chooses [OF blocks assms(3) best]
  have made': "createByName (env_boost e) (setHandlers cs (setRequestMap rm (ss_manager s))) (nm c) c root = Inr None"
    using made by (simp add: managed_def)
  show ?thesis using cs loop root assms(2) made'
    by (simp add: choose_reply_def)
qed

lemma accepted_uri_length: "m_uri (accepted_request s) = word (request_words s) 1"
  by (simp add: accepted_request_def)

lemma accepted_uri_le: "length (m_uri (accepted_request s)) \<le> length s"
proof (cases "word (request_words s) 1 = []")
  case False
  then have "word (request_words s) 1 \<in> set (request_words s)" by (rule word_in)
  then have "length (word (request_words s) 1) \<le> length (takeWhile (\<lambda>c. c \<noteq> CR) s)"
    unfolding request_words_def by (rule split_any_length)
  also have "\<dots> \<le> length s" by (rule length_takeWhile_le)
  finally show ?thesis by (simp add: accepted_uri_length)
qed (simp add: accepted_uri_length)

section \<open>Line ends\<close>

lemma strip_line_ends_eq:
  "strip_line_ends s =
     (case rev (dropWhile (\<lambda>c. c = LF \<or> c = CR) (rev s)) of [] \<Rightarrow> Inl Bad_index | t \<Rightarrow> Inr t)"
proof (induction s rule: rev_induct)
  case Nil
  then show ?case by (simp add: strip_line_ends.simps [of "[]"])
next
  case (snoc c s)
  then show ?case
    by (cases "c = LF \<or> c = CR") (auto simp: strip_line_ends.simps [of "s @ [c]"] split: list.split)
qed

lemma strip_line_ends_some:
  "c \<in> set s \<Longrightarrow> c \<noteq> LF \<Longrightarrow> c \<noteq> CR \<Longrightarrow>
   strip_line_ends s = Inr (rev (dropWhile (\<lambda>c. c = LF \<or> c = CR) (rev s)))"
  unfolding strip_line_ends_eq by (auto simp: dropWhile_eq_Nil_conv split: list.split)

section \<open>A configuration, an environment and a socket\<close>

definition sample_echo :: NginxConfig where
  "sample_echo = Config [Statement [''name'', ''echo''] None, Statement [''location'', ''/echo''] None]"

definition sample_root :: NginxConfig where
  "sample_root = Config [Statement [''name'', ''static''] None, Statement [''location'', ''/echoes''] None,
     Statement [''root'', ''/www''] None]"

definition sample_odd :: NginxConfig where
  "sample_odd = Config [Statement [''name'', ''ecko''] None, Statement [''location'', ''/odd''] None]"

definition sample_config :: NginxConfig where
  "sample_config = Config [Statement [''port'', ''8080''] None, Statement [''root'', ''.''] None,
     Statement [''handler''] (Some sample_root), Statement [''handler''] (Some sample_echo),
     Statement [''handler''] (Some sample_odd)]"

definition no_net :: "'w asio" where
  "no_net = \<lparr>asio_resolve = (\<lambda>host port w. ((Asio_error 1, 0), w)), asio_connect = (\<lambda>i w. ((Asio_error 1, 0), w)),
     asio_write = (\<lambda>s text w. (Asio_error 1, w)), asio_read = (\<lambda>s w. ((Asio_error 1, []), w))\<rparr>"

definition sample_env :: "mem_world server_env" where
  "sample_env = \<lparr>env_boost = boost_model, env_files = sample_files, env_net = no_net, env_sql = mem_api,
     env_stack = (0, 0)\<rparr>"

definition sample_socket :: "'w socket_api" where
  "sample_socket = \<lparr>so_remote_address = (\<lambda>w. Some ''127.0.0.1''),
     so_read_until = (\<lambda>delim w. ((Eof, []), w)), so_write = (\<lambda>text w. (True, w)),
     so_shutdown = (\<lambda>w. (Success, w)), so_close = (\<lambda>w. (True, w))\<rparr>"

definition fresh_data :: server_data where
  "fresh_data = \<lparr>counters = [], access_log = []\<rparr>"

definition received :: "string \<Rightarrow> Session" where
  "received msg = (new_Session sample_config)\<lparr>ss_buffer := msg\<rparr>"

definition location_of :: "NginxConfig \<Rightarrow> string" where
  "location_of c = (case Find boost_model c ''location'' of Inl f \<Rightarrow> [] | Inr l \<Rightarrow> l)"

definition name_of :: "NginxConfig \<Rightarrow> string" where
  "name_of c = (case Find boost_model c ''name'' of Inl f \<Rightarrow> [] | Inr l \<Rightarrow> l)"

lemma sample_finds:
  "Find boost_model sample_echo ''location'' = Inr ''/echo''" "Find boost_model sample_echo ''name'' = Inr ''echo''"
  "Find boost_model sample_root ''location'' = Inr ''/echoes''" "Find boost_model sample_root ''name'' = Inr ''static''"
  "Find boost_model sample_odd ''location'' = Inr ''/odd''" "Find boost_model sample_odd ''name'' = Inr ''ecko''"
  "Find boost_model sample_config ''root'' = Inr ''.''"
  "FindBlocks boost_model sample_config ''handler'' = Inr [sample_root, sample_echo, sample_odd]"
  by code_simp+

lemma sample_blocks:
  "\<forall>c \<in> set [sample_root, sample_echo, sample_odd]. readable_block boost_model location_of name_of c"
  "location_of sample_echo = ''/echo''" "location_of sample_root = ''/echoes''" "location_of sample_odd = ''/odd''"
  "name_of sample_echo = ''echo''" "name_of sample_odd = ''ecko''"
  by (simp_all add: readable_block_def location_of_def name_of_def sample_finds)

lemma sample_best:
  "best location_of ''/echo/x'' [sample_root, sample_echo, sample_odd] sample_echo"
  "best location_of ''/odd'' [sample_root, sample_echo, sample_odd] sample_odd"
  unfolding best_def
  by (intro exI [of _ "[sample_root]"] exI [of _ "[sample_odd]"], simp add: matches_def sample_blocks)
    (intro exI [of _ "[sample_root, sample_echo]"] exI [of _ "[]"], simp add: matches_def sample_blocks)

lemma sample_fields [simp]:
  "env_boost sample_env = boost_model" "so_remote_address sample_socket w = Some ''127.0.0.1''"
  "ss_buffer (received msg) = msg" "ss_config (received msg) = sample_config"
  by (simp_all add: sample_env_def sample_socket_def received_def new_Session_def)

lemma sample_sends [simp]: "write_string sample_socket send w = (Inr (), w)"
  by (simp add: write_string_def sample_socket_def)

section \<open>Properties\<close>

text \<open>
  Claim C13. Dispatch: over handler blocks that all have a location and a name, the loop
  ends with the first of the blocks whose nonempty location is a longest prefix of the URI,
  and with nothing chosen exactly when no block has a nonempty location that is a prefix.
\<close>

theorem match_loop_longest:
  "\<forall>c \<in> set cs. Find b c ''location'' = Inr (loc c) \<and> Find b c ''name'' = Inr (nm c) \<Longrightarrow>
   length uri < 2 ^ 32 \<Longrightarrow>
   (match_loop b uri cs (0, [], None) = Inr (0, [], None) \<and> (\<forall>c \<in> set cs. \<not> matches loc uri c)) \<or>
   (\<exists>c. match_loop b uri cs (0, [], None) = Inr (of_nat (length (loc c)), nm c, Some c) \<and> best loc uri cs c)"
  using match_loop_best [of cs b loc nm uri] by (simp add: readable_block_def)

theorem match_loop_longest_witness:
  "\<exists>c. match_loop boost_model ''/echo/x'' [sample_root, sample_echo, sample_odd] (0, [], None) =
       Inr (of_nat (length (location_of c)), name_of c, Some c) \<and>
     best location_of ''/echo/x'' [sample_root, sample_echo, sample_odd] c"
proof -
  have "matches location_of ''/echo/x'' sample_echo" by (simp add: matches_def sample_blocks)
  then show ?thesis
    using match_loop_longest [of "[sample_root, sample_echo, sample_odd]" boost_model location_of name_of "''/echo/x''"]
      sample_blocks(1) by (auto simp: readable_block_def)
qed

lemma handle_request_accepted:
  assumes "boost_documented (env_boost e)" and "length (ss_buffer s) < 2 ^ 32" and "acceptable (ss_buffer s)"
    and "so_remote_address sock w = Some ip"
  shows "handle_request e sock s d w =
    (case choose_reply e (counters d) s (accepted_request (ss_buffer s)) w of
       None \<Rightarrow> None
     | Some (Inl f, s', w) \<Rightarrow> Some (Inl f, s', d, w)
     | Some (Inr r, s', w) \<Rightarrow>
         (case send_reply sock ip (accepted_request (ss_buffer s)) r d w of (out, d, w) \<Rightarrow> Some (out, s', d, w)))"
  using assms ParseRequest_eq [OF assms(1), of "ss_buffer s"]
  by (simp add: handle_request_def get_message_request_def)

lemma request_routed_cases:
  assumes b: "boost_documented (env_boost e)" "length (ss_buffer s) < 2 ^ 32" "acceptable (ss_buffer s)"
    "so_remote_address sock w = Some ip"
    and routed: "routed (env_boost e) (counters d) s (m_uri (accepted_request (ss_buffer s))) (Inr (Some h))"
  shows "\<exists>s'. handle_request e sock s d w =
     (case handler_HandleRequest e h (accepted_request (ss_buffer s)) w of
        None \<Rightarrow> None
      | Some (Inl f, w') \<Rightarrow> Some (Inl f, s', d, w')
      | Some (Inr a, w') \<Rightarrow>
          (case send_reply sock ip (accepted_request (ss_buffer s)) (case a of None \<Rightarrow> not_found_reply | Some r \<Rightarrow> r) d w' of
             (out, d', w'') \<Rightarrow> Some (out, s', d', w'')))"
proof -
  let ?r = "accepted_request (ss_buffer s)"
  have "m_valid ?r" by (simp add: accepted_request_def)
  moreover have "length (m_uri ?r) < 2 ^ 32"
    using accepted_uri_le [of "ss_buffer s"] b(2) by simp
  ultimately obtain cs where choose: "choose_reply e (counters d) s ?r w =
      (case handler_HandleRequest e h ?r w of
         None \<Rightarrow> None
       | Some (out, w') \<Rightarrow> Some (obind out (\<lambda>r. Inr (case r of None \<Rightarrow> not_found_reply | Some r \<Rightarrow> r)),
           managed (counters d) cs s, w'))"
    using routed_choose [OF routed] by blast
  show ?thesis
    unfolding handle_request_accepted [OF b] choose
    by (intro exI [of _ "managed (counters d) cs s"]) (auto split: option.splits sum.splits)
qed

text \<open>
  Claim C2. A valid request is answered by the handler of the best block, and by nothing
  else: with that handler's reply, with the 404 page when the handler returns a null pointer,
  with that handler's exception, and not at all when the handler does not return.
\<close>

theorem request_routed:
  "boost_documented (env_boost e) \<Longrightarrow> length (ss_buffer s) < 2 ^ 32 \<Longrightarrow> acceptable (ss_buffer s) \<Longrightarrow>
   so_remote_address sock w = Some ip \<Longrightarrow> request = accepted_request (ss_buffer s) \<Longrightarrow>
   routed (env_boost e) (counters d) s (m_uri request) (Inr (Some h)) \<Longrightarrow>
   \<exists>s'. handle_request e sock s d w =
     (case handler_HandleRequest e h request w of
        None \<Rightarrow> None
      | Some (Inl f, w') \<Rightarrow> Some (Inl f, s', d, w')
      | Some (Inr a, w') \<Rightarrow>
          (case send_reply sock ip request (case a of None \<Rightarrow> not_found_reply | Some r \<Rightarrow> r) d w' of
             (out, d', w'') \<Rightarrow> Some (out, s', d', w'')))"
  by hypsubst (rule request_routed_cases; assumption)

lemma sample_uri:
  "acceptable ''GET /echo/x HTTP/1.1''" "m_uri (accepted_request ''GET /echo/x HTTP/1.1'') = ''/echo/x''"
  "acceptable ''GET /odd HTTP/1.1''" "m_uri (accepted_request ''GET /odd HTTP/1.1'') = ''/odd''"
  "acceptable ''GET /none HTTP/1.1''" "m_uri (accepted_request ''GET /none HTTP/1.1'') = ''/none''"
  by code_simp+

lemma sample_routed:
  "routed boost_model rm (received msg) ''/echo/x'' (Inr (Some (Echo New_EchoHandler)))"
  "routed boost_model rm (received msg) ''/odd'' (Inr None)"
proof -
  note blocks = sample_finds(8) [folded sample_fields(4) [of msg]] sample_blocks(1)
    and root = sample_finds(7) [folded sample_fields(4) [of msg]]
  show "routed boost_model rm (received msg) ''/echo/x'' (Inr (Some (Echo New_EchoHandler)))"
    by (rule routedI [OF blocks sample_best(1) root]) (simp add: createByName_def create_defs sample_blocks)
  show "routed boost_model rm (received msg) ''/odd'' (Inr None)"
    by (rule routedI [OF blocks sample_best(2) root]) (simp add: createByName_def create_defs sample_blocks)
qed

theorem request_routed_witness:
  "\<exists>s'. handle_request sample_env sample_socket (received ''GET /echo/x HTTP/1.1'') fresh_data empty_world =
     (case EchoHandler_HandleRequest (accepted_request ''GET /echo/x HTTP/1.1'') of
        Inl f \<Rightarrow> Some (Inl f, s', fresh_data, empty_world)
      | Inr a \<Rightarrow>
          (case send_reply sample_socket ''127.0.0.1'' (accepted_request ''GET /echo/x HTTP/1.1'')
              (case a of None \<Rightarrow> not_found_reply | Some r \<Rightarrow> r) fresh_data empty_world of
             (out, d', w'') \<Rightarrow> Some (out, s', d', w'')))"
  using request_routed [of sample_env "received ''GET /echo/x HTTP/1.1''" sample_socket empty_world
      "''127.0.0.1''" "accepted_request ''GET /echo/x HTTP/1.1''" fresh_data "Echo New_EchoHandler"]
  unfolding sample_fields sample_uri
  by (simp add: sample_uri sample_routed(1) boost_model_documented split: sum.split)

text \<open>
  Claim C27. A valid request that no location matches, or whose best block names no known
  handler, ends in the use of a pointer that was never set, or of a null pointer: nothing is
  written to the client and nothing is counted.
\<close>

theorem unserved_request_faults:
  "boost_documented (env_boost e) \<Longrightarrow> length (ss_buffer s) < 2 ^ 32 \<Longrightarrow> acceptable (ss_buffer s) \<Longrightarrow>
   so_remote_address sock w = Some ip \<Longrightarrow> uri = m_uri (accepted_request (ss_buffer s)) \<Longrightarrow>
   (\<exists>cs loc nm. FindBlocks (env_boost e) (ss_config s) ''handler'' = Inr cs \<and>
      (\<forall>c \<in> set cs. readable_block (env_boost e) loc nm c \<and> \<not> matches loc uri c)) \<or>
   routed (env_boost e) (counters d) s uri (Inr None) \<Longrightarrow>
   \<exists>f s'. f \<in> {Indeterminate_value, Null_dereference} \<and> handle_request e sock s d w = Some (Inl f, s', d, w)"
proof -
  assume b: "boost_documented (env_boost e)" "length (ss_buffer s) < 2 ^ 32" "acceptable (ss_buffer s)"
    "so_remote_address sock w = Some ip" and uri: "uri = m_uri (accepted_request (ss_buffer s))"
    and un: "(\<exists>cs loc nm. FindBlocks (env_boost e) (ss_config s) ''handler'' = Inr cs \<and>
      (\<forall>c \<in> set cs. readable_block (env_boost e) loc nm c \<and> \<not> matches loc uri c)) \<or>
      routed (env_boost e) (counters d) s uri (Inr None)"
  let ?r = "accepted_request (ss_buffer s)"
  have v: "m_valid ?r" by (simp add: accepted_request_def)
  have l: "length (m_uri ?r) < 2 ^ 32" using accepted_uri_le [of "ss_buffer s"] b(2) by simp
  obtain f s' where f: "f \<in> {Indeterminate_value, Null_dereference}"
    and choose: "choose_reply e (counters d) s ?r w = Some (Inl f, s', w)"
    using un unfolding uri
  proof (elim disjE exE conjE)
    fix cs loc nm
    assume "FindBlocks (env_boost e) (ss_config s) ''handler'' = Inr cs"
      and "\<forall>c \<in> set cs. readable_block (env_boost e) loc nm c \<and> \<not> matches loc (m_uri ?r) c"
    from unmatched_choose [OF this v l] that show thesis by blast
  next
    assume "routed (env_boost e) (counters d) s (m_uri ?r) (Inr None)"
    from unnamed_choose [OF this v l] that show thesis by blast
  qed
  show ?thesis
    by (rule exI [of _ f], rule exI [of _ s']) (simp add: f [simplified] handle_request_accepted [OF b] choose)
qed

theorem unserved_request_faults_witness:
  "\<exists>f s'. f \<in> {Indeterminate_value, Null_dereference} \<and>
     handle_request sample_env sample_socket (received ''GET /odd HTTP/1.1'') fresh_data empty_world =
       Some (Inl f, s', fresh_data, empty_world)"
proof (rule unserved_request_faults [where ip = "''127.0.0.1''" and uri = "''/odd''"])
  show "boost_documented (env_boost sample_env)" by (simp add: boost_model_documented)
  show "(\<exists>cs loc nm. FindBlocks (env_boost sample_env) (ss_config (received ''GET /odd HTTP/1.1'')) ''handler'' = Inr cs \<and>
      (\<forall>c \<in> set cs. readable_block (env_boost sample_env) loc nm c \<and> \<not> matches loc ''/odd'' c)) \<or>
      routed (env_boost sample_env) (counters fresh_data) (received ''GET /odd HTTP/1.1'') ''/odd'' (Inr None)"
    unfolding sample_fields by (rule disjI2, rule sample_routed(2))
qed (simp_all only: sample_fields sample_uri, simp)

text \<open>
  Claim C29. A text that is not a request is answered with status 400, which is counted under
  the empty URI; then the loop that strips line ends reads before the beginning of the empty
  text that the parser left, so the call does not end properly.
\<close>

theorem refused_request:
  "boost_documented (env_boost e) \<Longrightarrow> length (ss_buffer s) < 2 ^ 32 \<Longrightarrow> \<not> acceptable (ss_buffer s) \<Longrightarrow>
   so_remote_address sock w = Some ip \<Longrightarrow> Find (env_boost e) (ss_config s) ''root'' = Inr root \<Longrightarrow>
   record_request [] 400 (counters d) = Inr m \<Longrightarrow>
   write_string sock (''HTTP/1.1 400 '' @ crlf @ ''Content-Type: text/plain'' @ crlf @ crlf @ ''400 BAD REQUEST'' @ crlf) w =
     (Inr (), w') \<Longrightarrow>
   handle_request e sock s d w = Some (Inl Bad_index, s, d\<lparr>counters := m\<rparr>, w')"
proof -
  assume b: "boost_documented (env_boost e)" and len: "length (ss_buffer s) < 2 ^ 32" and na: "\<not> acceptable (ss_buffer s)"
    and ip: "so_remote_address sock w = Some ip" and root: "Find (env_boost e) (ss_config s) ''root'' = Inr root"
    and m: "record_request [] 400 (counters d) = Inr m"
    and wr: "write_string sock (''HTTP/1.1 400 '' @ crlf @ ''Content-Type: text/plain'' @ crlf @ crlf @ ''400 BAD REQUEST'' @ crlf) w =
     (Inr (), w')"
  have "to_string 400 = ''400''" by code_simp
  then have printed: "reply_ToString bad_request_reply =
      Inr (''HTTP/1.1 400 '' @ crlf @ ''Content-Type: text/plain'' @ crlf @ crlf @ ''400 BAD REQUEST'' @ crlf)"
    by (simp add: reply_ToString_def bad_request_reply_def reply_ops header_text_def)
  have status: "reply_status bad_request_reply = Inr 400"
    by (simp add: reply_status_def bad_request_reply_def reply_ops)
  have fresh: "\<not> m_valid (fresh_request [])" "m_uri (fresh_request []) = []" "m_original_request (fresh_request []) = []"
    by (simp_all add: fresh_request_def)
  have "send_reply sock ip (fresh_request []) bad_request_reply d w = (Inl Bad_index, d\<lparr>counters := m\<rparr>, w')"
    by (simp only: send_reply_def fresh status m printed wr obind_simps sum.case prod.case Let_def
        strip_line_ends_eq rev.simps dropWhile.simps list.case)
  then show ?thesis
    using ParseRequest_eq [OF b len] na ip fallback_replies(2) [OF root]
    by (simp add: handle_request_def get_message_request_def choose_reply_def fresh)
qed

theorem refused_request_witness:
  "handle_request sample_env sample_socket (received ''DELETE / HTTP/1.1'') fresh_data empty_world =
     Some (Inl Bad_index, received ''DELETE / HTTP/1.1'',
       fresh_data\<lparr>counters := [([], [(400, 1)])]\<rparr>, empty_world)"
proof (rule refused_request [where ip = "''127.0.0.1''"])
  show "boost_documented (env_boost sample_env)" by (simp add: boost_model_documented)
  show "\<not> acceptable (ss_buffer (received ''DELETE / HTTP/1.1''))" unfolding sample_fields by code_simp
  show "Find (env_boost sample_env) (ss_config (received ''DELETE / HTTP/1.1'')) ''root'' = Inr ''.''"
    unfolding sample_fields by (rule sample_finds)
  show "record_request [] 400 (counters fresh_data) = Inr [([], [(400, 1)])]" by code_simp
qed simp_all

lemma send_reply_sent:
  assumes "send_reply sock ip request r d w = (Inr z, d', w')"
  obtains code m str line where "z = 0" "r_status_code r = Some code" "reply_ToString r = Inr str"
    "record_request (m_uri request) code (counters d) = Inr m" "write_string sock str w = (Inr (), w')"
    "strip_line_ends (m_original_request request) = Inr line"
    "d' = \<lparr>counters = m, access_log = access_log d @ [access_line ip line code]\<rparr>"
  using assms
  by (auto simp: send_reply_def reply_status_def obind_Inr_iff obind_Inl_iff Let_def
      split: sum.splits prod.splits option.splits)

lemma acceptable_H: "acceptable s \<Longrightarrow> CHR ''H'' \<in> set s"
proof -
  assume "acceptable s"
  then have w: "word (request_words s) 2 = ''HTTP/1.1''" by (simp add: acceptable_def Let_def)
  have "word (request_words s) 2 \<in> set (request_words s)" by (rule word_in) (simp add: w)
  then have "''HTTP/1.1'' \<in> set (split_any '' '' (takeWhile (\<lambda>c. c \<noteq> CR) s))"
    unfolding w by (simp only: request_words_def)
  from split_any_no_seps [OF this] show ?thesis by (auto dest: set_takeWhileD)
qed

text \<open>A new session that has read a request.\<close>

definition with_request :: "NginxConfig \<Rightarrow> string \<Rightarrow> Session" where
  "with_request config msg = (new_Session config)\<lparr>ss_buffer := msg\<rparr>"

lemma with_request_fields [simp]:
  "ss_buffer (with_request config msg) = msg" "ss_config (with_request config msg) = config"
  by (simp_all add: with_request_def new_Session_def)

text \<open>A handler that answers, and a socket that takes the text: the call returns.\<close>

lemma returned_request:
  assumes b: "boost_documented (env_boost e)" "length (ss_buffer s) < 2 ^ 32" "acceptable (ss_buffer s)"
    "so_remote_address sock w = Some ip"
    and routed: "routed (env_boost e) (counters d) s (m_uri (accepted_request (ss_buffer s))) (Inr (Some h))"
    and run: "handler_HandleRequest e h (accepted_request (ss_buffer s)) w = Some (Inr a, w1)"
    and r: "r_status_code (case a of None \<Rightarrow> not_found_reply | Some r \<Rightarrow> r) = Some code"
      "reply_ToString (case a of None \<Rightarrow> not_found_reply | Some r \<Rightarrow> r) = Inr str"
    and ok: "counters_ok (counters d)" "total_requests (counters d) < int_max"
    and wr: "write_string sock str w1 = (Inr (), w')"
  shows "\<exists>s' d' line. handle_request e sock s d w = Some (Inr 0, s', d', w') \<and>
     record_request (m_uri (accepted_request (ss_buffer s))) code (counters d) = Inr (counters d') \<and>
     strip_line_ends (ss_buffer s) = Inr line \<and> access_log d' = access_log d @ [access_line ip line code]"
proof -
  let ?q = "accepted_request (ss_buffer s)"
  have orig: "m_original_request ?q = ss_buffer s" by (simp add: accepted_request_def)
  obtain m where m: "record_request (m_uri ?q) code (counters d) = Inr m"
    using record_request_succeeds [OF ok] by blast
  obtain line where line: "strip_line_ends (ss_buffer s) = Inr line"
    using strip_line_ends_some [OF acceptable_H [OF b(3)]] by simp
  have send: "send_reply sock ip ?q (case a of None \<Rightarrow> not_found_reply | Some r \<Rightarrow> r) d w1 =
      (Inr 0, \<lparr>counters = m, access_log = access_log d @ [access_line ip line code]\<rparr>, w')"
    by (simp add: send_reply_def reply_status_def r m wr orig line)
  with request_routed_cases [OF b routed] run m line show ?thesis by auto
qed

lemmas answered_request = returned_request [where a = "Some r" for r, unfolded option.case]

lemma plain_200_text:
  "reply_ToString (SetBody body (SetHeader ''Content-Type'' ''text/plain'' (SetStatus 200 new_Reply))) =
     Inr (''HTTP/1.1 200 OK'' @ crlf @ ''Content-Type: text/plain'' @ crlf @ crlf @ body)"
proof -
  have "to_string 200 = ''200''" by code_simp
  then show ?thesis by (simp add: reply_ToString_def reply_ops header_text_def)
qed

lemma echo_request:
  assumes b: "boost_documented (env_boost e)" "length (ss_buffer s) < 2 ^ 32" "acceptable (ss_buffer s)"
    "so_remote_address sock w = Some ip"
    and routed: "routed (env_boost e) (counters d) s (m_uri (accepted_request (ss_buffer s))) (Inr (Some (Echo New_EchoHandler)))"
    and ok: "counters_ok (counters d)" "total_requests (counters d) < int_max"
    and wr: "write_string sock (''HTTP/1.1 200 OK'' @ crlf @ ''Content-Type: text/plain'' @ crlf @ crlf @ ss_buffer s) w = (Inr (), w')"
  shows "\<exists>s' d' line. handle_request e sock s d w = Some (Inr 0, s', d', w') \<and>
     record_request (m_uri (accepted_request (ss_buffer s))) 200 (counters d) = Inr (counters d') \<and>
     strip_line_ends (ss_buffer s) = Inr line \<and> access_log d' = access_log d @ [access_line ip line 200]"
proof (rule answered_request [OF b routed _ _ plain_200_text ok wr])
  show "handler_HandleRequest e (Echo New_EchoHandler) (accepted_request (ss_buffer s)) w =
      Some (Inr (Some (SetBody (ss_buffer s) (SetHeader ''Content-Type'' ''text/plain'' (SetStatus 200 new_Reply)))), w)"
    by (simp add: EchoHandler_HandleRequest_def accepted_request_def)
qed (simp add: reply_ops)

lemma echo_sample:
  "\<exists>s' d' line. handle_request sample_env sample_socket (received ''GET /echo/x HTTP/1.1'') fresh_data empty_world =
       Some (Inr 0, s', d', empty_world) \<and>
     record_request ''/echo/x'' 200 [] = Inr (counters d') \<and>
     strip_line_ends ''GET /echo/x HTTP/1.1'' = Inr line \<and> access_log d' = [access_line ''127.0.0.1'' line 200]"
  using echo_request [of sample_env "received ''GET /echo/x HTTP/1.1''" sample_socket empty_world "''127.0.0.1''" fresh_data empty_world]
  unfolding sample_fields sample_uri
  by (simp add: sample_uri sample_routed(1) boost_model_documented fresh_data_def counters_ok_def
      total_requests_def int_max_def)

text \<open>
  Claim C20. Every call that returns has sent one reply and counted it once: the text of a
  reply with a status code was written to the client, exactly the counter of that URI and
  status has grown, by one, and one line was added to the access log.
\<close>

theorem returned_is_counted:
  "handle_request e sock s d w = Some (Inr z, s', d', w') \<Longrightarrow>
   \<exists>request r code text w1 line. ParseRequest (env_boost e) (get_message_request s) = Inr request \<and>
     r_status_code r = Some code \<and> reply_ToString r = Inr text \<and> write_string sock text w1 = (Inr (), w') \<and>
     (\<forall>u c. request_count (counters d') u c =
        request_count (counters d) u c + (if u = m_uri request \<and> c = code then 1 else 0)) \<and>
     access_log d' = access_log d @ [line] \<and> z = 0"
proof -
  assume run: "handle_request e sock s d w = Some (Inr z, s', d', w')"
  then obtain request ip r w1 where req: "ParseRequest (env_boost e) (get_message_request s) = Inr request"
    and send: "send_reply sock ip request r d w1 = (Inr z, d', w')"
    by (auto simp: handle_request_def split: sum.splits option.splits prod.splits)
  from send_reply_sent [OF send] obtain code m str line where
    "z = 0" "r_status_code r = Some code" "reply_ToString r = Inr str"
    and rec: "record_request (m_uri request) code (counters d) = Inr m"
    and wr: "write_string sock str w1 = (Inr (), w')"
    and d': "d' = \<lparr>counters = m, access_log = access_log d @ [access_line ip line code]\<rparr>" by metis
  with req show ?thesis
    by (intro exI [of _ request] exI [of _ r] exI [of _ code] exI [of _ str] exI [of _ w1]
        exI [of _ "access_line ip line code"])
      (simp add: record_request_count [OF rec])
qed

theorem returned_is_counted_witness:
  "\<exists>s' d' request (r :: Reply) code. handle_request sample_env sample_socket (received ''GET /echo/x HTTP/1.1'') fresh_data empty_world =
       Some (Inr 0, s', d', empty_world) \<and>
     ParseRequest boost_model (get_message_request (received ''GET /echo/x HTTP/1.1'')) = Inr request \<and>
     r_status_code r = Some code \<and> request_count (counters d') (m_uri request) code = 1"
proof -
  obtain s' d' where run: "handle_request sample_env sample_socket (received ''GET /echo/x HTTP/1.1'') fresh_data empty_world =
      Some (Inr 0, s', d', empty_world)"
    using echo_sample by blast
  obtain request code and r :: Reply where "ParseRequest (env_boost sample_env)
        (get_message_request (received ''GET /echo/x HTTP/1.1'')) = Inr request" "r_status_code r = Some code"
    and count: "\<forall>u c. request_count (counters d') u c =
      request_count (counters fresh_data) u c + (if u = m_uri request \<and> c = code then 1 else 0)"
    using returned_is_counted [OF run] by blast
  moreover have "request_count (counters d') (m_uri request) code = 1"
    unfolding count [rule_format] by (simp add: fresh_data_def request_count_def map_at_def)
  ultimately show ?thesis
    by (intro exI [of _ s'] exI [of _ d'] exI [of _ request] exI [of _ r] exI [of _ code])
      (simp add: run)
qed

text \<open>
  The echo service as a whole: a valid request whose best block is an echo handler
  is answered with status 200, type text/plain and the request itself, byte for byte, as the
  body; it is counted and logged without its trailing line ends, and the call returns.
\<close>

theorem echo_served:
  "boost_documented (env_boost e) \<Longrightarrow> length (ss_buffer s) < 2 ^ 32 \<Longrightarrow> acceptable (ss_buffer s) \<Longrightarrow>
   so_remote_address sock w = Some ip \<Longrightarrow>
   routed (env_boost e) (counters d) s (m_uri (accepted_request (ss_buffer s))) (Inr (Some (Echo New_EchoHandler))) \<Longrightarrow>
   counters_ok (counters d) \<Longrightarrow> total_requests (counters d) < int_max \<Longrightarrow>
   write_string sock (''HTTP/1.1 200 OK'' @ crlf @ ''Content-Type: text/plain'' @ crlf @ crlf @ ss_buffer s) w = (Inr (), w') \<Longrightarrow>
   \<exists>s' d' line. handle_request e sock s d w = Some (Inr 0, s', d', w') \<and>
     record_request (m_uri (accepted_request (ss_buffer s))) 200 (counters d) = Inr (counters d') \<and>
     strip_line_ends (ss_buffer s) = Inr line \<and> access_log d' = access_log d @ [access_line ip line 200]"
  by (rule echo_request)

theorem echo_served_witness:
  "\<exists>s' d' line. handle_request sample_env sample_socket (received ''POST /echo/x HTTP/1.1'') fresh_data empty_world =
       Some (Inr 0, s', d', empty_world) \<and>
     record_request ''/echo/x'' 200 [] = Inr (counters d') \<and>
     strip_line_ends ''POST /echo/x HTTP/1.1'' = Inr line \<and> access_log d' = [access_line ''127.0.0.1'' line 200]"
proof -
  have "acceptable ''POST /echo/x HTTP/1.1''" "m_uri (accepted_request ''POST /echo/x HTTP/1.1'') = ''/echo/x''"
    by code_simp+
  then show ?thesis
    using echo_served [of sample_env "received ''POST /echo/x HTTP/1.1''" sample_socket empty_world "''127.0.0.1''" fresh_data empty_world]
    by (simp add: sample_routed(1) boost_model_documented fresh_data_def counters_ok_def
        total_requests_def int_max_def)
qed

end
