(* ===== verification/Server.thy ===== *)
theory Server
  imports Session
begin

text \<open>
  The server: \<open>src/server.cc\<close>. Its state holds the sessions that are allocated, those an
  accept is pending for, those that are read from, the data the sessions share and the number
  of threads that are free to run callbacks. The callbacks the io_service may run next are a
  step relation: an accept completes, or a read completes and the request is handled. A
  callback is one step; the unsynchronised use of the counters by several threads is not
  modelled.
\<close>

section \<open>State\<close>

record server =
  sv_config :: NginxConfig
  sv_sessions :: "(nat \<times> Session) list"
  sv_next :: nat
  sv_accepting :: "nat list"
  sv_reading :: "nat list"
  sv_data :: server_data
  sv_workers :: nat
  sv_fault :: "fault option"

text \<open>\<open>new Session\<close>: sessions are named by numbers.\<close>

definition alloc_session :: "server \<Rightarrow> nat \<times> server" where
  "alloc_session sv =
     (sv_next sv, sv\<lparr>sv_sessions := (sv_next sv, new_Session (sv_config sv)) # sv_sessions sv,
                     sv_next := Suc (sv_next sv)\<rparr>)"

definition delete_session :: "nat \<Rightarrow> server \<Rightarrow> server" where
  "delete_session i sv = sv\<lparr>sv_sessions := filter (\<lambda>s. fst s \<noteq> i) (sv_sessions sv)\<rparr>"

definition async_accept :: "nat \<Rightarrow> server \<Rightarrow> server" where
  "async_accept i sv = sv\<lparr>sv_accepting := sv_accepting sv @ [i]\<rparr>"

definition start_accept :: "server \<Rightarrow> server" where
  "start_accept sv = (let (new_session, sv) = alloc_session sv in async_accept new_session sv)"

definition handle_accept :: "nat \<Rightarrow> error_code \<Rightarrow> server \<Rightarrow> server" where
  "handle_accept new_session error sv =
     start_accept
       (if error = Success then
          (let sv = sv\<lparr>sv_reading := sv_reading sv @ [new_session]\<rparr>;
               (new_session, sv) = alloc_session sv
           in async_accept new_session sv)
        else delete_session new_session sv)"

text \<open>
  \<open>run\<close> starts the threads of the pool and joins them. When the pool is empty it returns at
  once and \<open>main\<close> runs the io_service itself.
\<close>

datatype thread_op = Io_service_run nat | Join nat

definition Server_run :: "nat \<Rightarrow> thread_op list" where
  "Server_run thread_pool_size =
     (let threads = [0 ..< thread_pool_size] in map Io_service_run threads @ map Join threads)"

definition workers :: "nat \<Rightarrow> nat" where
  "workers thread_pool_size = (if thread_pool_size = 0 then 1 else thread_pool_size)"

definition Server_create :: "NginxConfig \<Rightarrow> nat \<Rightarrow> server" where
  "Server_create config thread_pool_size =
     start_accept
       \<lparr>sv_config = config, sv_sessions = [], sv_next = 0, sv_accepting = [], sv_reading = [],
        sv_data = \<lparr>counters = [], access_log = []\<rparr>, sv_workers = workers thread_pool_size, sv_fault = None\<rparr>"

section \<open>Steps\<close>

datatype event = Accepted nat | Accept_failed nat error_code | Served nat | Failed nat | Stuck nat

definition serve ::
  "'w server_env \<Rightarrow> (nat \<Rightarrow> 'w socket_api) \<Rightarrow> nat \<Rightarrow> server \<Rightarrow> 'w \<Rightarrow>
   (int outcome \<times> Session \<times> server_data \<times> 'w) option option" where
  "serve e sock i sv w =
     map_option (\<lambda>s. Session_start e (sock i) s (sv_data sv) w) (map_of (sv_sessions sv) i)"

definition store_session :: "nat \<Rightarrow> Session \<Rightarrow> server_data \<Rightarrow> server \<Rightarrow> server" where
  "store_session i s d sv =
     sv\<lparr>sv_sessions := map (\<lambda>(j, t). (j, if j = i then s else t)) (sv_sessions sv),
        sv_reading := removeAll i (sv_reading sv), sv_data := d\<rparr>"

text \<open>
  A callback needs a free thread. One that throws (or does what the language leaves
  undefined) ends the process, since no thread catches; one that does not return keeps its
  thread. A callback is one step here, which is what happens when callbacks do not overlap;
  \<open>Concurrent_Server\<close> takes it apart.
\<close>

inductive server_step ::
  "'w server_env \<Rightarrow> (nat \<Rightarrow> 'w socket_api) \<Rightarrow> server \<times> 'w \<Rightarrow> event \<Rightarrow> server \<times> 'w \<Rightarrow> bool"
  for e sock where
  accepted: "sv_fault sv = None \<Longrightarrow> 0 < sv_workers sv \<Longrightarrow> i \<in> set (sv_accepting sv) \<Longrightarrow>
    server_step e sock (sv, w) (Accepted i)
      (handle_accept i Success (sv\<lparr>sv_accepting := remove1 i (sv_accepting sv)\<rparr>), w)"
| accept_failed: "sv_fault sv = None \<Longrightarrow> 0 < sv_workers sv \<Longrightarrow> i \<in> set (sv_accepting sv) \<Longrightarrow>
    error \<noteq> Success \<Longrightarrow>
    server_step e sock (sv, w) (Accept_failed i error)
      (handle_accept i error (sv\<lparr>sv_accepting := remove1 i (sv_accepting sv)\<rparr>), w)"
| served: "sv_fault sv = None \<Longrightarrow> 0 < sv_workers sv \<Longrightarrow> i \<in> set (sv_reading sv) \<Longrightarrow>
    serve e sock i sv w = Some (Some (Inr z, s, d, w')) \<Longrightarrow>
    server_step e sock (sv, w) (Served i) (store_session i s d sv, w')"
| failed: "sv_fault sv = None \<Longrightarrow> 0 < sv_workers sv \<Longrightarrow> i \<in> set (sv_reading sv) \<Longrightarrow>
    serve e sock i sv w = Some (Some (Inl f, s, d, w')) \<Longrightarrow>
    server_step e sock (sv, w) (Failed i) ((store_session i s d sv)\<lparr>sv_fault := Some f\<rparr>, w')"
| stuck: "sv_fault sv = None \<Longrightarrow> 0 < sv_workers sv \<Longrightarrow> i \<in> set (sv_reading sv) \<Longrightarrow>
    serve e sock i sv w = Some None \<Longrightarrow>
    server_step e sock (sv, w) (Stuck i)
      (sv\<lparr>sv_reading := removeAll i (sv_reading sv), sv_workers := sv_workers sv - 1\<rparr>, w)"

inductive_cases server_stepE: "server_step e sock (sv, w) ev (sv', w')"
inductive_simps step_accepted: "server_step e sock (sv, w) (Accepted i) c'"
inductive_simps step_served: "server_step e sock (sv, w) (Served i) c'"

text \<open>The states reached from a start, with the events in the order they happened.\<close>

inductive reaches ::
  "'w server_env \<Rightarrow> (nat \<Rightarrow> 'w socket_api) \<Rightarrow> server \<times> 'w \<Rightarrow> event list \<Rightarrow> server \<times> 'w \<Rightarrow> bool"
  for e sock c0 where
  start: "reaches e sock c0 [] c0"
| step: "reaches e sock c0 es c \<Longrightarrow> server_step e sock c ev c' \<Longrightarrow> reaches e sock c0 (es @ [ev]) c'"

end
