(* ===== verification/Server_Spec.thy ===== *)
theory Server_Spec
  imports Server Session_Spec
begin

text \<open>
  Invariants of the running server, by induction over the steps: which sessions exist and
  what is pending for them, what the counters hold, and when nothing can happen any more.
\<close>

section \<open>Counting events\<close>

fun is_accept :: "event \<Rightarrow> bool" where
  "is_accept (Accepted i) = True"
| "is_accept ev = False"

fun is_served :: "event \<Rightarrow> bool" where
  "is_served (Served i) = True"
| "is_served ev = False"

fun is_stuck :: "event \<Rightarrow> bool" where
  "is_stuck (Stuck i) = True"
| "is_stuck ev = False"

definition how_many :: "(event \<Rightarrow> bool) \<Rightarrow> event list \<Rightarrow> nat" where
  "how_many p es = length (filter p es)"

lemma how_many_simps [simp]:
  "how_many p [] = 0"
  "how_many p (es @ [ev]) = how_many p es + (if p ev then 1 else 0)"
  by (simp_all add: how_many_def)

section \<open>Sessions\<close>

definition session_ids :: "server \<Rightarrow> nat list" where
  "session_ids sv = map fst (sv_sessions sv)"

text \<open>The sessions a callback is pending for are allocated, and for at most one thing each.\<close>

definition sessions_ok :: "server \<Rightarrow> bool" where
  "sessions_ok sv \<longleftrightarrow> distinct (session_ids sv) \<and> (\<forall>i \<in> set (session_ids sv). i < sv_next sv) \<and>
     distinct (sv_accepting sv @ sv_reading sv) \<and>
     set (sv_accepting sv) \<union> set (sv_reading sv) \<subseteq> set (session_ids sv)"

lemma start_accept_simps [simp]:
  "sv_accepting (start_accept sv) = sv_accepting sv @ [sv_next sv]"
  "sv_reading (start_accept sv) = sv_reading sv"
  "session_ids (start_accept sv) = sv_next sv # session_ids sv"
  "sv_next (start_accept sv) = Suc (sv_next sv)"
  "sv_data (start_accept sv) = sv_data sv"
  "sv_workers (start_accept sv) = sv_workers sv"
  "sv_fault (start_accept sv) = sv_fault sv"
  "sv_config (start_accept sv) = sv_config sv"
  by (simp_all add: start_accept_def alloc_session_def async_accept_def session_ids_def)

lemma start_accept_ok: "sessions_ok sv \<Longrightarrow> sessions_ok (start_accept sv)"
  by (auto simp: sessions_ok_def)

lemma handle_accept_Success:
  "handle_accept i Success sv = start_accept (start_accept (sv\<lparr>sv_reading := sv_reading sv @ [i]\<rparr>))"
  by (simp add: handle_accept_def start_accept_def alloc_session_def async_accept_def)

lemma handle_accept_error:
  "error \<noteq> Success \<Longrightarrow> handle_accept i error sv = start_accept (delete_session i sv)"
  by (simp add: handle_accept_def)

lemma delete_ids: "session_ids (delete_session i sv) = filter (\<lambda>j. j \<noteq> i) (session_ids sv)"
  by (induction "sv_sessions sv") (simp_all add: session_ids_def delete_session_def filter_map o_def)

lemma store_ids: "session_ids (store_session i s d sv) = session_ids sv"
  by (simp add: session_ids_def store_session_def o_def case_prod_unfold)

lemma store_session_ok: "sessions_ok sv \<Longrightarrow> sessions_ok (store_session i s d sv)"
  unfolding sessions_ok_def store_ids by (auto simp: store_session_def distinct_removeAll)

lemma sessions_ok_fault [simp]: "sessions_ok (sv\<lparr>sv_fault := f\<rparr>) = sessions_ok sv"
  by (simp add: sessions_ok_def session_ids_def)

lemma distinct_remove: "distinct xs \<Longrightarrow> i \<in> set xs \<Longrightarrow> Suc (length (filter (\<lambda>j. j \<noteq> i) xs)) = length xs"
proof (induction xs)
  case (Cons x xs)
  have "i \<notin> set xs \<Longrightarrow> filter (\<lambda>j. j \<noteq> i) xs = xs" by (induction xs) auto
  with Cons show ?case by (cases "x = i") simp_all
qed simp

text \<open>The state between the end of an accept and the start of the next ones.\<close>

lemma accepted_ok:
  assumes "sessions_ok sv" and "i \<in> set (sv_accepting sv)"
  shows "sessions_ok (sv\<lparr>sv_accepting := remove1 i (sv_accepting sv), sv_reading := sv_reading sv @ [i]\<rparr>)"
  using assms by (auto simp: sessions_ok_def session_ids_def dest: notin_set_remove1)

lemma accept_failed_ok:
  assumes "sessions_ok sv" and "i \<in> set (sv_accepting sv)"
  shows "sessions_ok (delete_session i (sv\<lparr>sv_accepting := remove1 i (sv_accepting sv)\<rparr>))"
proof -
  have ids: "session_ids (delete_session i (sv\<lparr>sv_accepting := remove1 i (sv_accepting sv)\<rparr>))
      = filter (\<lambda>j. j \<noteq> i) (session_ids sv)"
    using delete_ids by (simp add: session_ids_def)
  show ?thesis
    unfolding sessions_ok_def ids using assms
    by (auto simp: sessions_ok_def delete_session_def dest: notin_set_remove1)
qed

lemma handle_accept_ok:
  assumes "sessions_ok sv" and "i \<in> set (sv_accepting sv)"
  shows "sessions_ok (handle_accept i error (sv\<lparr>sv_accepting := remove1 i (sv_accepting sv)\<rparr>))"
  using accepted_ok [OF assms] accept_failed_ok [OF assms]
  by (cases "error = Success") (simp_all add: handle_accept_Success handle_accept_error start_accept_ok)

lemma stuck_ok:
  "sessions_ok sv \<Longrightarrow> sessions_ok (sv\<lparr>sv_reading := removeAll i (sv_reading sv), sv_workers := k\<rparr>)"
  by (auto simp: sessions_ok_def session_ids_def distinct_removeAll)

lemma step_sessions_ok:
  assumes "server_step e sock (sv, w) ev (sv', w')" and ok: "sessions_ok sv"
  shows "sessions_ok sv'"
  using assms(1)
proof (cases rule: server_step.cases)
  case (failed i f s d)
  with store_session_ok [OF ok, of i s d] show ?thesis by simp
qed (use ok in \<open>simp_all add: handle_accept_ok store_session_ok stuck_ok\<close>)

lemma step_amounts:
  assumes "server_step e sock (sv, w) ev (sv', w')" and ok: "sessions_ok sv"
  shows "length (sv_accepting sv') = length (sv_accepting sv) + (if is_accept ev then 1 else 0)"
    and "length (sv_sessions sv') = length (sv_sessions sv) + (if is_accept ev then 2 else 0)"
    and "sv_workers sv' = sv_workers sv - (if is_stuck ev then 1 else 0)"
proof -
  have len: "length (sv_sessions s) = length (session_ids s)" for s by (simp add: session_ids_def)
  have "length (sv_accepting sv') = length (sv_accepting sv) + (if is_accept ev then 1 else 0) \<and>
     length (session_ids sv') = length (session_ids sv) + (if is_accept ev then 2 else 0) \<and>
     sv_workers sv' = sv_workers sv - (if is_stuck ev then 1 else 0)"
    using assms(1)
  proof (cases rule: server_step.cases)
    case (accepted i)
    then have "Suc (length (remove1 i (sv_accepting sv))) = length (sv_accepting sv)"
      by (simp add: length_remove1) (metis Suc_pred length_pos_if_in_set)
    with accepted show ?thesis by (simp add: handle_accept_Success session_ids_def [of "sv\<lparr>sv_accepting := _, sv_reading := _\<rparr>"])
        (simp add: session_ids_def)
  next
    case (accept_failed i error)
    then have "Suc (length (remove1 i (sv_accepting sv))) = length (sv_accepting sv)"
      by (simp add: length_remove1) (metis Suc_pred length_pos_if_in_set)
    moreover have "Suc (length (filter (\<lambda>j. j \<noteq> i) (session_ids sv))) = length (session_ids sv)"
      using ok accept_failed by (intro distinct_remove) (auto simp: sessions_ok_def)
    moreover have "session_ids (sv\<lparr>sv_accepting := remove1 i (sv_accepting sv)\<rparr>) = session_ids sv"
      by (simp add: session_ids_def)
    ultimately show ?thesis
      using accept_failed delete_ids [of i "sv\<lparr>sv_accepting := remove1 i (sv_accepting sv)\<rparr>"]
      by (simp add: handle_accept_error) (simp add: delete_session_def)
  qed (simp_all add: store_session_def session_ids_def)
  then show "length (sv_accepting sv') = length (sv_accepting sv) + (if is_accept ev then 1 else 0)"
    and "length (sv_sessions sv') = length (sv_sessions sv) + (if is_accept ev then 2 else 0)"
    and "sv_workers sv' = sv_workers sv - (if is_stuck ev then 1 else 0)"
    unfolding len by blast+
qed

lemma step_data:
  assumes "server_step e sock (sv, w) ev (sv', w')" and "sv_fault sv' = None"
    and ok: "counters_ok (counters (sv_data sv))"
  shows "counters_ok (counters (sv_data sv')) \<and>
    total_requests (counters (sv_data sv')) = total_requests (counters (sv_data sv)) + (if is_served ev then 1 else 0) \<and>
    length (access_log (sv_data sv')) = length (access_log (sv_data sv)) + (if is_served ev then 1 else 0)"
  using assms(1)
proof (cases rule: server_step.cases)
  case (served i z s d)
  obtain s0 where "Session_start e (sock i) s0 (sv_data sv) w = Some (Inr z, s, d, w')"
    using served by (auto simp: serve_def)
  then obtain s1 w1 where "handle_request e (sock i) s1 (sv_data sv) w1 = Some (Inr z, s, d, w')"
    by (auto simp: Session_start_def split: prod.splits)
  then obtain request ip r w2 where "send_reply (sock i) ip request r (sv_data sv) w2 = (Inr z, d, w')"
    by (auto simp: handle_request_def split: sum.splits option.splits prod.splits)
  from send_reply_sent [OF this] obtain code m line where
    m: "record_request (m_uri request) code (counters (sv_data sv)) = Inr m"
    and d: "d = \<lparr>counters = m, access_log = access_log (sv_data sv) @ [access_line ip line code]\<rparr>" by metis
  have "sv_data sv' = d" using served by (simp add: store_session_def)
  with record_request_ok [OF ok m] record_request_total [OF ok m] d served show ?thesis by simp
qed (use ok assms(2) in \<open>simp_all add: handle_accept_Success handle_accept_error delete_session_def\<close>)

section \<open>Every reachable state\<close>

definition server_inv :: "nat \<Rightarrow> event list \<Rightarrow> server \<Rightarrow> bool" where
  "server_inv n es sv \<longleftrightarrow> sessions_ok sv \<and> length (sv_accepting sv) = 1 + how_many is_accept es \<and>
     length (sv_sessions sv) = 1 + 2 * how_many is_accept es \<and>
     sv_workers sv + how_many is_stuck es = workers n \<and>
     (sv_fault sv = None \<longrightarrow> counters_ok (counters (sv_data sv)) \<and>
        total_requests (counters (sv_data sv)) = int (how_many is_served es) \<and>
        length (access_log (sv_data sv)) = how_many is_served es)"

lemma step_enabled:
  "server_step e sock (sv, w) ev c' \<Longrightarrow> sv_fault sv = None \<and> 0 < sv_workers sv"
  by (cases c') (auto elim: server_stepE)

lemma server_inv_start: "server_inv n [] (Server_create config n)"
  by (simp add: server_inv_def sessions_ok_def Server_create_def session_ids_def counters_ok_def total_requests_def
      start_accept_def alloc_session_def async_accept_def)

lemma server_inv_step:
  assumes "server_inv n es sv" and st: "server_step e sock (sv, w) ev (sv', w')"
  shows "server_inv n (es @ [ev]) sv'"
proof -
  note en = step_enabled [OF st]
  from assms(1) en have inv: "sessions_ok sv" "length (sv_accepting sv) = 1 + how_many is_accept es"
    "length (sv_sessions sv) = 1 + 2 * how_many is_accept es" "sv_workers sv + how_many is_stuck es = workers n"
    and data: "counters_ok (counters (sv_data sv))"
      "total_requests (counters (sv_data sv)) = int (how_many is_served es)"
      "length (access_log (sv_data sv)) = how_many is_served es"
    by (simp_all add: server_inv_def)
  note amounts = step_amounts [OF st inv(1)]
  show ?thesis
    unfolding server_inv_def using step_sessions_ok [OF st inv(1)] amounts inv en step_data [OF st _ data(1)] data
    by (cases ev) auto
qed

lemma reaches_inv_from:
  "reaches e sock c0 es c \<Longrightarrow> c0 = (Server_create config n, w0) \<Longrightarrow> server_inv n es (fst c)"
proof (induction rule: reaches.induct)
  case start
  then show ?case by (simp add: server_inv_start)
next
  case (step es c ev c')
  from step.IH [OF step.prems] step.hyps(2) show ?case
    by (cases c; cases c') (simp add: server_inv_step)
qed

lemma reaches_inv: "reaches e sock (Server_create config n, w0) es (sv, w) \<Longrightarrow> server_inv n es sv"
  by (drule reaches_inv_from [OF _ refl]) simp

section \<open>A run\<close>

text \<open>A socket that delivers a text, and the server after one connection.\<close>

definition delivering :: "string \<Rightarrow> 'w socket_api" where
  "delivering msg = sample_socket\<lparr>so_read_until := (\<lambda>delim w. ((Success, msg), w))\<rparr>"

definition connected :: "NginxConfig \<Rightarrow> server" where
  "connected config = handle_accept 0 Success
     ((Server_create config 4)\<lparr>sv_accepting := remove1 0 (sv_accepting (Server_create config 4))\<rparr>)"

abbreviation one_connection :: server where
  "one_connection \<equiv> connected sample_config"

lemma sample_reach:
  "reaches e sock (Server_create config 4, w) [Accepted 0] (connected config, w)"
proof -
  have "server_step e sock (Server_create config 4, w) (Accepted 0) (connected config, w)"
    unfolding connected_def
    by (rule server_step.accepted)
      (simp_all add: Server_create_def workers_def start_accept_def alloc_session_def async_accept_def)
  from reaches.step [OF reaches.start this] show ?thesis by simp
qed

lemma one_connection_fields:
  "sv_fault (connected config) = None" "0 < sv_workers (connected config)" "0 \<in> set (sv_reading (connected config))"
  "sv_data (connected config) = fresh_data"
  "map_of (sv_sessions (connected config)) 0 = Some (new_Session config)"
  by (simp_all add: connected_def handle_accept_def Server_create_def workers_def start_accept_def
      alloc_session_def async_accept_def fresh_data_def)

lemma sample_serve:
  "serve e (\<lambda>i. delivering msg) 0 one_connection w =
     Some (handle_request e (delivering msg) (received msg) fresh_data w)"
  by (simp add: serve_def one_connection_fields Session_start_def delivering_def received_def new_Session_def)

lemma served_sample:
  "\<exists>s d. reaches sample_env (\<lambda>i. delivering ''GET /echo/x HTTP/1.1'') (Server_create sample_config 4, empty_world)
     [Accepted 0, Served 0] (store_session 0 s d one_connection, empty_world)"
proof -
  let ?msg = "''GET /echo/x HTTP/1.1''"
  have sends: "write_string (delivering ?msg) str w = (Inr (), w)" for str and w :: mem_world
    by (simp add: write_string_def delivering_def sample_socket_def)
  have ip: "so_remote_address (delivering ?msg) (empty_world) = Some ''127.0.0.1''"
    by (simp add: delivering_def)
  have "\<exists>s' d' line. handle_request sample_env (delivering ?msg) (received ?msg) fresh_data empty_world =
      Some (Inr 0, s', d', empty_world) \<and>
     record_request (m_uri (accepted_request (ss_buffer (received ?msg)))) 200 (counters fresh_data) = Inr (counters d') \<and>
     strip_line_ends (ss_buffer (received ?msg)) = Inr line \<and>
     access_log d' = access_log fresh_data @ [access_line ''127.0.0.1'' line 200]"
    using sample_uri(1,2) sample_routed(1) boost_model_documented ip sends
    by (intro echo_request) (simp_all add: fresh_data_def counters_ok_def total_requests_def int_max_def)
  then obtain s d where "handle_request sample_env (delivering ?msg) (received ?msg) fresh_data empty_world =
      Some (Inr 0, s, d, empty_world)" by blast
  then have "serve sample_env (\<lambda>i. delivering ?msg) 0 one_connection empty_world =
      Some (Some (Inr 0, s, d, empty_world))"
    by (simp add: sample_serve)
  from server_step.served [OF one_connection_fields(1-3) this]
  have "server_step sample_env (\<lambda>i. delivering ?msg) (one_connection, empty_world) (Served 0)
      (store_session 0 s d one_connection, empty_world)" .
  from reaches.step [OF sample_reach this] show ?thesis by auto
qed

section \<open>Properties\<close>

text \<open>
  Claim C26. Pending accepts multiply: after a successful accept the server starts two new
  ones, so the number of pending accepts is one more than the number of connections so far;
  and since nothing deletes a session that was answered, two sessions stay allocated for each
  connection, for ever.
\<close>

theorem accepts_multiply:
  "reaches e sock (Server_create config n, w0) es (sv, w) \<Longrightarrow>
   length (sv_accepting sv) = 1 + how_many is_accept es \<and>
   length (sv_sessions sv) = 1 + 2 * how_many is_accept es \<and> sessions_ok sv"
  by (drule reaches_inv) (simp add: server_inv_def)

theorem accepts_multiply_witness:
  "length (sv_accepting one_connection) = 2 \<and> length (sv_sessions one_connection) = 3"
  using accepts_multiply [OF sample_reach] by (simp add: how_many_def)

text \<open>
  The counters of the server when each callback runs as one step, that is as long as callbacks
  do not overlap: they add up to the number of served requests, every counter is positive,
  and the access log has one line for each. (\<open>Single_Thread\<close> shows for a pool of one thread
  that they do not overlap; with more threads requests are lost, see \<open>Concurrent_Server\<close>.)
\<close>

theorem server_counts:
  "reaches e sock (Server_create config n, w0) es (sv, w) \<Longrightarrow> sv_fault sv = None \<Longrightarrow>
   counters_ok (counters (sv_data sv)) \<and>
   total_requests (counters (sv_data sv)) = int (how_many is_served es) \<and>
   length (access_log (sv_data sv)) = how_many is_served es"
  by (drule reaches_inv) (simp add: server_inv_def)

theorem server_counts_witness:
  "\<exists>sv w. reaches sample_env (\<lambda>i. delivering ''GET /echo/x HTTP/1.1'') (Server_create sample_config 4, empty_world)
     [Accepted 0, Served 0] (sv, w) \<and> total_requests (counters (sv_data sv)) = 1"
proof -
  obtain s d where run: "reaches sample_env (\<lambda>i. delivering ''GET /echo/x HTTP/1.1'') (Server_create sample_config 4, empty_world)
     [Accepted 0, Served 0] (store_session 0 s d one_connection, empty_world)"
    using served_sample by blast
  have "sv_fault (store_session 0 s d one_connection) = None"
    by (simp add: store_session_def one_connection_fields)
  from server_counts [OF run this] run show ?thesis by (auto simp: how_many_def)
qed

text \<open>
  Claim C14. When the server is alive: a reachable state has a next step exactly when no
  callback has failed and fewer requests than there are threads never returned. So one
  failing request stops the server for good, and as many requests that never return (a
  redirect loop behind the proxy is one) as there are threads do, too.
\<close>

theorem server_alive_iff:
  "reaches e sock (Server_create config n, w0) es (sv, w) \<Longrightarrow>
   (\<exists>ev c'. server_step e sock (sv, w) ev c') \<longleftrightarrow> sv_fault sv = None \<and> how_many is_stuck es < workers n"
proof -
  assume "reaches e sock (Server_create config n, w0) es (sv, w)"
  then have inv: "server_inv n es sv" by (rule reaches_inv)
  then have workers: "0 < sv_workers sv \<longleftrightarrow> how_many is_stuck es < workers n"
    and "sv_accepting sv \<noteq> []" by (auto simp: server_inv_def)
  then obtain i where i: "i \<in> set (sv_accepting sv)" by (cases "sv_accepting sv") auto
  show ?thesis
  proof
    assume "\<exists>ev c'. server_step e sock (sv, w) ev c'"
    then obtain ev c' where "server_step e sock (sv, w) ev c'" by (elim exE)
    from step_enabled [OF this] workers show "sv_fault sv = None \<and> how_many is_stuck es < workers n" by simp
  next
    assume "sv_fault sv = None \<and> how_many is_stuck es < workers n"
    with workers have "sv_fault sv = None" and "0 < sv_workers sv" by simp_all
    from server_step.accepted [OF this i, of e sock w] show "\<exists>ev c'. server_step e sock (sv, w) ev c'"
      by (intro exI)
  qed
qed

theorem server_alive_iff_witness:
  "\<exists>ev c'. server_step sample_env (\<lambda>i. sample_socket) (one_connection, empty_world) ev c'"
  using server_alive_iff [OF sample_reach [of sample_env "\<lambda>i. sample_socket" sample_config empty_world]]
  by (simp add: one_connection_fields how_many_def workers_def)

end
