(* ===== verification/Server_Main.thy ===== *)
theory Server_Main
  imports Server
begin

text \<open>
  The program: \<open>main\<close> of \<open>src/server_main.cc\<close>. It reads the configuration, takes the port
  and the number of threads from it and from the command line, prepares the database and
  starts the server. Its result is either the exit code or the started server with the port
  it listens on. The command line is the list of \<open>argv[1]\<close> and following; the file system,
  Boost, SQLite and the acceptor are parameters.
\<close>

datatype main_result =
    Exit int string
  | Serving unsigned_short server
  | Undefined fault

definition DEFAULT_THREAD_NUM :: nat where "DEFAULT_THREAD_NUM = 4"

text \<open>
  The handler of SIGINT: it logs a line for signal 2 and leaves with code 1, whatever the
  signal.
\<close>

definition signal_handler :: "error_code \<Rightarrow> int \<Rightarrow> string list \<times> main_result" where
  "signal_handler error signal_number =
     (if signal_number = 2 then [''Server has stoppped by user''] else [], Exit 1 [])"

text \<open>
  The messages of the standard exceptions are up to the library: \<open>what\<close>. The configuration
  parser's own exception has a fixed one. \<open>main\<close> prints the message to the error stream.
\<close>

definition ConfigParserException_what :: string where
  "ConfigParserException_what = ''Invalid config.''"

text \<open>
  The faults that are C++ exceptions derived from \<open>std::exception\<close> reach the handlers of
  \<open>main\<close>; the others are undefined behaviour.
\<close>

definition is_exception :: "fault \<Rightarrow> bool" where
  "is_exception f \<longleftrightarrow>
     f \<in> {Out_of_range, Invalid_argument, Config_parser_exception, Bad_lexical_cast, System_error}"

definition main_catch :: "(fault \<Rightarrow> string) \<Rightarrow> fault \<Rightarrow> main_result" where
  "main_catch what f =
     (if f = Config_parser_exception then Exit 1 (''Exception: '' @ ConfigParserException_what @ [LF])
      else if is_exception f then Exit 1 (''Exception: '' @ what f @ [LF])
      else Undefined f)"

definition usage :: string where
  "usage = ''Usage: ./server <path to config file>'' @ [LF]"

definition thread_count :: "boost_api \<Rightarrow> string list \<Rightarrow> nat outcome" where
  "thread_count b args =
     (if length args = 2 then
        (case boost_lexical_cast_size b (args ! 1) of
           None \<Rightarrow> Inl Bad_lexical_cast
         | Some n \<Rightarrow> Inr (unat n))
      else Inr DEFAULT_THREAD_NUM)"

text \<open>
  The port is an \<open>int\<close> that is stored in an \<open>unsigned short\<close>. \<open>listen\<close> says whether the
  acceptor can be opened and bound to a port. The result of \<open>Parse\<close> is not used: after a
  file that does not open, the configuration is empty.
\<close>

definition main_settings ::
  "boost_api \<Rightarrow> (string \<Rightarrow> string option) \<Rightarrow> string list \<Rightarrow> (NginxConfig \<times> unsigned_short \<times> nat) outcome" where
  "main_settings b files args =
     (case Parse_file files (args ! 0) (Config []) of
        (Inl f, config) \<Rightarrow> Inl f
      | (Inr parsed, config) \<Rightarrow>
          obind (Find b config ''port'') (\<lambda>s.
          obind (stoi s) (\<lambda>n.
          obind (thread_count b args) (\<lambda>thread_pool_size.
            Inr (config, word_of_int n, thread_pool_size)))))"

definition main ::
  "boost_api \<Rightarrow> 'w sqlite_api \<Rightarrow> (fault \<Rightarrow> string) \<Rightarrow> (string \<Rightarrow> string option) \<Rightarrow> (unsigned_short \<Rightarrow> bool) \<Rightarrow>
   string list \<Rightarrow> 'w \<Rightarrow> main_result \<times> 'w" where
  "main b q what files listen args w =
     (if \<not> (length args = 1 \<or> length args = 2) then (Exit 1 usage, w)
      else (case main_settings b files args of
          Inl f \<Rightarrow> (main_catch what f, w)
        | Inr (config, port, thread_pool_size) \<Rightarrow>
            (let w = Init q w in
             if \<not> listen port then (main_catch what System_error, w)
             else (Serving port (Server_create config thread_pool_size), w))))"

end
