(* ===== verification/Main_Spec.thy ===== *)
theory Main_Spec
  imports Server_Main Server_Spec Database_Search
begin

text \<open>
  How a run of the program begins: which command lines and configuration files lead to a
  running server, with which port and which number of threads, and how every other start
  ends.
\<close>

lemma Parse_empty_cases:
  obtains c where "Parse s (Config []) = (Inr True, c)" "wf_config c"
  | c where "Parse s (Config []) = (Inl Config_parser_exception, c)"
proof -
  obtain r st where loop: "Parse_loop (parser_start (Config [])) s = (r, st)" by fastforce
  have "wf_config (Config [])" by simp
  from Parse_loop_safe [OF parser_inv_start [OF this] loop] loop that show thesis
    by (auto simp: Parse_def)
qed

lemma Find_port_cases:
  assumes b: "boost_documented b"
  obtains s where "Find b c ''port'' = Inr s"
  | "Find b c ''port'' = Inl Bad_index" "\<exists>st \<in> set (statements c). tokens st = [''port'']"
proof (cases c)
  case (Config sts)
  with Find_single [OF b, of "''port''" sts] that show thesis by (auto split: if_splits)
qed

lemma stoi_fault: "stoi s = Inl f \<Longrightarrow> is_exception f"
  by (auto simp: stoi_def is_exception_def split: option.splits if_splits)

lemma thread_count_fault: "thread_count b args = Inl f \<Longrightarrow> is_exception f"
  by (auto simp: thread_count_def is_exception_def split: option.splits if_splits)

lemma main_settings_cases:
  assumes b: "boost_documented b"
  obtains f where "main_settings b files args = Inl f" "is_exception f"
  | c port n where "main_settings b files args = Inr (c, port, n)"
  | c t where "main_settings b files args = Inl Bad_index" "files (args ! 0) = Some t"
      "snd (Parse t (Config [])) = c" "\<exists>st \<in> set (statements c). tokens st = [''port'']"
proof (cases "files (args ! 0)")
  case None
  have "Find b (Config []) ''port'' = Inr []"
    using Find_single [OF b, of "''port''" "[]"] by (simp add: keyed_def)
  then have "main_settings b files args = Inl Invalid_argument"
    using None by (simp add: main_settings_def Parse_file_def)
  then show thesis by (rule that(1)) (simp add: is_exception_def)
next
  case (Some t)
  show thesis
  proof (cases rule: Parse_empty_cases [of t])
    case (1 c)
    then have set: "main_settings b files args = obind (Find b c ''port'') (\<lambda>s.
          obind (stoi s) (\<lambda>n. obind (thread_count b args) (\<lambda>n'. Inr (c, word_of_int n, n'))))"
      using Some by (simp add: main_settings_def Parse_file_def)
    show thesis
    proof (cases rule: Find_port_cases [OF b, of c])
      case (1 s)
      show thesis
      proof (cases "stoi s")
        case (Inl f)
        with set 1 stoi_fault show thesis by (intro that(1) [of f]) auto
      next
        case n: (Inr n)
        show thesis
        proof (cases "thread_count b args")
          case (Inl f)
          with set 1 n thread_count_fault show thesis by (intro that(1) [of f]) auto
        next
          case (Inr k)
          with set 1 n show thesis by (intro that(2) [of c "word_of_int n" k]) simp
        qed
      qed
    next
      case 2
      with set 1 Some show thesis by (intro that(3) [of t c]) auto
    qed
  next
    case (2 c)
    then have "main_settings b files args = Inl Config_parser_exception"
      using Some by (simp add: main_settings_def Parse_file_def)
    then show thesis by (rule that(1)) (simp add: is_exception_def)
  qed
qed

section \<open>Properties\<close>

text \<open>
  Claim C35. How a start ends: \<open>main\<close> returns 1 without having touched the database, or the
  database is prepared and either the server runs or the port cannot be listened on and the
  code is 1; the one exception is a configuration with a statement \<open>port\<close> without a value,
  where a vector is read past its end. In particular a configuration file that does not open
  ends in code 1.
\<close>

theorem main_outcomes:
  "boost_documented b \<Longrightarrow>
   (\<exists>msg. main b q what files listen args w = (Exit 1 msg, w)) \<or>
   (\<exists>msg. main b q what files listen args w = (Exit 1 msg, Init q w) \<and> files (args ! 0) \<noteq> None) \<or>
   (\<exists>port config n. main b q what files listen args w = (Serving port (Server_create config n), Init q w) \<and>
     listen port \<and> length args \<in> {1, 2} \<and> files (args ! 0) \<noteq> None) \<or>
   (\<exists>t. main b q what files listen args w = (Undefined Bad_index, w) \<and> files (args ! 0) = Some t \<and>
     (\<exists>st \<in> set (statements (snd (Parse t (Config [])))). tokens st = [''port'']))"
proof -
  assume b: "boost_documented b"
  have none: "main_settings b files args = Inl Invalid_argument" if "files (args ! 0) = None"
    using that Find_single [OF b, of "''port''" "[]"] by (simp add: main_settings_def Parse_file_def keyed_def)
  show ?thesis
  proof (cases "length args = 1 \<or> length args = 2")
    case True
    show ?thesis
    proof (cases rule: main_settings_cases [OF b, of files args])
      case (1 f)
      then have "\<exists>msg. main b q what files listen args w = (Exit 1 msg, w)"
        using True by (simp add: main_def main_catch_def)
      then show ?thesis by simp
    next
      case (2 c port n)
      with True none show ?thesis
        by (cases "listen port") (auto simp: main_def main_catch_def is_exception_def)
    next
      case (3 c t)
      then have "main b q what files listen args w = (Undefined Bad_index, w)"
        using True by (simp add: main_def main_catch_def is_exception_def)
      with 3 show ?thesis by blast
    qed
  qed (simp add: main_def)
qed

theorem main_outcomes_witness:
  "main boost_model mem_api (\<lambda>f. []) (\<lambda>name. None) (\<lambda>port. True) [''config''] empty_world \<noteq>
     (Undefined Bad_index, empty_world)"
  using main_outcomes [OF boost_model_documented, of mem_api "\<lambda>f. []" "\<lambda>name. None" "\<lambda>port. True" "[''config'']" empty_world]
  by auto

text \<open>
  Claim C25. The server runs what the file says: for the printed form of any well-formed
  configuration whose port is a number, and a port that can be listened on, the program
  prepares the database and serves exactly that configuration with four threads. The port is
  the number modulo \<open>2^16\<close>, so that 65616 listens on port 80.
\<close>

theorem main_serves:
  "boost_documented b \<Longrightarrow> wf_config c \<Longrightarrow> files name = Some (config_ToString c d) \<Longrightarrow>
   Find b c ''port'' = Inr (to_string n) \<Longrightarrow> fits_int n \<Longrightarrow> listen (word_of_int n) \<Longrightarrow>
   main b q what files listen [name] w = (Serving (word_of_int n) (Server_create c 4), Init q w) \<and>
   uint (word_of_int n :: unsigned_short) = n mod 2 ^ 16"
  using Parse_print_eof [of c "[]" d]
  by (simp add: main_def main_settings_def Parse_file_def stoi_to_string thread_count_def
      DEFAULT_THREAD_NUM_def uint_word_of_int)

definition sample_port :: NginxConfig where
  "sample_port = Config [Statement [''port'', ''65616''] None]"

theorem main_serves_witness:
  "main boost_model mem_api (\<lambda>f. []) (\<lambda>name. Some (config_ToString sample_port 0)) (\<lambda>port. port = 80)
     [''config''] empty_world =
   (Serving 80 (Server_create sample_port 4), Init mem_api empty_world)"
proof -
  let ?file = "\<lambda>name. Some (config_ToString sample_port 0)"
  have wf: "wf_config sample_port"
    by (simp add: sample_port_def wf_token_def plain_token_def starts_plain_def ends_plain_def)
  have "to_string 65616 = ''65616''" by (simp add: to_string_def digits_of.simps, code_simp)
  then have port: "Find boost_model sample_port ''port'' = Inr (to_string 65616)"
    using Find_single [OF boost_model_documented, of "''port''"] by (simp add: sample_port_def keyed_def)
  have fits: "fits_int 65616" by (simp add: fits_int_def int_min_def int_max_def)
  have w: "(word_of_int 65616 :: unsigned_short) = 80" by simp
  have "main boost_model mem_api (\<lambda>f. []) ?file (\<lambda>port. port = 80) [''config''] empty_world =
      (Serving (word_of_int 65616) (Server_create sample_port 4), Init mem_api empty_world)"
    by (rule main_serves [THEN conjunct1, OF boost_model_documented wf _ port fits]) (rule refl, rule w)
  then show ?thesis unfolding w .
qed

end
