(* ===== verification/Logging.thy ===== *)
theory Logging
  imports Prelude
begin

text \<open>
  The set-up of the log: \<open>src/logging.cc\<close> and the severities of \<open>include/logging.h\<close>. Boost.Log
  is a library, so the initialisation is the list of the calls it makes, with their
  arguments, and what the library writes is not modelled. All sinks get the same format.
\<close>

datatype severity_level = TRACE | DEBUG | INFO | WARN | ERROR | FATAL

datatype open_mode = App | Trunc

record file_log =
  file_name :: string
  rotation_size :: nat  \<comment> \<open>bytes\<close>
  time_based_rotation :: "nat \<times> nat \<times> nat"  \<comment> \<open>hour, minute and second of the day\<close>
  auto_flush :: bool
  file_format :: string
  file_open_mode :: open_mode

record console_log =
  console_stream :: string
  console_format :: string

text \<open>The calls of the library, in the order the initialisation makes them.\<close>

datatype log_setup =
    Register_simple_formatter_factory string
  | Add_common_attributes
  | Add_file_log file_log
  | Add_console_log console_log

definition my_logger_init :: "log_setup list" where
  "my_logger_init =
     [Register_simple_formatter_factory ''Severity'',
      Add_common_attributes,
      Add_file_log
        \<lparr>file_name = ''server_log_%Y-%m-%d_%N.log'',
         rotation_size = 10 * 1024 * 1024,
         time_based_rotation = (0, 0, 0),
         auto_flush = True,
         file_format = ''[%TimeStamp%] [Thread %ThreadID%] [%Severity%]: %Message%'',
         file_open_mode = App\<rparr>,
      Add_console_log
        \<lparr>console_stream = ''cout'',
         console_format = ''[%TimeStamp%] [Thread %ThreadID%] [%Severity%]: %Message%''\<rparr>]"

fun sink_format :: "log_setup \<Rightarrow> string option" where
  "sink_format (Add_file_log f) = Some (file_format f)"
| "sink_format (Add_console_log s) = Some (console_format s)"
| "sink_format _ = None"

lemma one_format:
  "x \<in> set my_logger_init \<Longrightarrow> y \<in> set my_logger_init \<Longrightarrow>
   sink_format x = Some f \<Longrightarrow> sink_format y = Some g \<Longrightarrow> f = g"
  by (auto simp: my_logger_init_def)

end
