(* ===== verification/Status_Service.thy ===== *)
theory Status_Service
  imports Server_Spec
begin

text \<open>
  The status page of a running server: the composition of \<open>Server\<close>, \<open>Session\<close>,
  \<open>HandlerManager\<close> and \<open>StatusHandler\<close>. The sessions a callback is pending for are as their
  constructor left them, so what a request is answered depends on the configuration and the
  counters alone; a request for the status page then reports the counters. \<open>status_request\<close> is
  about callbacks that run as one step; \<open>Single_Thread\<close> has the case of a single thread.
\<close>

section \<open>Pending sessions are new\<close>

definition pending_new :: "NginxConfig \<Rightarrow> server \<Rightarrow> bool" where
  "pending_new config sv \<longleftrightarrow> sv_config sv = config \<and>
     (\<forall>i \<in> set (sv_accepting sv) \<union> set (sv_reading sv).
        map_of (sv_sessions sv) i = Some (new_Session config))"

lemma map_of_filter_other: "j \<noteq> i \<Longrightarrow> map_of (filter (\<lambda>s. fst s \<noteq> i) xs) j = map_of xs j"
  by (induction xs) auto

lemma map_of_replace:
  "map_of (map (\<lambda>(k, t). (k, if k = i then s else t)) xs) j =
     (if j = i then map_option (\<lambda>t. s) (map_of xs i) else map_of xs j)"
  by (induction xs) auto

lemma store_session_pending:
  assumes "sessions_ok sv" and "i \<in> set (sv_reading sv)" and "pending_new config sv"
  shows "pending_new config (store_session i s d sv)"
proof -
  have "i \<notin> set (sv_accepting sv)" using assms(1,2) by (auto simp: sessions_ok_def)
  with assms(3) show ?thesis
    by (auto simp: pending_new_def store_session_def map_of_replace)
qed

lemma start_accept_pending:
  assumes "sessions_ok sv" and "pending_new config sv"
  shows "pending_new config (start_accept sv)"
proof -
  have "sv_next sv \<notin> set (sv_accepting sv) \<union> set (sv_reading sv)"
    using assms(1) by (force simp: sessions_ok_def)
  with assms(2) show ?thesis
    by (auto simp: pending_new_def start_accept_def alloc_session_def async_accept_def)
qed

lemma handle_accept_pending:
  assumes ok: "sessions_ok sv" and i: "i \<in> set (sv_accepting sv)" and new: "pending_new config sv"
  shows "pending_new config (handle_accept i error (sv\<lparr>sv_accepting := remove1 i (sv_accepting sv)\<rparr>))"
proof (cases "error = Success")
  case True
  have "pending_new config (sv\<lparr>sv_accepting := remove1 i (sv_accepting sv), sv_reading := sv_reading sv @ [i]\<rparr>)"
    using new i set_remove1_subset [of i "sv_accepting sv"] by (auto simp: pending_new_def)
  with True accepted_ok [OF ok i] show ?thesis
    by (simp add: handle_accept_Success start_accept_pending start_accept_ok)
next
  case False
  have "i \<notin> set (remove1 i (sv_accepting sv)) \<union> set (sv_reading sv)"
    using ok i by (auto simp: sessions_ok_def)
  then have "map_of (sv_sessions (delete_session i sv)) j = Some (new_Session config)"
    if "j \<in> set (remove1 i (sv_accepting sv)) \<union> set (sv_reading sv)" for j
    using that new set_remove1_subset [of i "sv_accepting sv"] map_of_filter_other [of j i "sv_sessions sv"]
    by (cases "j = i") (auto simp: pending_new_def delete_session_def)
  with new have "pending_new config (delete_session i (sv\<lparr>sv_accepting := remove1 i (sv_accepting sv)\<rparr>))"
    by (simp add: pending_new_def delete_session_def)
  with False accept_failed_ok [OF ok i] show ?thesis
    by (simp add: handle_accept_error start_accept_pending)
qed

lemma pending_new_other [simp]:
  "pending_new config (sv\<lparr>sv_fault := f\<rparr>) = pending_new config sv"
  "pending_new config sv \<Longrightarrow> pending_new config (sv\<lparr>sv_reading := removeAll i (sv_reading sv), sv_workers := k\<rparr>)"
  by (auto simp: pending_new_def)

lemma step_pending:
  assumes "server_step e sock (sv, w) ev (sv', w')" and ok: "sessions_ok sv" and new: "pending_new config sv"
  shows "pending_new config sv'"
  using assms(1)
  by (cases rule: server_step.cases) (use ok new in \<open>simp_all add: handle_accept_pending store_session_pending\<close>)

lemma pending_start: "pending_new config (Server_create config n)"
  by (simp add: pending_new_def Server_create_def start_accept_def alloc_session_def async_accept_def)

lemma reaches_pending_from:
  "reaches e sock c0 es c \<Longrightarrow> c0 = (Server_create config n, w0) \<Longrightarrow> pending_new config (fst c)"
proof (induction rule: reaches.induct)
  case start
  then show ?case by (simp add: pending_start)
next
  case (step es c ev c')
  have "sessions_ok (fst c)"
    using reaches_inv_from [OF step.hyps(1) step.prems] by (simp add: server_inv_def)
  with step.IH [OF step.prems] step.hyps(2) show ?case
    by (cases c; cases c') (simp add: step_pending)
qed

lemma reaches_pending:
  "reaches e sock (Server_create config n, w0) es (sv, w) \<Longrightarrow> pending_new config sv"
  by (drule reaches_pending_from [OF _ refl]) simp

section \<open>The status handler\<close>

lemma handlers_text_readable:
  "\<forall>c \<in> set cs. readable_block b loc nm c \<Longrightarrow>
   handlers_text b cs str = Inr (str @ concat (map (\<lambda>c. nm c @ '' - '' @ loc c @ [LF]) cs))"
  by (induction cs arbitrary: str) (simp_all add: readable_block_def)

text \<open>Of all the names only one makes a status handler, and it is given the shared counters.\<close>

lemma createByName_Status:
  assumes "createByName b m name config root = Inr (Some (Status h))"
  shows "handler_request_map m = Some (request_info_map h) \<and> status_handlers h = manager_handlers m"
  using assms unfolding createByName_def
  by (auto simp: create_defs obind_Inr_iff setRequestInfo_def status_setHandlers_def Let_def
      split: if_splits option.splits)

lemma routed_status:
  assumes "routed b rm s uri (Inr (Some (Status h)))"
  shows "request_info_map h = rm" and "\<exists>hs. handlersToString b h = Inr hs"
proof -
  from assms obtain cs loc nm c root where
    blocks: "\<forall>c \<in> set cs. readable_block b loc nm c"
    and made: "createByName b (ss_manager (managed rm cs s)) (nm c) c root = Inr (Some (Status h))"
    unfolding routed_def by blast
  note created = createByName_Status [OF made]
  then show "request_info_map h = rm"
    by (simp add: managed_def setHandlers_def setRequestMap_def)
  from created have "status_handlers h = cs"
    by (simp add: managed_def setHandlers_def setRequestMap_def)
  then show "\<exists>hs. handlersToString b h = Inr hs"
    by (simp add: handlersToString_def handlers_text_readable [OF blocks])
qed

lemma status_answer:
  assumes "counters_ok (request_info_map h)" and "total_requests (request_info_map h) \<le> int_max"
    and "handlersToString b h = Inr hs"
  shows "StatusHandler_HandleRequest b h request =
    Inr (Some (SetBody (status_page (request_info_map h) (total_requests (request_info_map h)) @ hs)
      (SetHeader ''Content-Type'' ''text/plain'' (SetStatus 200 new_Reply))))"
  using requestInfoToString_eq [OF assms(1,2)] assms(3) by (simp add: StatusHandler_HandleRequest_def)

section \<open>The status service\<close>

lemma serve_pending:
  assumes "pending_new config sv" and "i \<in> set (sv_reading sv)"
    and "so_read_until (sock i) crlf2 w = ((ec, msg), w1)"
  shows "serve e sock i sv w = Some (handle_request e (sock i) (with_request config msg) (sv_data sv) w1)"
  using assms by (simp add: pending_new_def serve_def Session_start_def with_request_def new_Session_def)

text \<open>With callbacks that do not overlap the page reports the number of requests served.\<close>

lemma status_request:
  assumes run: "reaches e sock (Server_create config n, w0) es (sv, w)"
    and alive: "sv_fault sv = None" "how_many is_stuck es < workers n" "int (how_many is_served es) < int_max"
    and i: "i \<in> set (sv_reading sv)" and read: "so_read_until (sock i) crlf2 w = ((ec, msg), w1)"
    and b: "boost_documented (env_boost e)" "length msg < 2 ^ 32" "acceptable msg"
    and ip: "so_remote_address (sock i) w1 = Some ip"
    and routed: "routed (env_boost e) (counters (sv_data sv)) (with_request config msg)
      (m_uri (accepted_request msg)) (Inr (Some (Status h)))"
  shows "\<exists>hs. handlersToString (env_boost e) h = Inr hs \<and>
    (\<forall>w'. write_string (sock i) (''HTTP/1.1 200 OK'' @ crlf @ ''Content-Type: text/plain'' @ crlf @ crlf @
        status_page (counters (sv_data sv)) (int (how_many is_served es)) @ hs) w1 = (Inr (), w') \<longrightarrow>
      (\<exists>s' d'. server_step e sock (sv, w) (Served i) (store_session i s' d' sv, w')))"
proof -
  note inv = reaches_inv [OF run]
  have workers: "0 < sv_workers sv" using inv alive(2) by (simp add: server_inv_def)
  have ok: "counters_ok (counters (sv_data sv))"
    and total: "total_requests (counters (sv_data sv)) = int (how_many is_served es)"
    using inv alive(1) by (simp_all add: server_inv_def)
  note map = routed_status(1) [OF routed]
  obtain hs where hs: "handlersToString (env_boost e) h = Inr hs"
    using routed_status(2) [OF routed] by blast
  let ?body = "status_page (counters (sv_data sv)) (int (how_many is_served es)) @ hs"
  let ?r = "SetBody ?body (SetHeader ''Content-Type'' ''text/plain'' (SetStatus 200 new_Reply))"
  have answer: "handler_HandleRequest e (Status h) (accepted_request msg) w1 = Some (Inr (Some ?r), w1)"
    using status_answer [of h "env_boost e" hs "accepted_request msg"] ok total hs alive(3) by (simp add: map)
  have "\<exists>s' d'. server_step e sock (sv, w) (Served i) (store_session i s' d' sv, w')"
    if wr: "write_string (sock i) (''HTTP/1.1 200 OK'' @ crlf @ ''Content-Type: text/plain'' @ crlf @ crlf @ ?body) w1 = (Inr (), w')"
    for w'
  proof -
    have "\<exists>s' d'. handle_request e (sock i) (with_request config msg) (sv_data sv) w1 = Some (Inr 0, s', d', w')"
      using answered_request [where s = "with_request config msg", unfolded with_request_fields,
          OF b ip routed answer _ plain_200_text ok _ wr] total alive(3)
      by (auto simp: reply_ops)
    then obtain s' d' where "serve e sock i sv w = Some (Some (Inr 0, s', d', w'))"
      using serve_pending [where e = e and sock = sock, OF reaches_pending [OF run] i read] by metis
    from server_step.served [OF alive(1) workers i this] show ?thesis by blast
  qed
  with hs show ?thesis by blast
qed

section \<open>A configuration with a status page\<close>

definition status_block :: NginxConfig where
  "status_block = Config [Statement [''name'', ''status''] None, Statement [''location'', ''/status''] None]"

definition status_config :: NginxConfig where
  "status_config = Config [Statement [''root'', ''.''] None, Statement [''handler''] (Some status_block)]"

lemma status_routed:
  "\<exists>h. routed boost_model rm (with_request status_config msg) ''/status'' (Inr (Some (Status h)))"
proof -
  have finds: "FindBlocks boost_model status_config ''handler'' = Inr [status_block]"
    "Find boost_model status_config ''root'' = Inr ''.''"
    "Find boost_model status_block ''location'' = Inr ''/status''"
    "Find boost_model status_block ''name'' = Inr ''status''"
    by code_simp+
  have blocks: "\<forall>c \<in> set [status_block]. readable_block boost_model (\<lambda>c. ''/status'') (\<lambda>c. ''status'') c"
    by (simp add: readable_block_def finds)
  have "best (\<lambda>c. ''/status'') ''/status'' [status_block] status_block"
    unfolding best_def by (intro exI [of _ "[]"]) (simp add: matches_def)
  from routedI [OF _ blocks this, of "with_request status_config msg" "''.''" rm]
  show ?thesis
    by (auto simp: finds managed_def setHandlers_def setRequestMap_def
        createByName_status [where rm = rm])
qed

end
