(* ===== verification/Reliable_Server.thy ===== *)
theory Reliable_Server
  imports Status_Service
begin

text \<open>
  When the server cannot fail. A configuration is reliable when it has a root and a handler
  for the location \<open>/\<close>, and all its handlers are readable and answer by themselves (they are
  neither proxies nor need the database). Over such a configuration, and with clients that
  send valid requests and take their replies, no callback of the running server throws, runs
  into undefined behaviour or fails to return: a progress lemma for one request and a
  preservation argument along the steps.
\<close>

section \<open>Reliable configurations\<close>

definition self_contained :: "string list" where
  "self_contained =
     [''echo'', ''static'', ''not_found'', ''bad_request'', ''sleep'', ''status'', ''health_check'']"

definition is_value :: "'a outcome \<Rightarrow> bool" where
  "is_value r = (case r of Inr x \<Rightarrow> True | Inl f \<Rightarrow> False)"

definition block_value :: "boost_api \<Rightarrow> string \<Rightarrow> NginxConfig \<Rightarrow> string" where
  "block_value b key c = (case Find b c key of Inr s \<Rightarrow> s | Inl f \<Rightarrow> [])"

definition reliable_block :: "boost_api \<Rightarrow> NginxConfig \<Rightarrow> bool" where
  "reliable_block b c \<longleftrightarrow> is_value (Find b c ''location'') \<and> is_value (Find b c ''name'') \<and>
     block_value b ''name'' c \<in> set self_contained \<and>
     (block_value b ''name'' c = ''static'' \<longrightarrow> is_value (Find b c ''root''))"

definition reliable_config :: "boost_api \<Rightarrow> NginxConfig \<Rightarrow> bool" where
  "reliable_config b config \<longleftrightarrow> is_value (Find b config ''root'') \<and>
     (case FindBlocks b config ''handler'' of
        Inl f \<Rightarrow> False
      | Inr cs \<Rightarrow> list_all (reliable_block b) cs \<and> list_ex (\<lambda>c. Find b c ''location'' = Inr ''/'') cs)"

text \<open>
  What a client has to do: send a text that the parser accepts, of at most 4 GB and with a
  URI that begins with a slash, before the connection breaks; and take the reply.
\<close>

definition good_client :: "'w socket_api \<Rightarrow> bool" where
  "good_client sock \<longleftrightarrow> (\<forall>w.
     (case so_read_until sock crlf2 w of ((ec, msg), w') \<Rightarrow>
        acceptable msg \<and> length msg < 2 ^ 32 \<and> prefix ''/'' (m_uri (accepted_request msg)) \<and>
        so_remote_address sock w' \<noteq> None) \<and>
     (\<forall>text. fst (write_string sock text w) = Inr ()))"

lemma is_value_iff: "is_value r \<longleftrightarrow> (\<exists>x. r = Inr x)"
  by (simp add: is_value_def split: sum.split)

lemma reliable_readable:
  "reliable_block b c \<Longrightarrow> readable_block b (block_value b ''location'') (block_value b ''name'') c"
  by (auto simp: reliable_block_def readable_block_def block_value_def is_value_iff)

lemma best_exists:
  assumes "c \<in> set cs" and "matches loc uri c"
  shows "\<exists>d. best loc uri cs d"
  using assms
proof (induction cs arbitrary: c rule: rev_induct)
  case (snoc x xs)
  show ?case
  proof (cases "\<exists>d. best loc uri xs d")
    case True
    then obtain d where d: "best loc uri xs d" by blast
    show ?thesis
    proof (cases "matches loc uri x \<and> length (loc d) < length (loc x)")
      case True
      then have "\<forall>y \<in> set xs. matches loc uri y \<longrightarrow> length (loc y) < length (loc x)"
        using best_bound [OF d] by fastforce
      with True best_snoc_new [of loc uri x xs] show ?thesis by blast
    next
      case False
      with best_snoc_old [OF d, of x] show ?thesis by auto
    qed
  next
    case False
    with snoc.IH have none: "\<forall>y \<in> set xs. \<not> matches loc uri y" by blast
    with snoc.prems have "matches loc uri x" by auto
    with none best_snoc_new [of loc uri x xs] show ?thesis by blast
  qed
qed simp

section \<open>Every handler of a reliable block answers\<close>

definition answers :: "'w server_env \<Rightarrow> Handler \<Rightarrow> Request \<Rightarrow> bool" where
  "answers e h request \<longleftrightarrow> (\<forall>w. \<exists>a. handler_HandleRequest e h request w = Some (Inr a, w))"

lemma answers_total: "answers e (Echo New_EchoHandler) request" "answers e (NotFound New_NotFoundHandler) request"
  "answers e (BadRequest New_BadRequestHandler) request" "answers e (Sleep New_SleepHandler) request"
  "answers e (HealthCheck New_HealthCheckHandler) request"
  by (simp_all add: answers_def echo.returns not_found.returns bad_request.returns sleep.returns health_check.returns)

lemma answers_static:
  assumes "m_uri request = sh_uri_prefix h @ rest"
  shows "answers e (Static h) request"
  by (simp add: answers_def StaticHandler_HandleRequest_def assms GetPath_append Let_def split: prod.split)

lemma answers_status:
  assumes "counters_ok (request_info_map h)" and "total_requests (request_info_map h) \<le> int_max"
    and "handlersToString (env_boost e) h = Inr hs"
  shows "answers e (Status h) request"
  using status_answer [OF assms] by (simp add: answers_def)

lemma reliable_handler:
  assumes block: "reliable_block b c" and others: "\<forall>d \<in> set cs. reliable_block b d" and b: "env_boost e = b"
    and uri: "prefix (block_value b ''location'' c) (m_uri request)"
    and counts: "counters_ok rm" "total_requests rm \<le> int_max"
    and m: "handler_request_map m = Some rm" "manager_handlers m = cs"
  shows "\<exists>h. createByName b m (block_value b ''name'' c) c root = Inr (Some h) \<and> answers e h request"
proof -
  from block have "block_value b ''name'' c \<in> set self_contained" by (simp add: reliable_block_def)
  then consider "block_value b ''name'' c = ''echo''" | "block_value b ''name'' c = ''static''"
    | "block_value b ''name'' c = ''not_found''" | "block_value b ''name'' c = ''bad_request''"
    | "block_value b ''name'' c = ''sleep''" | "block_value b ''name'' c = ''status''"
    | "block_value b ''name'' c = ''health_check''"
    by (auto simp only: self_contained_def list.set)
  then show ?thesis
  proof cases
    case 2
    with block obtain p l where "Find b c ''root'' = Inr p" and l: "Find b c ''location'' = Inr l"
      by (auto simp: reliable_block_def is_value_iff)
    then have "createByName b m ''static'' c root =
        Inr (Some (Static \<lparr>sh_uri_prefix = l, sh_path_prefix = p, sh_root_path = root\<rparr>))"
      by (simp add: createByName_def create_defs StaticHandler_Init_def)
    moreover from uri l obtain rest where "m_uri request = l @ rest"
      by (auto simp: block_value_def prefix_def)
    ultimately show ?thesis
      using answers_static [of request "\<lparr>sh_uri_prefix = l, sh_path_prefix = p, sh_root_path = root\<rparr>" rest e]
      by (simp add: 2)
  next
    case 6
    have "\<forall>d \<in> set cs. readable_block b (block_value b ''location'') (block_value b ''name'') d"
      using others reliable_readable by blast
    then obtain hs where "handlersToString b \<lparr>request_info_map = rm, status_handlers = cs\<rparr> = Inr hs"
      by (simp add: handlersToString_def handlers_text_readable)
    then have "answers e (Status \<lparr>request_info_map = rm, status_handlers = cs\<rparr>) request"
      using answers_status [of "\<lparr>request_info_map = rm, status_handlers = cs\<rparr>" e hs] counts b by simp
    with 6 createByName_status [OF m(1)] m(2) show ?thesis by simp
  qed (simp_all add: createByName_def create_defs EchoHandler_create_def NotFoundHandler_create_def
      BadRequestHandler_create_def SleepHandler_create_def HealthCheckHandler_create_def answers_total)
qed

section \<open>Progress\<close>

lemma reliable_routed:
  assumes rel: "reliable_config b config" and b: "env_boost e = b" and uri: "prefix ''/'' (m_uri request)"
    and counts: "counters_ok rm" "total_requests rm \<le> int_max"
  shows "\<exists>h. routed b rm (with_request config msg) (m_uri request) (Inr (Some h)) \<and> answers e h request"
proof -
  from rel obtain cs root where root: "Find b config ''root'' = Inr root"
    and cs: "FindBlocks b config ''handler'' = Inr cs" and blocks: "\<forall>c \<in> set cs. reliable_block b c"
    and all: "\<exists>c \<in> set cs. Find b c ''location'' = Inr ''/''"
    by (auto simp: reliable_config_def is_value_iff list_all_iff list_ex_iff split: sum.splits)
  from all obtain c where "c \<in> set cs" and "block_value b ''location'' c = ''/''"
    by (auto simp: block_value_def)
  with uri have "matches (block_value b ''location'') (m_uri request) c" by (simp add: matches_def)
  with best_exists [OF \<open>c \<in> set cs\<close>] obtain d where d: "best (block_value b ''location'') (m_uri request) cs d"
    by blast
  then have "d \<in> set cs" and "prefix (block_value b ''location'' d) (m_uri request)"
    using best_in by (auto simp: matches_def)
  from reliable_handler [OF _ blocks b this(2) counts, of "ss_manager (managed rm cs (with_request config msg))" root]
    blocks this(1)
  obtain h where h: "createByName b (ss_manager (managed rm cs (with_request config msg))) (block_value b ''name'' d) d root =
      Inr (Some h)" "answers e h request"
    by (auto simp: managed_def setHandlers_def setRequestMap_def)
  have "\<forall>c \<in> set cs. readable_block b (block_value b ''location'') (block_value b ''name'') c"
    using blocks reliable_readable by blast
  from routedI [OF _ this d _ h(1)] cs root h(2) show ?thesis by auto
qed

lemma reliable_serves:
  assumes rel: "reliable_config (env_boost e) config" and b: "boost_documented (env_boost e)"
    and client: "good_client sock"
    and counts: "counters_ok (counters d)" "total_requests (counters d) < int_max"
  shows "\<exists>s' d' w'. Session_start e sock (new_Session config) d w = Some (Inr 0, s', d', w')"
proof -
  obtain ec msg w1 where read: "so_read_until sock crlf2 w = ((ec, msg), w1)" by (metis surj_pair)
  with client have msg: "acceptable msg" "length msg < 2 ^ 32" "prefix ''/'' (m_uri (accepted_request msg))"
    and ip: "so_remote_address sock w1 \<noteq> None"
    and takes: "\<And>str w. fst (write_string sock str w) = Inr ()"
    unfolding good_client_def by (auto dest: spec [of _ w])
  obtain addr where addr: "so_remote_address sock w1 = Some addr" using ip by blast
  obtain h where routed: "routed (env_boost e) (counters d) (with_request config msg) (m_uri (accepted_request msg)) (Inr (Some h))"
    and ans: "answers e h (accepted_request msg)"
    using reliable_routed [OF rel refl msg(3) counts(1), of msg] counts(2) by auto
  then obtain a where a: "handler_HandleRequest e h (accepted_request msg) w1 = Some (Inr a, w1)"
    by (auto simp: answers_def)
  let ?r = "case a of None \<Rightarrow> not_found_reply | Some r \<Rightarrow> r"
  have "r_status_code ?r \<noteq> None"
  proof (cases a)
    case (Some r)
    with a have "answer_of (handler_HandleRequest e h (accepted_request msg) w1) = Inr (Some r)" by simp
    from handler.answered [OF this] Some show ?thesis by simp
  qed (simp add: not_found_reply_def reply_ops)
  then obtain code str where code: "r_status_code ?r = Some code" and str: "reply_ToString ?r = Inr str"
    using reply_ToString_defined by blast
  obtain w' where wr: "write_string sock str w1 = (Inr (), w')"
    using takes [of str w1] by (metis prod.collapse)
  have "\<exists>s' d'. handle_request e sock (with_request config msg) d w1 = Some (Inr 0, s', d', w')"
    using returned_request [where s = "with_request config msg", unfolded with_request_fields,
        OF b msg(2,1) addr routed a code str counts wr] by blast
  then show ?thesis
    by (auto simp: Session_start_def read with_request_def new_Session_def)
qed

section \<open>Preservation\<close>

lemma reliable_reached:
  assumes rel: "reliable_config (env_boost e) config" and b: "boost_documented (env_boost e)"
    and clients: "\<forall>i. good_client (sock i)"
    and run: "reaches e sock (Server_create config n, w0) es (sv, w)"
    and fault: "sv_fault sv = None" and few: "int (length es) < int_max" and i: "i \<in> set (sv_reading sv)"
  shows "\<exists>s' d' w'. serve e sock i sv w = Some (Some (Inr 0, s', d', w'))"
proof -
  note inv = reaches_inv [OF run]
  have counts: "counters_ok (counters (sv_data sv))"
    and total: "total_requests (counters (sv_data sv)) = int (how_many is_served es)"
    using inv fault by (simp_all add: server_inv_def)
  have "how_many is_served es \<le> length es" by (simp add: how_many_def)
  with total few have "total_requests (counters (sv_data sv)) < int_max" by simp
  moreover have "map_of (sv_sessions sv) i = Some (new_Session config)"
    using reaches_pending [OF run] i by (simp add: pending_new_def)
  ultimately show ?thesis
    using reliable_serves [OF rel b clients [rule_format, of i] counts] by (auto simp: serve_def)
qed

lemma reliable_from:
  assumes rel: "reliable_config (env_boost e) config" and b: "boost_documented (env_boost e)"
    and clients: "\<forall>i. good_client (sock i)"
  shows "reaches e sock c0 es c \<Longrightarrow> c0 = (Server_create config n, w0) \<Longrightarrow> int (length es) \<le> int_max \<Longrightarrow>
    sv_fault (fst c) = None \<and> how_many is_stuck es = 0"
proof (induction rule: reaches.induct)
  case start
  then show ?case by (simp add: Server_create_def)
next
  case (step es c ev c')
  obtain sv w where c: "c = (sv, w)" by fastforce
  have few: "int (length es) < int_max" using step.prems(2) by simp
  have fault: "sv_fault sv = None" and none: "how_many is_stuck es = 0"
    using step.IH [OF step.prems(1)] few by (simp_all add: c)
  have served: "i \<in> set (sv_reading sv) \<Longrightarrow> \<exists>s' d' w'. serve e sock i sv w = Some (Some (Inr 0, s', d', w'))" for i
    using reliable_reached [OF rel b clients _ fault few, of n w0 w i] step.hyps(1) step.prems(1) by (simp add: c)
  obtain sv' w' where c': "c' = (sv', w')" by fastforce
  from step.hyps(2) [unfolded c c'] show ?case
  proof (cases rule: server_step.cases)
    case (failed i f s d)
    with served [of i] show ?thesis by auto
  next
    case (stuck i)
    with served [of i] show ?thesis by auto
  qed (simp_all add: c' none fault handle_accept_Success handle_accept_error delete_session_def store_session_def)
qed

section \<open>Property\<close>

text \<open>
  A reliable configuration makes a server that cannot fail: when all its handlers
  answer by themselves and one has the location \<open>/\<close>, then in every state that is reached before
  2 to the 31 events, with clients that send valid requests and take the replies, no callback
  has thrown, run into undefined behaviour or kept its thread, and every pending request can
  be served.
\<close>

theorem reliable_server:
  "reliable_config (env_boost e) config \<Longrightarrow> boost_documented (env_boost e) \<Longrightarrow> \<forall>i. good_client (sock i) \<Longrightarrow>
   reaches e sock (Server_create config n, w0) es (sv, w) \<Longrightarrow> int (length es) < int_max \<Longrightarrow>
   sv_fault sv = None \<and> how_many is_stuck es = 0 \<and>
   (\<forall>i \<in> set (sv_reading sv). \<exists>c'. server_step e sock (sv, w) (Served i) c')"
proof -
  assume rel: "reliable_config (env_boost e) config" and b: "boost_documented (env_boost e)"
    and clients: "\<forall>i. good_client (sock i)"
    and run: "reaches e sock (Server_create config n, w0) es (sv, w)" and few: "int (length es) < int_max"
  have safe: "sv_fault sv = None" "how_many is_stuck es = 0"
    using reliable_from [OF rel b clients run refl] few by simp_all
  then have workers: "0 < sv_workers sv"
    using reaches_inv [OF run] by (simp add: server_inv_def workers_def split: if_splits)
  have "\<exists>c'. server_step e sock (sv, w) (Served i) c'" if i: "i \<in> set (sv_reading sv)" for i
  proof -
    obtain s' d' w' where "serve e sock i sv w = Some (Some (Inr 0, s', d', w'))"
      using reliable_reached [OF rel b clients run safe(1) few i] by blast
    from server_step.served [OF safe(1) workers i this] show ?thesis by blast
  qed
  with safe show ?thesis by blast
qed

definition root_block :: NginxConfig where
  "root_block = Config [Statement [''name'', ''static''] None, Statement [''location'', ''/''] None,
     Statement [''root'', ''/static''] None]"

definition two_handlers :: NginxConfig where
  "two_handlers = Config [Statement [''root'', ''.''] None, Statement [''handler''] (Some status_block),
     Statement [''handler''] (Some root_block)]"

lemma two_handlers_reliable:
  "reliable_config boost_model two_handlers"
  "good_client (delivering ''GET /x HTTP/1.1'' :: mem_world socket_api)"
proof -
  show "reliable_config boost_model two_handlers" by code_simp
  have "acceptable ''GET /x HTTP/1.1''" "prefix ''/'' (m_uri (accepted_request ''GET /x HTTP/1.1''))"
    by code_simp+
  then show "good_client (delivering ''GET /x HTTP/1.1'' :: mem_world socket_api)"
    by (simp add: good_client_def delivering_def write_string_def sample_socket_def)
qed

theorem reliable_server_witness:
  "\<exists>c'. server_step sample_env (\<lambda>i. delivering ''GET /x HTTP/1.1'') (connected two_handlers, empty_world) (Served 0) c'"
  using reliable_server [OF _ _ _ sample_reach [of sample_env "\<lambda>i. delivering ''GET /x HTTP/1.1''" two_handlers empty_world]]
  by (auto simp: boost_model_documented two_handlers_reliable one_connection_fields int_max_def)

end
