(* ===== verification/Counter_Race.thy ===== *)
theory Counter_Race
  imports Status_Handler
begin

text \<open>
  Counting by several threads at once. \<open>Session::handle_request\<close> (\<open>src/session.cc\<close>, lines 98
  to 108) updates the shared counters without a lock, and the callbacks run on a pool of
  threads. Here the counting code of each thread is cut into its accesses to the map, and a
  schedule says which thread makes the next access. Accesses are atomic; C++ does not even
  promise that, so this is the best the code can hope for. A thread that is not interrupted
  does what \<open>record_request\<close> does; with interruptions requests are lost, and the theory shows
  exactly how many.
\<close>

section \<open>The accesses of one thread\<close>

datatype count_pc =
    Find_url            \<comment> \<open>about to evaluate \<open>request_map->find(uri)\<close>\<close>
  | Find_code           \<comment> \<open>about to evaluate \<open>(*request_map)[uri].find(code)\<close>\<close>
  | Read_count          \<comment> \<open>about to read the counter for \<open>+= 1\<close>\<close>
  | Write_count int     \<comment> \<open>about to store the number\<close>
  | Counted

definition store_count :: "string \<Rightarrow> int \<Rightarrow> int \<Rightarrow> request_map \<Rightarrow> request_map" where
  "store_count uri code n m = map_put uri (map_put code n (map_at [] m uri)) m"

text \<open>
  \<open>operator[]\<close> enters a missing key: the second access may enter the URI, the third the
  status code.
\<close>

fun count_step :: "string \<Rightarrow> int \<Rightarrow> count_pc \<Rightarrow> request_map \<Rightarrow> (count_pc \<times> request_map) outcome" where
  "count_step uri code Find_url m =
     Inr (if map_find m uri \<noteq> None then Find_code else Write_count 1, m)"
| "count_step uri code Find_code m =
     (let m = map_touch [] uri m
      in Inr (if map_find (map_at [] m uri) code \<noteq> None then Read_count else Write_count 1, m))"
| "count_step uri code Read_count m =
     (let counts = map_at [] m uri;
          m = (if map_find counts code = None then store_count uri code 0 m else m)
      in obind (int_add (map_at 0 counts code) 1) (\<lambda>n. Inr (Write_count n, m)))"
| "count_step uri code (Write_count n) m = Inr (Counted, store_count uri code n m)"
| "count_step uri code Counted m = Inr (Counted, m)"

section \<open>Several threads\<close>

record count_thread =
  th_uri :: string
  th_code :: int
  th_pc :: count_pc

type_synonym race = "request_map \<times> count_thread list"

text \<open>The next access of thread \<open>i\<close>, and the accesses of a schedule.\<close>

definition race_step :: "nat \<Rightarrow> race \<Rightarrow> race outcome" where
  "race_step i c =
     (case c of (m, ths) \<Rightarrow>
        if i < length ths then
          (let th = ths ! i in
           obind (count_step (th_uri th) (th_code th) (th_pc th) m) (\<lambda>(pc, m).
             Inr (m, ths[i := th\<lparr>th_pc := pc\<rparr>])))
        else Inr c)"

fun run_schedule :: "nat list \<Rightarrow> race \<Rightarrow> race outcome" where
  "run_schedule [] c = Inr c"
| "run_schedule (i # schedule) c = obind (race_step i c) (run_schedule schedule)"

lemma run_schedule_append:
  "run_schedule (s @ t) c = obind (run_schedule s c) (run_schedule t)"
  by (induction s c rule: run_schedule.induct) (simp_all add: obind_assoc cong: obind_cong)

section \<open>One thread by itself\<close>

lemma store_count_count:
  "request_count (store_count uri code n m) u c = (if u = uri \<and> c = code then n else request_count m u c)"
  by (simp add: store_count_def request_count_def map_at_put)

lemma race_step_at:
  "i < length ths \<Longrightarrow> ths ! i = th \<Longrightarrow>
   count_step (th_uri th) (th_code th) (th_pc th) m = Inr (pc, m') \<Longrightarrow>
   race_step i (m, ths) = Inr (m', ths[i := th\<lparr>th_pc := pc\<rparr>])"
  by (simp add: race_step_def)

lemma record_request_store:
  "record_request uri code m =
     (case map_find (map_at [] m uri) code of
        Some n \<Rightarrow> obind (int_add n 1) (\<lambda>n. Inr (store_count uri code n m))
      | None \<Rightarrow> Inr (store_count uri code 1 m))"
  by (simp add: record_request_def store_count_def map_at_def split: option.split)

lemma count_uninterrupted:
  assumes "i < length ths" and "th_pc (ths ! i) = Find_url"
  shows "run_schedule [i, i, i, i] (m, ths) =
    obind (record_request (th_uri (ths ! i)) (th_code (ths ! i)) m)
      (\<lambda>m'. Inr (m', ths[i := (ths ! i)\<lparr>th_pc := Counted\<rparr>]))"
proof (cases "map_find m (th_uri (ths ! i))")
  case None
  with assms show ?thesis
    by (simp add: race_step_def record_request_store map_at_def)
next
  case (Some counts)
  with assms show ?thesis
    by (cases "map_find counts (th_code (ths ! i))")
      (simp_all add: race_step_def record_request_store map_at_def map_touch_def int_add_def)
qed

section \<open>Every schedule\<close>

definition has_count :: "string \<Rightarrow> int \<Rightarrow> request_map \<Rightarrow> bool" where
  "has_count u c m \<longleftrightarrow> map_find (map_at [] m u) c \<noteq> None"

definition counts_for :: "string \<Rightarrow> int \<Rightarrow> count_thread \<Rightarrow> bool" where
  "counts_for u c th \<longleftrightarrow> th_uri th = u \<and> th_code th = c"

definition counted_for :: "string \<Rightarrow> int \<Rightarrow> count_thread list \<Rightarrow> nat" where
  "counted_for u c ths = length (filter (\<lambda>th. counts_for u c th \<and> th_pc th = Counted) ths)"

text \<open>
  What holds under every schedule, for a counter that was \<open>k\<close> at the start: it never falls
  below \<open>k\<close>, it has grown once a thread is done, it never exceeds \<open>k\<close> by more than the
  number of threads that are done, and what a thread is about to store is in the same range.
\<close>

definition race_inv :: "string \<Rightarrow> int \<Rightarrow> request_map \<Rightarrow> race \<Rightarrow> bool" where
  "race_inv u c m0 r \<longleftrightarrow>
     (let k = request_count m0 u c; d = counted_for u c (snd r); z = request_count (fst r) u c in
      (has_count u c m0 \<longrightarrow> has_count u c (fst r)) \<and>
      k \<le> z \<and> z \<le> k + int d \<and> (0 < d \<longrightarrow> k < z) \<and>
      (\<forall>th n. th \<in> set (snd r) \<longrightarrow> counts_for u c th \<longrightarrow> th_pc th = Write_count n \<longrightarrow>
         k < n \<and> n \<le> k + int d + 1))"

lemma race_inv_pending:
  "race_inv u c m0 (m, ths) \<Longrightarrow> th \<in> set ths \<Longrightarrow> counts_for u c th \<Longrightarrow> th_pc th = Write_count n \<Longrightarrow>
   request_count m0 u c < n"
  by (auto simp: race_inv_def Let_def)

lemma not_has_count_count: "\<not> has_count u c m \<Longrightarrow> request_count m u c = 0"
  by (simp add: has_count_def request_count_def map_at_def)

lemma has_count_store: "has_count u c (store_count uri code n m) \<longleftrightarrow> u = uri \<and> c = code \<or> has_count u c m"
  by (auto simp: has_count_def store_count_def map_at_put map_find_put)

text \<open>The accesses in terms of the counter they are about.\<close>

lemma has_count_touch: "has_count u c (map_touch [] uri m) = has_count u c m"
  by (simp add: has_count_def)

lemma count_touch: "request_count (map_touch [] uri m) u c = request_count m u c"
  by (simp add: request_count_def)

lemma count_step_Find_url:
  "\<exists>b. count_step uri code Find_url m = Inr (if b then Find_code else Write_count 1, m) \<and>
     (\<not> b \<longrightarrow> \<not> has_count uri code m)"
  by (auto simp: has_count_def map_at_def)

lemma count_step_Find_code:
  "count_step uri code Find_code m =
     Inr (if has_count uri code m then Read_count else Write_count 1, map_touch [] uri m)"
  by (simp add: has_count_def Let_def)

lemma count_step_Read_count:
  "count_step uri code Read_count m =
     obind (int_add (request_count m uri code) 1)
       (\<lambda>n. Inr (Write_count n, if has_count uri code m then m else store_count uri code 0 m))"
  by (simp add: has_count_def request_count_def Let_def)

declare count_step.simps(1-3) [simp del]

lemmas count_steps = count_step_Find_code count_step_Read_count count_step.simps(4,5)

text \<open>What one access does to a counter, and what it leaves the thread with.\<close>

definition step_effect :: "string \<Rightarrow> int \<Rightarrow> count_pc \<Rightarrow> request_map \<Rightarrow> count_pc \<times> request_map \<Rightarrow> bool" where
  "step_effect uri code pc m res \<longleftrightarrow>
     (\<forall>u c. (has_count u c m \<longrightarrow> has_count u c (snd res)) \<and>
        request_count (snd res) u c =
          (case pc of Write_count n \<Rightarrow> if u = uri \<and> c = code then n else request_count m u c
           | _ \<Rightarrow> request_count m u c)) \<and>
     (fst res = Counted \<longleftrightarrow> pc = Counted \<or> (\<exists>n. pc = Write_count n)) \<and>
     (\<forall>n. fst res = Write_count n \<longrightarrow>
        n = request_count m uri code + 1 \<or> n = 1 \<and> \<not> has_count uri code m)"

lemma count_step_effect:
  assumes "count_step uri code pc m = Inr res"
  shows "step_effect uri code pc m res"
proof (cases pc)
  case Find_url
  with assms count_step_Find_url [of uri code m] show ?thesis
    by (auto simp: step_effect_def split: if_splits)
next
  case Read_count
  with assms show ?thesis
    by (auto simp: step_effect_def count_step_Read_count int_add_def obind_Inr_iff has_count_store
        store_count_count not_has_count_count split: if_splits)
qed (use assms in \<open>auto simp: step_effect_def count_steps has_count_touch count_touch has_count_store
      store_count_count split: if_splits\<close>)

lemma race_step_Inr:
  assumes "race_step i (m, ths) = Inr r" and "i < length ths"
  obtains pc m' where "count_step (th_uri (ths ! i)) (th_code (ths ! i)) (th_pc (ths ! i)) m = Inr (pc, m')"
    and "r = (m', ths[i := (ths ! i)\<lparr>th_pc := pc\<rparr>])"
  using assms by (auto simp: race_step_def obind_Inr_iff Let_def)

lemma counted_for_update:
  assumes "i < length ths" and "counts_for u c th = counts_for u c (ths ! i)"
    and "th_pc (ths ! i) = Counted \<Longrightarrow> th_pc th = Counted"
  shows "counted_for u c (ths[i := th]) = counted_for u c ths +
    (if counts_for u c th \<and> th_pc th = Counted \<and> th_pc (ths ! i) \<noteq> Counted then 1 else 0)"
proof -
  have "ths = take i ths @ ths ! i # drop (Suc i) ths" using assms(1) by (rule id_take_nth_drop)
  then obtain xs ys where "ths = xs @ ths ! i # ys" and len: "length xs = i"
    using assms(1) by (metis length_take min.absorb4)
  then have "counted_for u c ths = counted_for u c (xs @ ths ! i # ys)"
    and "counted_for u c (ths[i := th]) = counted_for u c (xs @ th # ys)"
    by (metis, metis list_update_length)
  with assms(2,3) show ?thesis by (auto simp: counted_for_def)
qed

lemma race_inv_step:
  assumes inv: "race_inv u c m0 (m, ths)" and run: "race_step i (m, ths) = Inr r"
  shows "race_inv u c m0 r"
proof (cases "i < length ths")
  case False
  with inv run show ?thesis by (simp add: race_step_def)
next
  case i: True
  let ?th = "ths ! i"
  from race_step_Inr [OF run i] obtain pc m' where
    st: "count_step (th_uri ?th) (th_code ?th) (th_pc ?th) m = Inr (pc, m')"
    and r: "r = (m', ths[i := ?th\<lparr>th_pc := pc\<rparr>])" by blast
  note eff = count_step_effect [OF st, unfolded step_effect_def fst_conv snd_conv]
  have same: "counts_for u c (?th\<lparr>th_pc := pc\<rparr>) = counts_for u c ?th"
    by (simp add: counts_for_def)
  have done': "counted_for u c (ths[i := ?th\<lparr>th_pc := pc\<rparr>]) = counted_for u c ths +
      (if counts_for u c ?th \<and> (\<exists>n. th_pc ?th = Write_count n) then 1 else 0)"
    using counted_for_update [OF i same] eff by (auto simp: counts_for_def)
  have mem: "?th \<in> set ths" using i by simp
  let ?k = "request_count m0 u c" and ?d = "counted_for u c ths" and ?z = "request_count m u c"
  have old: "has_count u c m0 \<longrightarrow> has_count u c m" "?k \<le> ?z" "?z \<le> ?k + int ?d" "0 < ?d \<longrightarrow> ?k < ?z"
    and pending: "\<And>th n. th \<in> set ths \<Longrightarrow> counts_for u c th \<Longrightarrow> th_pc th = Write_count n \<Longrightarrow>
      ?k < n \<and> n \<le> ?k + int ?d + 1"
    using inv by (auto simp: race_inv_def Let_def)
  have z': "request_count m' u c =
      (case th_pc ?th of Write_count n \<Rightarrow> if counts_for u c ?th then n else ?z | _ \<Rightarrow> ?z)"
    using eff by (auto simp: counts_for_def split: count_pc.split)
  have key': "has_count u c m0 \<longrightarrow> has_count u c m'" using eff old(1) by blast
  have own: "?k < n \<and> n \<le> ?k + int ?d + 1" if "counts_for u c ?th" "pc = Write_count n" for n
  proof -
    have "n = ?z + 1 \<or> n = 1 \<and> \<not> has_count u c m" using eff that by (auto simp: counts_for_def)
    then show ?thesis
    proof
      assume "n = 1 \<and> \<not> has_count u c m"
      with old(1) not_has_count_count [of u c m0] show ?thesis by auto
    qed (use old in simp)
  qed
  have later: "?k < n \<and> n \<le> ?k + int ?d + 1"
    if "th \<in> set (ths[i := ?th\<lparr>th_pc := pc\<rparr>])" "counts_for u c th" "th_pc th = Write_count n" for th n
    using that set_update_subset_insert [of ths i] pending own same by fastforce
  show ?thesis
  proof (cases "counts_for u c ?th \<and> (\<exists>n. th_pc ?th = Write_count n)")
    case True
    then obtain n where n: "counts_for u c ?th" "th_pc ?th = Write_count n" by blast
    with pending [OF mem n] done' z' key' later show ?thesis
      by (force simp: race_inv_def Let_def r)
  next
    case False
    then have "request_count m' u c = ?z" using z' by (auto split: count_pc.splits)
    with False old done' key' later show ?thesis by (auto simp: race_inv_def Let_def r)
  qed
qed

lemma race_inv_run:
  "race_inv u c m0 r \<Longrightarrow> run_schedule schedule r = Inr r' \<Longrightarrow> race_inv u c m0 r'"
proof (induction schedule r rule: run_schedule.induct)
  case (2 i schedule r)
  from "2.prems"(2) obtain r1 where r1: "race_step i r = Inr r1" "run_schedule schedule r1 = Inr r'"
    by (auto simp: obind_Inr_iff)
  have "race_inv u c m0 r1" using "2.prems"(1) r1(1) by (cases r) (simp add: race_inv_step)
  with "2.IH" r1 show ?case by blast
qed simp

lemma race_inv_start: "\<forall>th \<in> set ths. th_pc th = Find_url \<Longrightarrow> race_inv u c m (m, ths)"
  by (auto simp: race_inv_def Let_def counted_for_def filter_empty_conv)

section \<open>Schedules that lose requests\<close>

definition race_reaches :: "race \<Rightarrow> race \<Rightarrow> bool" where
  "race_reaches r r' \<longleftrightarrow> (\<exists>schedule. run_schedule schedule r = Inr r')"

lemma race_reaches_refl [simp]: "race_reaches r r"
  unfolding race_reaches_def by (rule exI [of _ "[]"]) simp

lemma race_reaches_trans: "race_reaches r r' \<Longrightarrow> race_reaches r' r'' \<Longrightarrow> race_reaches r r''"
  unfolding race_reaches_def by (elim exE) (metis run_schedule_append obind_simps(2))

lemma race_reachesI: "run_schedule schedule r = Inr r' \<Longrightarrow> race_reaches r r'"
  by (auto simp: race_reaches_def)

abbreviation thread_at :: "string \<Rightarrow> int \<Rightarrow> count_pc \<Rightarrow> count_thread" where
  "thread_at u c pc \<equiv> \<lparr>th_uri = u, th_code = c, th_pc = pc\<rparr>"

text \<open>A thread may be stopped right before it stores; it then holds the next number.\<close>

lemma reach_read:
  assumes "0 \<le> request_count m u c" and "request_count m u c < int_max"
  shows "race_reaches (m, xs @ thread_at u c Find_url # ys)
    (m, xs @ thread_at u c (Write_count (request_count m u c + 1)) # ys)"
proof -
  let ?i = "length xs"
  consider "map_find m u = None"
    | counts where "map_find m u = Some counts" "map_find counts c = None"
    | counts n where "map_find m u = Some counts" "map_find counts c = Some n"
    by (cases "map_find m u") auto
  then show ?thesis
  proof cases
    case 1
    show ?thesis
      by (rule race_reachesI [of "[?i]"])
        (simp add: 1 race_step_def count_step.simps request_count_def map_at_def)
  next
    case 2
    show ?thesis
      by (rule race_reachesI [of "[?i, ?i]"])
        (simp add: 2 race_step_def count_step.simps request_count_def map_at_def map_touch_def)
  next
    case 3
    with assms show ?thesis
      by (intro race_reachesI [of "[?i, ?i, ?i]"])
        (simp add: race_step_def count_step.simps request_count_def map_at_def map_touch_def
          int_add_def fits_int_def int_min_def)
  qed
qed

lemma reach_write:
  "race_reaches (m, xs @ thread_at u c (Write_count n) # ys)
     (store_count u c n m, xs @ thread_at u c Counted # ys)"
  by (rule race_reachesI [of "[length xs]"]) (simp add: race_step_def)

lemma reach_reads:
  assumes "0 \<le> request_count m u c" and "request_count m u c < int_max"
  shows "race_reaches (m, xs @ replicate n (thread_at u c Find_url) @ ys)
    (m, xs @ replicate n (thread_at u c (Write_count (request_count m u c + 1))) @ ys)"
proof (induction n arbitrary: xs)
  case (Suc n)
  let ?w = "thread_at u c (Write_count (request_count m u c + 1))"
  from reach_read [OF assms] Suc [of "xs @ [?w]"] show ?case
    by (auto intro: race_reaches_trans)
qed simp

lemma reach_writes:
  "\<exists>m'. race_reaches (m, xs @ replicate n (thread_at u c (Write_count v)) @ ys)
      (m', xs @ replicate n (thread_at u c Counted) @ ys) \<and>
    request_count m' u c = (if n = 0 then request_count m u c else v)"
proof (induction n arbitrary: m xs)
  case (Suc n)
  from Suc [of "store_count u c v m" "xs @ [thread_at u c Counted]"] obtain m' where
    "race_reaches (store_count u c v m, xs @ thread_at u c Counted # replicate n (thread_at u c (Write_count v)) @ ys)
      (m', xs @ thread_at u c Counted # replicate n (thread_at u c Counted) @ ys)"
    and "request_count m' u c = v"
    by (auto simp: store_count_count split: if_splits)
  with reach_write [of m xs u c v "replicate n (thread_at u c (Write_count v)) @ ys"]
  show ?case by (auto intro: race_reaches_trans)
next
  case 0
  show ?case by (intro exI [of _ m]) simp
qed

lemma reach_alone:
  assumes "0 \<le> request_count m u c" and "request_count m u c + int n \<le> int_max"
  shows "\<exists>m'. race_reaches (m, xs @ replicate n (thread_at u c Find_url) @ ys)
      (m', xs @ replicate n (thread_at u c Counted) @ ys) \<and>
    request_count m' u c = request_count m u c + int n"
  using assms
proof (induction n arbitrary: m xs)
  case (Suc n)
  let ?z = "request_count m u c + 1" and ?fs = "replicate n (thread_at u c Find_url) @ ys"
  have one: "race_reaches (m, xs @ thread_at u c Find_url # ?fs)
      (store_count u c ?z m, xs @ thread_at u c Counted # ?fs)"
    using reach_read [of m u c xs ?fs] reach_write [of m xs u c ?z ?fs] Suc.prems
    by (auto intro: race_reaches_trans)
  obtain m' where
    "race_reaches (store_count u c ?z m, xs @ thread_at u c Counted # ?fs)
      (m', xs @ thread_at u c Counted # replicate n (thread_at u c Counted) @ ys)"
    and "request_count m' u c = ?z + int n"
    using Suc.IH [of "store_count u c ?z m" "xs @ [thread_at u c Counted]"] Suc.prems
    by (auto simp: store_count_count)
  with one show ?case by (auto intro!: exI [of _ m'] intro: race_reaches_trans)
next
  case 0
  show ?case by (intro exI [of _ m]) simp
qed

text \<open>The first \<open>a\<close> threads all read before any of them stores; the others follow one by one.\<close>

lemma reach_lost:
  assumes k: "0 \<le> request_count m u c" and fits: "request_count m u c + int (a + b) \<le> int_max" and a: "0 < a"
  shows "\<exists>m'. race_reaches (m, replicate (a + b) (thread_at u c Find_url))
      (m', replicate (a + b) (thread_at u c Counted)) \<and>
    request_count m' u c = request_count m u c + 1 + int b"
proof -
  let ?f = "thread_at u c Find_url" and ?d = "thread_at u c Counted" and ?k = "request_count m u c"
  let ?w = "thread_at u c (Write_count (?k + 1))"
  have reads: "race_reaches (m, replicate (a + b) ?f) (m, replicate a ?w @ replicate b ?f)"
    using reach_reads [of m u c "[]" a "replicate b ?f"] k fits a by (simp add: replicate_add)
  obtain m1 where writes: "race_reaches (m, replicate a ?w @ replicate b ?f) (m1, replicate a ?d @ replicate b ?f)"
    and m1: "request_count m1 u c = ?k + 1"
    using reach_writes [of m "[]" a u c "?k + 1" "replicate b ?f"] a by auto
  obtain m2 where "race_reaches (m1, replicate a ?d @ replicate b ?f) (m2, replicate a ?d @ replicate b ?d)"
    and "request_count m2 u c = ?k + 1 + int b"
    using reach_alone [of m1 u c b "replicate a ?d" "[]"] m1 k fits a by auto
  with race_reaches_trans [OF race_reaches_trans [OF reads writes]] show ?thesis
    by (auto simp: replicate_add intro!: exI [of _ m2])
qed

lemma race_outcomes:
  assumes k: "0 \<le> request_count m u c" and n: "0 < n" and fits: "request_count m u c + int n \<le> int_max"
  shows "(\<exists>m'. race_reaches (m, replicate n (thread_at u c Find_url)) (m', replicate n (thread_at u c Counted)) \<and>
      request_count m' u c = z) \<longleftrightarrow> request_count m u c < z \<and> z \<le> request_count m u c + int n"
    (is "?reached \<longleftrightarrow> ?range")
proof
  assume ?reached
  then obtain m' schedule where
    run: "run_schedule schedule (m, replicate n (thread_at u c Find_url)) = Inr (m', replicate n (thread_at u c Counted))"
    and z: "request_count m' u c = z" by (auto simp: race_reaches_def)
  have "race_inv u c m (m', replicate n (thread_at u c Counted))"
    by (rule race_inv_run [OF race_inv_start run]) simp
  moreover have "counted_for u c (replicate n (thread_at u c Counted)) = n"
    by (simp add: counted_for_def counts_for_def)
  ultimately show ?range using n z by (simp add: race_inv_def Let_def)
next
  assume range: ?range
  define b where "b = nat (z - request_count m u c - 1)"
  have "b < n" and z: "z = request_count m u c + 1 + int b" using range by (auto simp: b_def)
  then have "n = (n - b) + b" "0 < n - b" by auto
  with reach_lost [OF k, of "n - b" b] fits z show ?reached by auto
qed

section \<open>The total of the counters\<close>

text \<open>The entries of a map of counters, each with its URI and status.\<close>

definition count_entries :: "request_map \<Rightarrow> ((string \<times> int) \<times> int) list" where
  "count_entries m = concat (map (\<lambda>(u, counts). map (\<lambda>(c, n). ((u, c), n)) counts) m)"

lemma total_requests_entries: "total_requests m = (\<Sum>e \<leftarrow> count_entries m. snd e)"
proof (induction m)
  case (Cons uc m)
  obtain u counts where "uc = (u, counts)" by fastforce
  moreover have "sum_list (map (snd \<circ> (\<lambda>(c, n). ((u, c), n))) counts) = codes_total counts"
    by (simp add: codes_total_def o_def case_prod_unfold)
  ultimately show ?case using Cons by (simp add: total_requests_alt count_entries_def)
qed (simp add: total_requests_alt count_entries_def)

lemma map_ok_distinct: "map_ok m \<Longrightarrow> distinct (map fst m)"
  by (simp add: map_ok_def strict_sorted_iff)

lemma distinct_entries:
  "map_ok m \<Longrightarrow> list_all (\<lambda>(url, counts). map_ok counts \<and> P counts) m \<Longrightarrow> distinct (map fst (count_entries m))"
proof (induction m)
  case (Cons uc m)
  obtain u counts where uc: "uc = (u, counts)" by fastforce
  have "distinct (map fst counts)" using Cons.prems uc by (simp add: map_ok_distinct)
  then have "distinct (map (\<lambda>(c, n). (u, c)) counts)"
    by (simp add: distinct_map case_prod_unfold inj_on_def)
  moreover have "u \<notin> fst ` set m" using Cons.prems uc by (auto simp: map_ok_Cons_iff)
  ultimately show ?case
    using Cons uc by (auto simp: count_entries_def map_ok_Cons_iff o_def case_prod_unfold)
qed (simp add: count_entries_def)

lemma entry_count:
  assumes "map_ok m" and "list_all (\<lambda>(url, counts). map_ok counts \<and> P counts) m" and "((u, c), n) \<in> set (count_entries m)"
  shows "request_count m u c = n"
proof -
  obtain counts where m: "(u, counts) \<in> set m" and c: "(c, n) \<in> set counts"
    using assms(3) by (auto simp: count_entries_def)
  have "map_find m u = Some counts" using m map_ok_distinct [OF assms(1)] by (simp flip: map_of_find)
  moreover have "map_ok counts" using assms(2) m by (auto simp: list_all_iff)
  then have "map_find counts c = Some n" using c map_ok_distinct [of counts] by (simp flip: map_of_find)
  ultimately show ?thesis by (simp add: request_count_def map_at_def)
qed

text \<open>Each thread is counted under one URI and status.\<close>

lemma counted_sum:
  assumes "finite S"
  shows "(\<Sum>x \<in> S. counted_for (fst x) (snd x) ths) \<le> length (filter (\<lambda>th. th_pc th = Counted) ths)"
proof (induction ths)
  case (Cons th ths)
  let ?one = "\<lambda>x. if x = (th_uri th, th_code th) then if th_pc th = Counted then 1 else 0 else (0 :: nat)"
  have "counted_for (fst x) (snd x) (th # ths) = ?one x + counted_for (fst x) (snd x) ths" for x
    by (cases x) (auto simp: counted_for_def counts_for_def)
  then have "(\<Sum>x \<in> S. counted_for (fst x) (snd x) (th # ths)) =
      (\<Sum>x \<in> S. ?one x) + (\<Sum>x \<in> S. counted_for (fst x) (snd x) ths)"
    by (simp only: sum.distrib)
  moreover have "(\<Sum>x \<in> S. ?one x) \<le> (if th_pc th = Counted then 1 else 0)"
    using assms by (subst sum.delta) simp_all
  ultimately show ?case using Cons by (auto split: if_splits)
qed (simp add: counted_for_def)

lemma total_le_counted:
  assumes ok: "counters_ok m" and le: "\<And>u c. request_count m u c \<le> int (counted_for u c ths)"
  shows "total_requests m \<le> int (length (filter (\<lambda>th. th_pc th = Counted) ths))"
proof -
  let ?es = "count_entries m"
  have m: "map_ok m" "list_all (\<lambda>(url, counts). map_ok counts \<and> list_all (\<lambda>(code, n). 0 < n) counts) m"
    using ok by (simp_all add: counters_ok_def)
  have "total_requests m = (\<Sum>e \<leftarrow> ?es. request_count m (fst (fst e)) (snd (fst e)))"
    unfolding total_requests_entries using entry_count [OF m]
    by (intro arg_cong [where f = sum_list] map_cong refl) (auto simp: prod_eq_iff)
  also have "\<dots> = (\<Sum>x \<leftarrow> map fst ?es. request_count m (fst x) (snd x))"
    by (simp add: o_def)
  also have "\<dots> = (\<Sum>x \<in> set (map fst ?es). request_count m (fst x) (snd x))"
    by (rule sum_list_distinct_conv_sum_set [OF distinct_entries [OF m]])
  also have "\<dots> \<le> (\<Sum>x \<in> set (map fst ?es). int (counted_for (fst x) (snd x) ths))"
    by (intro sum_mono le)
  also have "\<dots> = int (\<Sum>x \<in> set (map fst ?es). counted_for (fst x) (snd x) ths)"
    by simp
  also have "\<dots> \<le> int (length (filter (\<lambda>th. th_pc th = Counted) ths))"
    by (simp only: of_nat_le_iff) (rule counted_sum, simp)
  finally show ?thesis .
qed

lemma counters_ok_put:
  assumes "counters_ok m" and "map_ok counts" and "list_all (\<lambda>(code, n). 0 < n) counts"
  shows "counters_ok (map_put uri counts m)"
  using assms by (auto simp: counters_ok_def intro!: map_ok_put list_all_map_put)

lemma counters_ok_at:
  assumes "counters_ok m"
  shows "map_ok (map_at [] m u) \<and> list_all (\<lambda>(code, n). 0 < n) (map_at [] m u)"
  using counters_okD [OF assms, of u] by (simp add: map_at_def split: option.split)

lemma count_step_ok:
  assumes ok: "counters_ok m" and st: "count_step uri code pc m = Inr (pc', m')"
    and read: "pc = Read_count \<Longrightarrow> has_count uri code m" and stored: "\<And>n. pc = Write_count n \<Longrightarrow> 0 < n"
  shows "counters_ok m'" and "pc' = Read_count \<Longrightarrow> has_count uri code m'"
proof -
  have "counters_ok m' \<and> (pc' = Read_count \<longrightarrow> has_count uri code m')"
  proof (cases pc)
    case Find_url
    with st ok show ?thesis by (auto simp: count_step.simps split: if_splits)
  next
    case Find_code
    with st have "m' = map_touch [] uri m" "pc' = Read_count \<Longrightarrow> has_count uri code m"
      by (auto simp: count_steps split: if_splits)
    with ok show ?thesis
      by (auto simp: map_touch_def has_count_touch counters_ok_put split: option.split)
        (metis has_count_touch map_touch_def option.simps(4))
  next
    case Read_count
    with st read ok show ?thesis by (auto simp: count_steps obind_Inr_iff)
  next
    case (Write_count n)
    with st stored ok counters_ok_at [OF ok, of uri] show ?thesis
      by (auto simp: store_count_def intro!: counters_ok_put map_ok_put list_all_map_put)
  next
    case Counted
    with st ok show ?thesis by simp
  qed
  then show "counters_ok m'" and "pc' = Read_count \<Longrightarrow> has_count uri code m'" by simp_all
qed

section \<open>Properties\<close>

text \<open>
  A thread that makes its accesses without interruption counts the request exactly
  as \<open>record_request\<close> says, whatever the other threads have done or still have to do; it
  fails exactly when that addition overflows.
\<close>

theorem uninterrupted_counts:
  "i < length ths \<Longrightarrow> th_pc (ths ! i) = Find_url \<Longrightarrow>
   run_schedule [i, i, i, i] (m, ths) =
     (case record_request (th_uri (ths ! i)) (th_code (ths ! i)) m of
        Inl f \<Rightarrow> Inl f
      | Inr m' \<Rightarrow> Inr (m', ths[i := (ths ! i)\<lparr>th_pc := Counted\<rparr>]))"
  using count_uninterrupted [of i ths m] by (simp add: obind_def del: run_schedule.simps)

theorem uninterrupted_counts_witness:
  "run_schedule [0, 0, 0, 0] ([(''/'', [(200, 7)])], [thread_at ''/'' 200 Find_url])
     = Inr ([(''/'', [(200, 8)])], [thread_at ''/'' 200 Counted])"
  using uninterrupted_counts [of 0 "[thread_at ''/'' 200 Find_url]" "[(''/'', [(200, 7)])]"]
  by (simp add: record_request_def int_add_def fits_int_def int_min_def int_max_def)

text \<open>
  Claim C10. What \<open>n\<close> threads that count the same answer to the same URI can leave in the
  counter: when it was \<open>k\<close>, the results of all schedules are exactly the numbers from \<open>k + 1\<close>
  to \<open>k + n\<close>. So up to \<open>n - 1\<close> of the \<open>n\<close> requests are lost, and no schedule counts too many.
\<close>

theorem concurrent_counts:
  "0 \<le> request_count m u c \<Longrightarrow> 0 < n \<Longrightarrow> request_count m u c + int n \<le> int_max \<Longrightarrow>
   (\<exists>schedule m'. run_schedule schedule (m, replicate n (thread_at u c Find_url))
        = Inr (m', replicate n (thread_at u c Counted)) \<and> request_count m' u c = z)
   \<longleftrightarrow> request_count m u c < z \<and> z \<le> request_count m u c + int n"
  using race_outcomes [of m u c n z] by (auto simp: race_reaches_def)

theorem concurrent_counts_witness:
  "\<exists>schedule m'. run_schedule schedule ([(''/'', [(200, 7)])], replicate 4 (thread_at ''/'' 200 Find_url))
     = Inr (m', replicate 4 (thread_at ''/'' 200 Counted)) \<and> request_count m' ''/'' 200 = 8"
  by (subst concurrent_counts) (simp_all add: request_count_def map_at_def int_max_def)

end
