(* ===== verification/Concurrent_Server.thy ===== *)
theory Concurrent_Server
  imports Counter_Race Server_Spec
begin

text \<open>
  The server with callbacks that overlap. \<open>Server\<close> runs a callback as one step; here it is
  taken apart where threads share data: reading the request and computing the reply
  (\<open>prepare\<close>), the accesses to the counters one by one (\<open>count_step\<close> of \<open>Counter_Race\<close>), and
  writing the reply and the line of the log (\<open>conclude\<close>). As many callbacks as there are
  threads make progress in any order. The theory shows that the server with atomic callbacks
  is a special case, and what the counters are still worth.
\<close>

section \<open>The parts of a callback\<close>

definition prepare ::
  "'w server_env \<Rightarrow> 'w socket_api \<Rightarrow> Session \<Rightarrow> request_map \<Rightarrow> 'w \<Rightarrow>
   ((Request \<times> string \<times> Reply \<times> int) outcome \<times> Session \<times> 'w) option" where
  "prepare e sock s m w =
     (case ParseRequest (env_boost e) (get_message_request s) of
        Inl f \<Rightarrow> Some (Inl f, s, w)
      | Inr request \<Rightarrow>
          (case so_remote_address sock w of
             None \<Rightarrow> Some (Inl System_error, s, w)
           | Some remote \<Rightarrow>
               (case choose_reply e m s request w of
                  None \<Rightarrow> None
                | Some (Inl f, s, w) \<Rightarrow> Some (Inl f, s, w)
                | Some (Inr r, s, w) \<Rightarrow>
                    Some (obind (reply_status r) (\<lambda>z. Inr (request, remote, r, z)), s, w))))"

definition conclude ::
  "'w socket_api \<Rightarrow> string \<Rightarrow> Request \<Rightarrow> Reply \<Rightarrow> int \<Rightarrow> string list \<Rightarrow> 'w \<Rightarrow> int outcome \<times> string list \<times> 'w" where
  "conclude sock remote request r z log w =
     (case reply_ToString r of
        Inl f \<Rightarrow> (Inl f, log, w)
      | Inr str \<Rightarrow>
          (case write_string sock str w of
             (Inl f, w) \<Rightarrow> (Inl f, log, w)
           | (Inr _, w) \<Rightarrow>
               (case strip_line_ends (m_original_request request) of
                  Inl f \<Rightarrow> (Inl f, log, w)
                | Inr line \<Rightarrow> (Inr 0, log @ [access_line remote line z], w))))"

text \<open>Done one after the other, the parts are the callback.\<close>

lemma handle_request_parts:
  "handle_request e sock s d w =
     (case prepare e sock s (counters d) w of
        None \<Rightarrow> None
      | Some (Inl f, s, w) \<Rightarrow> Some (Inl f, s, d, w)
      | Some (Inr (request, remote, r, z), s, w) \<Rightarrow>
          (case record_request (m_uri request) z (counters d) of
             Inl f \<Rightarrow> Some (Inl f, s, d, w)
           | Inr m \<Rightarrow>
               (case conclude sock remote request r z (access_log d) w of
                  (out, log, w) \<Rightarrow> Some (out, s, d\<lparr>counters := m, access_log := log\<rparr>, w))))"
  by (auto simp: handle_request_def prepare_def conclude_def send_reply_def Let_def obind_def
      split: sum.splits option.splits prod.splits)

section \<open>Callbacks that overlap\<close>

record running_call =
  cb_session :: nat
  cb_request :: Request
  cb_remote :: string
  cb_reply :: Reply
  cb_thread :: count_thread
  cb_returned :: bool

definition cb_done :: "running_call \<Rightarrow> bool" where
  "cb_done cb \<longleftrightarrow> th_pc (cb_thread cb) = Counted"

text \<open>All callbacks that ever got as far as the counters; those that have not returned hold a thread.\<close>

definition busy :: "running_call list \<Rightarrow> nat" where
  "busy cbs = length (filter (\<lambda>cb. \<not> cb_returned cb) cbs)"

definition start_callback ::
  "'w server_env \<Rightarrow> (nat \<Rightarrow> 'w socket_api) \<Rightarrow> nat \<Rightarrow> server \<Rightarrow> 'w \<Rightarrow>
   ((Request \<times> string \<times> Reply \<times> int) outcome \<times> Session \<times> 'w) option option" where
  "start_callback e sock i sv w =
     map_option (\<lambda>s.
       let ((error, received), w) = so_read_until (sock i) crlf2 w
       in prepare e (sock i) (s\<lparr>ss_buffer := ss_buffer s @ received\<rparr>) (counters (sv_data sv)) w)
       (map_of (sv_sessions sv) i)"

definition new_callback :: "nat \<Rightarrow> Request \<times> string \<times> Reply \<times> int \<Rightarrow> running_call" where
  "new_callback i p =
     (case p of (request, remote, r, z) \<Rightarrow>
        \<lparr>cb_session = i, cb_request = request, cb_remote = remote, cb_reply = r,
         cb_thread = \<lparr>th_uri = m_uri request, th_code = z, th_pc = Find_url\<rparr>, cb_returned = False\<rparr>)"

definition access_counters :: "running_call \<Rightarrow> server \<Rightarrow> (count_pc \<times> request_map) outcome" where
  "access_counters cb sv =
     count_step (th_uri (cb_thread cb)) (th_code (cb_thread cb)) (th_pc (cb_thread cb)) (counters (sv_data sv))"

definition finish_callback ::
  "(nat \<Rightarrow> 'w socket_api) \<Rightarrow> running_call \<Rightarrow> server \<Rightarrow> 'w \<Rightarrow> int outcome \<times> string list \<times> 'w" where
  "finish_callback sock cb sv w =
     conclude (sock (cb_session cb)) (cb_remote cb) (cb_request cb) (cb_reply cb) (th_code (cb_thread cb))
       (access_log (sv_data sv)) w"

definition set_counters :: "request_map \<Rightarrow> server \<Rightarrow> server" where
  "set_counters m sv = sv\<lparr>sv_data := (sv_data sv)\<lparr>counters := m\<rparr>\<rparr>"

definition set_log :: "string list \<Rightarrow> server \<Rightarrow> server" where
  "set_log log sv = sv\<lparr>sv_data := (sv_data sv)\<lparr>access_log := log\<rparr>\<rparr>"

definition at_pc :: "count_pc \<Rightarrow> running_call \<Rightarrow> running_call" where
  "at_pc pc cb = cb\<lparr>cb_thread := (cb_thread cb)\<lparr>th_pc := pc\<rparr>\<rparr>"

text \<open>
  A step of a callback is the computation of its reply, one access to the counters, or the
  writing and logging. With more than one thread these may be at the same time in the program,
  which for the counters is a data race (\<open>data_race\<close> in \<open>Single_Thread\<close>); with one thread they may not.
\<close>

type_synonym 'w pool = "server \<times> running_call list \<times> 'w"

inductive conc_step ::
  "'w server_env \<Rightarrow> (nat \<Rightarrow> 'w socket_api) \<Rightarrow> 'w pool \<Rightarrow> 'w pool \<Rightarrow> bool"
  for e sock where
  accepted: "sv_fault sv = None \<Longrightarrow> busy cbs < sv_workers sv \<Longrightarrow> i \<in> set (sv_accepting sv) \<Longrightarrow>
    conc_step e sock (sv, cbs, w)
      (handle_accept i error (sv\<lparr>sv_accepting := remove1 i (sv_accepting sv)\<rparr>), cbs, w)"
| begun: "sv_fault sv = None \<Longrightarrow> busy cbs < sv_workers sv \<Longrightarrow> i \<in> set (sv_reading sv) \<Longrightarrow>
    start_callback e sock i sv w = Some (Some (Inr p, s, w')) \<Longrightarrow>
    conc_step e sock (sv, cbs, w) (store_session i s (sv_data sv) sv, cbs @ [new_callback i p], w')"
| begun_failed: "sv_fault sv = None \<Longrightarrow> busy cbs < sv_workers sv \<Longrightarrow> i \<in> set (sv_reading sv) \<Longrightarrow>
    start_callback e sock i sv w = Some (Some (Inl f, s, w')) \<Longrightarrow>
    conc_step e sock (sv, cbs, w) ((store_session i s (sv_data sv) sv)\<lparr>sv_fault := Some f\<rparr>, cbs, w')"
| stuck: "sv_fault sv = None \<Longrightarrow> busy cbs < sv_workers sv \<Longrightarrow> i \<in> set (sv_reading sv) \<Longrightarrow>
    start_callback e sock i sv w = Some None \<Longrightarrow>
    conc_step e sock (sv, cbs, w)
      (sv\<lparr>sv_reading := removeAll i (sv_reading sv), sv_workers := sv_workers sv - 1\<rparr>, cbs, w)"
| counting: "sv_fault sv = None \<Longrightarrow> k < length cbs \<Longrightarrow> \<not> cb_done (cbs ! k) \<Longrightarrow>
    access_counters (cbs ! k) sv = Inr (pc, m) \<Longrightarrow>
    conc_step e sock (sv, cbs, w) (set_counters m sv, cbs[k := at_pc pc (cbs ! k)], w)"
| counting_failed: "sv_fault sv = None \<Longrightarrow> k < length cbs \<Longrightarrow> \<not> cb_done (cbs ! k) \<Longrightarrow>
    access_counters (cbs ! k) sv = Inl f \<Longrightarrow>
    conc_step e sock (sv, cbs, w) (sv\<lparr>sv_fault := Some f\<rparr>, cbs, w)"
| finished: "sv_fault sv = None \<Longrightarrow> k < length cbs \<Longrightarrow> cb_done (cbs ! k) \<Longrightarrow> \<not> cb_returned (cbs ! k) \<Longrightarrow>
    finish_callback sock (cbs ! k) sv w = (Inr z, log, w') \<Longrightarrow>
    conc_step e sock (sv, cbs, w) (set_log log sv, cbs[k := (cbs ! k)\<lparr>cb_returned := True\<rparr>], w')"
| finished_failed: "sv_fault sv = None \<Longrightarrow> k < length cbs \<Longrightarrow> cb_done (cbs ! k) \<Longrightarrow> \<not> cb_returned (cbs ! k) \<Longrightarrow>
    finish_callback sock (cbs ! k) sv w = (Inl f, log, w') \<Longrightarrow>
    conc_step e sock (sv, cbs, w) ((set_log log sv)\<lparr>sv_fault := Some f\<rparr>, cbs, w')"

definition conc_reaches ::
  "'w server_env \<Rightarrow> (nat \<Rightarrow> 'w socket_api) \<Rightarrow> 'w pool \<Rightarrow> 'w pool \<Rightarrow> bool" where
  "conc_reaches e sock = (conc_step e sock)\<^sup>*\<^sup>*"


section \<open>What holds in every reachable state\<close>

definition done_for :: "string \<Rightarrow> int \<Rightarrow> running_call list \<Rightarrow> nat" where
  "done_for u c cbs = counted_for u c (map cb_thread cbs)"

definition done_callbacks :: "running_call list \<Rightarrow> nat" where
  "done_callbacks cbs = length (filter cb_done cbs)"

definition returned :: "running_call list \<Rightarrow> nat" where
  "returned cbs = length (filter cb_returned cbs)"

text \<open>A callback about to add to a counter has found it, and no counter is ever removed.\<close>

definition reading_present :: "request_map \<Rightarrow> running_call \<Rightarrow> bool" where
  "reading_present m cb \<longleftrightarrow>
     (th_pc (cb_thread cb) = Read_count \<longrightarrow> has_count (th_uri (cb_thread cb)) (th_code (cb_thread cb)) m)"

definition conc_inv :: "nat \<Rightarrow> 'w pool \<Rightarrow> bool" where
  "conc_inv n p = (case p of (sv, cbs, w) \<Rightarrow>
     (\<forall>u c. race_inv u c [] (counters (sv_data sv), map cb_thread cbs)) \<and>
     counters_ok (counters (sv_data sv)) \<and>
     (\<forall>cb \<in> set cbs. reading_present (counters (sv_data sv)) cb) \<and>
     (\<forall>cb \<in> set cbs. cb_returned cb \<longrightarrow> cb_done cb) \<and>
     length (access_log (sv_data sv)) = returned cbs \<and>
     busy cbs \<le> sv_workers sv \<and> sv_workers sv \<le> workers n)"

lemma race_inv_append:
  "race_inv u c m0 (m, ths) \<Longrightarrow> th_pc th = Find_url \<Longrightarrow> race_inv u c m0 (m, ths @ [th])"
  by (auto simp: race_inv_def counted_for_def Let_def)

lemma new_callback_fields [simp]:
  "cb_session (new_callback i p) = i" "cb_returned (new_callback i p) = False"
  "th_pc (cb_thread (new_callback i p)) = Find_url"
  by (simp_all add: new_callback_def split: prod.split)

lemma at_pc_fields [simp]:
  "cb_thread (at_pc pc cb) = (cb_thread cb)\<lparr>th_pc := pc\<rparr>" "cb_returned (at_pc pc cb) = cb_returned cb"
  "cb_session (at_pc pc cb) = cb_session cb" "cb_done (at_pc pc cb) \<longleftrightarrow> pc = Counted"
  by (simp_all add: at_pc_def cb_done_def)

lemma server_fields [simp]:
  "sv_data (set_counters m sv) = (sv_data sv)\<lparr>counters := m\<rparr>" "sv_workers (set_counters m sv) = sv_workers sv"
  "sv_fault (set_counters m sv) = sv_fault sv" "sv_reading (set_counters m sv) = sv_reading sv"
  "sv_data (set_log log sv) = (sv_data sv)\<lparr>access_log := log\<rparr>" "sv_workers (set_log log sv) = sv_workers sv"
  "sv_fault (set_log log sv) = sv_fault sv" "sv_reading (set_log log sv) = sv_reading sv"
  "sv_data (store_session i s d sv) = d" "sv_workers (store_session i s d sv) = sv_workers sv"
  "sv_fault (store_session i s d sv) = sv_fault sv"
  by (simp_all add: set_counters_def set_log_def store_session_def)

lemma handle_accept_fields [simp]:
  "sv_data (handle_accept i error sv) = sv_data sv" "sv_workers (handle_accept i error sv) = sv_workers sv"
  "sv_fault (handle_accept i error sv) = sv_fault sv"
  by (cases "error = Success"; simp add: handle_accept_Success handle_accept_error delete_session_def)+

lemma busy_append [simp]: "busy (cbs @ [cb]) = busy cbs + (if cb_returned cb then 0 else 1)"
  by (simp add: busy_def)

lemma returned_append [simp]: "returned (cbs @ [cb]) = returned cbs + (if cb_returned cb then 1 else 0)"
  by (simp add: returned_def)

lemma busy_returned: "busy cbs + returned cbs = length cbs"
  by (simp add: busy_def returned_def sum_length_filter_compl add.commute)

lemma returned_update:
  assumes "k < length cbs"
  shows "returned (cbs[k := cb]) + (if cb_returned (cbs ! k) then 1 else 0) =
    returned cbs + (if cb_returned cb then 1 else 0)"
  unfolding returned_def by (rule length_filter_update [OF assms])

lemma busy_update:
  assumes "k < length cbs"
  shows "busy (cbs[k := cb]) + (if cb_returned (cbs ! k) then 0 else 1) =
    busy cbs + (if cb_returned cb then 0 else 1)"
  using returned_update [OF assms, of cb] busy_returned [of cbs] busy_returned [of "cbs[k := cb]"]
  by (auto split: if_splits)

lemma conclude_log:
  assumes "conclude sock remote request r z log w = (out, log', w')"
  shows "case out of Inl f \<Rightarrow> log' = log | Inr y \<Rightarrow> y = 0 \<and> (\<exists>line. log' = log @ [line])"
  using assms by (auto simp: conclude_def split: sum.splits prod.splits)

lemma access_present:
  assumes "counters_ok (counters (sv_data sv))" and "race_inv u c [] (counters (sv_data sv), map cb_thread cbs)"
    and "u = th_uri (cb_thread (cbs ! k))" "c = th_code (cb_thread (cbs ! k))"
    and k: "k < length cbs" and present: "\<forall>cb \<in> set cbs. reading_present (counters (sv_data sv)) cb"
    and st: "access_counters (cbs ! k) sv = Inr (pc, m)"
  shows "counters_ok m" and "\<forall>cb \<in> set (cbs[k := at_pc pc (cbs ! k)]). reading_present m cb"
proof -
  have stored: "0 < n" if "th_pc (cb_thread (cbs ! k)) = Write_count n" for n
  proof -
    have "request_count [] u c < n"
      by (rule race_inv_pending [OF assms(2) _ _ that]) (use assms(3-5) in \<open>simp_all add: counts_for_def\<close>)
    then show ?thesis by (simp add: request_count_def)
  qed
  have read: "th_pc (cb_thread (cbs ! k)) = Read_count \<Longrightarrow>
      has_count (th_uri (cb_thread (cbs ! k))) (th_code (cb_thread (cbs ! k))) (counters (sv_data sv))"
    using present k by (auto simp: reading_present_def)
  note ok = count_step_ok [OF assms(1) st [unfolded access_counters_def] read stored]
  show "counters_ok m" using ok(1) by simp
  have "has_count u c (counters (sv_data sv)) \<Longrightarrow> has_count u c m" for u c
    using count_step_effect [OF st [unfolded access_counters_def]] by (simp add: step_effect_def)
  then have "reading_present (counters (sv_data sv)) cb \<Longrightarrow> reading_present m cb" for cb
    by (simp add: reading_present_def)
  moreover have "reading_present m (at_pc pc (cbs ! k))" using ok(2) by (simp add: reading_present_def)
  ultimately show "\<forall>cb \<in> set (cbs[k := at_pc pc (cbs ! k)]). reading_present m cb"
    using present set_update_subset_insert [of cbs k "at_pc pc (cbs ! k)"] by blast
qed

lemma conc_inv_step:
  assumes "conc_step e sock (sv, cbs, w) (sv', cbs', w')" and inv: "conc_inv n (sv, cbs, w)"
  shows "conc_inv n (sv', cbs', w')"
proof -
  have race: "\<And>u c. race_inv u c [] (counters (sv_data sv), map cb_thread cbs)"
    and ok: "counters_ok (counters (sv_data sv))"
    and present: "\<forall>cb \<in> set cbs. reading_present (counters (sv_data sv)) cb"
    and fin: "\<And>cb. cb \<in> set cbs \<Longrightarrow> cb_returned cb \<Longrightarrow> cb_done cb"
    and rest: "length (access_log (sv_data sv)) = returned cbs" "busy cbs \<le> sv_workers sv" "sv_workers sv \<le> workers n"
    using inv by (simp_all add: conc_inv_def)
  from assms(1) show ?thesis
  proof (cases rule: conc_step.cases)
    case (begun i p s)
    with race ok present fin rest show ?thesis
      by (auto simp: conc_inv_def race_inv_append reading_present_def)
  next
    case (counting k pc m)
    have "race_step k (counters (sv_data sv), map cb_thread cbs) = Inr (m, map cb_thread cbs')"
      using counting by (simp add: race_step_def access_counters_def map_update)
    then have "race_inv u c [] (m, map cb_thread cbs')" for u c
      using race_inv_step [OF race] by blast
    moreover have "cb_returned cb \<longrightarrow> cb_done cb" if "cb \<in> set cbs'" for cb
    proof -
      have "\<not> cb_returned (cbs ! k)" using counting fin by force
      with that set_update_subset_insert [of cbs k "at_pc pc (cbs ! k)"] fin counting show ?thesis by auto
    qed
    ultimately show ?thesis
      using counting rest access_present [OF ok race refl refl _ present] returned_update [of k cbs "at_pc pc (cbs ! k)"] busy_update [of k cbs "at_pc pc (cbs ! k)"]
      by (simp add: conc_inv_def)
  next
    case (finished k z log)
    let ?cb = "(cbs ! k)\<lparr>cb_returned := True\<rparr>"
    have same: "map cb_thread cbs' = map cb_thread cbs"
      using finished by (simp add: map_update list_update_same_conv)
    have "\<exists>line. log = access_log (sv_data sv) @ [line]"
      using conclude_log finished by (fastforce simp: finish_callback_def)
    moreover have "(cb_returned cb \<longrightarrow> cb_done cb) \<and> reading_present (counters (sv_data sv)) cb" if "cb \<in> set cbs'" for cb
      using that set_update_subset_insert [of cbs k ?cb] fin present finished by (auto simp: cb_done_def reading_present_def)
    ultimately show ?thesis
      using finished rest race ok same returned_update [of k cbs ?cb] busy_update [of k cbs ?cb]
      by (auto simp: conc_inv_def)
  next
    case (finished_failed k f log)
    then have "log = access_log (sv_data sv)" using conclude_log by (fastforce simp: finish_callback_def)
    with finished_failed race ok present fin rest show ?thesis by (simp add: conc_inv_def)
  qed (use race ok present fin rest in \<open>auto simp: conc_inv_def\<close>)
qed

lemma conc_inv_reaches:
  assumes "conc_reaches e sock (Server_create config n, [], w0) p"
  shows "conc_inv n p"
  using assms unfolding conc_reaches_def
proof (induction rule: rtranclp_induct)
  case base
  have "race_inv u c [] ([], [])" for u c by (rule race_inv_start) simp
  then show ?case
    by (simp add: conc_inv_def Server_create_def busy_def returned_def counters_ok_def)
next
  case (step p q)
  then show ?case by (cases p; cases q) (auto intro: conc_inv_step)
qed


lemma conc_inv_counts:
  assumes "conc_inv n (sv, cbs, w)"
  shows "0 \<le> request_count (counters (sv_data sv)) u c"
    and "request_count (counters (sv_data sv)) u c \<le> int (done_for u c cbs)"
    and "0 < done_for u c cbs \<Longrightarrow> 0 < request_count (counters (sv_data sv)) u c"
proof -
  have "race_inv u c [] (counters (sv_data sv), map cb_thread cbs)" using assms by (simp add: conc_inv_def)
  moreover have "request_count [] u c = 0" by (simp add: request_count_def map_at_def)
  ultimately show "0 \<le> request_count (counters (sv_data sv)) u c"
    and "request_count (counters (sv_data sv)) u c \<le> int (done_for u c cbs)"
    and "0 < done_for u c cbs \<Longrightarrow> 0 < request_count (counters (sv_data sv)) u c"
    by (auto simp: race_inv_def Let_def done_for_def)
qed

lemma conc_inv_total:
  assumes "conc_inv n (sv, cbs, w)"
  shows "total_requests (counters (sv_data sv)) \<le> int (done_callbacks cbs)"
proof -
  have "counters_ok (counters (sv_data sv))" using assms by (simp add: conc_inv_def)
  from total_le_counted [OF this conc_inv_counts(2) [OF assms, unfolded done_for_def]] show ?thesis
    by (simp add: done_callbacks_def filter_map o_def cb_done_def [abs_def])
qed

section \<open>Atomic callbacks are a special case\<close>

text \<open>The accesses of a callback that is not interrupted, as a path of its program counter.\<close>

definition count_trans :: "string \<Rightarrow> int \<Rightarrow> count_pc \<times> request_map \<Rightarrow> count_pc \<times> request_map \<Rightarrow> bool" where
  "count_trans uri code c c' \<longleftrightarrow> fst c \<noteq> Counted \<and> count_step uri code (fst c) (snd c) = Inr c'"

lemma count_transI:
  "pc \<noteq> Counted \<Longrightarrow> count_step uri code pc m = Inr c' \<Longrightarrow> count_trans uri code (pc, m) c'"
  by (simp add: count_trans_def)

text \<open>The accesses before the addition leave the map alone when both keys are in it.\<close>

lemma count_present:
  assumes "map_find m uri = Some counts" and "map_find counts code = Some n"
  shows "(count_trans uri code)\<^sup>*\<^sup>* (Find_url, m) (Read_count, m)"
proof -
  have "count_trans uri code (Find_url, m) (Find_code, m)" and "count_trans uri code (Find_code, m) (Read_count, m)"
    using assms by (auto intro!: count_transI simp: count_step.simps map_at_def map_touch_def)
  then show ?thesis by (meson rtranclp.rtrancl_refl rtranclp.rtrancl_into_rtrancl)
qed

lemma count_path:
  assumes "record_request uri code m = Inr m'"
  shows "(count_trans uri code)\<^sup>*\<^sup>* (Find_url, m) (Counted, m')"
proof -
  have stored: "count_trans uri code (Write_count n, m) (Counted, store_count uri code n m)" for n
    by (rule count_transI) simp_all
  have "(count_trans uri code)\<^sup>*\<^sup>* (Find_url, m) (Write_count n, m)"
    if n: "map_find (map_at [] m uri) code = None \<and> n = 1 \<or>
      (\<exists>v. map_find (map_at [] m uri) code = Some v \<and> int_add v 1 = Inr n)" for n
  proof (cases "map_find m uri")
    case None
    with n have "count_trans uri code (Find_url, m) (Write_count n, m)"
      by (auto intro!: count_transI simp: count_step.simps map_at_def)
    then show ?thesis by blast
  next
    case url: (Some counts)
    show ?thesis
    proof (cases "map_find counts code")
      case None
      with url n have "count_trans uri code (Find_url, m) (Find_code, m)"
        and "count_trans uri code (Find_code, m) (Write_count n, m)"
        by (auto intro!: count_transI simp: count_step.simps map_at_def map_touch_def)
      then show ?thesis by (meson rtranclp.rtrancl_refl rtranclp.rtrancl_into_rtrancl)
    next
      case (Some v)
      with url n have "count_trans uri code (Read_count, m) (Write_count n, m)"
        by (auto intro!: count_transI simp: count_step.simps map_at_def)
      with count_present [OF url Some] show ?thesis by (rule rtranclp.rtrancl_into_rtrancl)
    qed
  qed
  with assms stored show ?thesis
    by (auto simp: record_request_store obind_Inr_iff split: option.splits
        intro: rtranclp.rtrancl_into_rtrancl)
qed

lemma count_path_fails:
  assumes "record_request uri code m = Inl f"
  shows "(count_trans uri code)\<^sup>*\<^sup>* (Find_url, m) (Read_count, m) \<and> count_step uri code Read_count m = Inl f"
proof -
  obtain v where v: "map_find (map_at [] m uri) code = Some v" and f: "int_add v 1 = Inl f"
    using assms by (auto simp: record_request_store obind_Inl_iff split: option.splits)
  then obtain counts where "map_find m uri = Some counts" "map_find counts code = Some v"
    by (cases "map_find m uri") (auto simp: map_at_def)
  with count_present [of m uri counts code v] f show ?thesis
    by (simp add: count_step.simps map_at_def)
qed

lemma conc_counts:
  assumes "(count_trans uri code)\<^sup>*\<^sup>* c c'" and "k < length cbs" and "sv_fault sv = None"
    and "th_uri (cb_thread cb) = uri" and "th_code (cb_thread cb) = code"
  shows "conc_reaches e sock (set_counters (snd c) sv, cbs[k := at_pc (fst c) cb], w)
    (set_counters (snd c') sv, cbs[k := at_pc (fst c') cb], w)"
  using assms(1) unfolding conc_reaches_def
proof (induction rule: rtranclp_induct)
  case (step c1 c2)
  have "conc_step e sock (set_counters (snd c1) sv, cbs[k := at_pc (fst c1) cb], w)
      (set_counters (snd c2) (set_counters (snd c1) sv),
       (cbs[k := at_pc (fst c1) cb])[k := at_pc (fst c2) ((cbs[k := at_pc (fst c1) cb]) ! k)], w)"
    using step.hyps(2) assms(2-5)
    by (intro conc_step.counting) (auto simp: count_trans_def access_counters_def)
  then have "conc_step e sock (set_counters (snd c1) sv, cbs[k := at_pc (fst c1) cb], w)
      (set_counters (snd c2) sv, cbs[k := at_pc (fst c2) cb], w)"
    using assms(2) by (simp add: set_counters_def at_pc_def)
  with step.IH show ?case by (rule rtranclp.rtrancl_into_rtrancl)
qed simp

lemma new_callback_thread [simp]:
  "at_pc Find_url (new_callback i p) = new_callback i p"
  "th_uri (cb_thread (new_callback i (request, remote, r, z))) = m_uri request"
  "th_code (cb_thread (new_callback i (request, remote, r, z))) = z"
  by (simp_all add: at_pc_def new_callback_def split: prod.split)

lemma set_counters_same [simp]: "set_counters (counters (sv_data sv)) sv = sv"
  by (simp add: set_counters_def)

text \<open>From the start of a callback to the end of its counting.\<close>

lemma conc_counted:
  assumes "record_request (m_uri request) z (counters (sv_data sv)) = Inr m" and "sv_fault sv = None"
  shows "conc_reaches e sock (sv, cbs @ [new_callback i (request, remote, r, z)], w)
    (set_counters m sv, cbs @ [at_pc Counted (new_callback i (request, remote, r, z))], w)"
  using conc_counts [OF count_path [OF assms(1)], of "length cbs" "cbs @ [new_callback i (request, remote, r, z)]" sv
      "new_callback i (request, remote, r, z)" e sock w] assms(2)
  by simp

lemma conc_count_fails:
  assumes "record_request (m_uri request) z (counters (sv_data sv)) = Inl f" and "sv_fault sv = None"
  shows "conc_reaches e sock (sv, cbs @ [new_callback i (request, remote, r, z)], w)
    (sv\<lparr>sv_fault := Some f\<rparr>, cbs @ [at_pc Read_count (new_callback i (request, remote, r, z))], w)"
proof -
  let ?cb = "new_callback i (request, remote, r, z)"
  note path = count_path_fails [OF assms(1)]
  have "conc_reaches e sock (sv, cbs @ [?cb], w) (sv, cbs @ [at_pc Read_count ?cb], w)"
    using conc_counts [OF conjunct1 [OF path], of "length cbs" "cbs @ [?cb]" sv ?cb e sock w] assms(2) by simp
  moreover have "conc_step e sock (sv, cbs @ [at_pc Read_count ?cb], w)
      (sv\<lparr>sv_fault := Some f\<rparr>, cbs @ [at_pc Read_count ?cb], w)"
    using path assms(2)
    by (intro conc_step.counting_failed [where k = "length cbs"])
      (simp_all add: access_counters_def)
  ultimately show ?thesis unfolding conc_reaches_def by (rule rtranclp.rtrancl_into_rtrancl)
qed

lemma conc_finishes:
  assumes "conclude (sock i) remote request r z (access_log (sv_data sv)) w = (out, log, w')" and "sv_fault sv = None"
  shows "conc_step e sock (sv, cbs @ [at_pc Counted (new_callback i (request, remote, r, z))], w)
    (case out of
       Inr y \<Rightarrow> (set_log log sv, cbs @ [(at_pc Counted (new_callback i (request, remote, r, z)))\<lparr>cb_returned := True\<rparr>], w')
     | Inl f \<Rightarrow> ((set_log log sv)\<lparr>sv_fault := Some f\<rparr>, cbs @ [at_pc Counted (new_callback i (request, remote, r, z))], w'))"
proof -
  let ?cbs = "cbs @ [at_pc Counted (new_callback i (request, remote, r, z))]"
  have fin: "finish_callback sock (?cbs ! length cbs) sv w = (out, log, w')"
    using assms(1) by (simp add: finish_callback_def at_pc_def new_callback_def)
  show ?thesis
  proof (cases out)
    case (Inl f)
    with conc_step.finished_failed [of sv "length cbs" ?cbs sock w f log w' e] fin assms(2) show ?thesis by simp
  next
    case (Inr y)
    with conc_step.finished [of sv "length cbs" ?cbs sock w y log w' e] fin assms(2) show ?thesis by simp
  qed
qed

text \<open>
  A callback that is served by itself, whatever its outcome, is such a sequence of parts; it
  leaves the server as the atomic callback does.
\<close>

lemma serve_parts:
  "serve e sock i sv w =
     (case start_callback e sock i sv w of
        None \<Rightarrow> None
      | Some None \<Rightarrow> Some None
      | Some (Some (Inl f, s, w)) \<Rightarrow> Some (Some (Inl f, s, sv_data sv, w))
      | Some (Some (Inr (request, remote, r, z), s, w)) \<Rightarrow>
          (case record_request (m_uri request) z (counters (sv_data sv)) of
             Inl f \<Rightarrow> Some (Some (Inl f, s, sv_data sv, w))
           | Inr m \<Rightarrow>
               (case conclude (sock i) remote request r z (access_log (sv_data sv)) w of
                  (out, log, w) \<Rightarrow> Some (Some (out, s, (sv_data sv)\<lparr>counters := m, access_log := log\<rparr>, w)))))"
  by (auto simp: serve_def start_callback_def Session_start_def handle_request_parts Let_def
      split: option.splits sum.splits prod.splits)

definition result_server :: "nat \<Rightarrow> int outcome \<Rightarrow> Session \<Rightarrow> server_data \<Rightarrow> server \<Rightarrow> server" where
  "result_server i out s d sv =
     (case out of Inr z \<Rightarrow> store_session i s d sv | Inl f \<Rightarrow> (store_session i s d sv)\<lparr>sv_fault := Some f\<rparr>)"

lemma conc_serves:
  assumes run: "serve e sock i sv w = Some (Some (out, s, d, w'))" and i: "i \<in> set (sv_reading sv)"
    and ok: "sv_fault sv = None" "busy cbs = 0" "0 < sv_workers sv"
  shows "\<exists>cbs'. conc_reaches e sock (sv, cbs, w) (result_server i out s d sv, cbs', w') \<and>
    (sv_fault (result_server i out s d sv) = None \<longrightarrow> busy cbs' = 0)"
proof -
  have free: "busy cbs < sv_workers sv" using ok by simp
  from run obtain p s2 w2 where start: "start_callback e sock i sv w = Some (Some (p, s2, w2))"
    by (auto simp: serve_parts split: option.splits)
  let ?sv = "store_session i s2 (sv_data sv) sv"
  show ?thesis
  proof (cases p)
    case (Inl f)
    with run start have "out = Inl f" "s = s2" "d = sv_data sv" "w' = w2" by (auto simp: serve_parts)
    with conc_step.begun_failed [OF ok(1) free i start [unfolded Inl]] show ?thesis
      unfolding conc_reaches_def by (auto simp: result_server_def)
  next
    case (Inr q)
    obtain request remote r z where q: "q = (request, remote, r, z)" by (cases q)
    let ?cb = "new_callback i (request, remote, r, z)"
    have begun: "conc_reaches e sock (sv, cbs, w) (?sv, cbs @ [?cb], w2)"
      using conc_step.begun [OF ok(1) free i start [unfolded Inr q]] unfolding conc_reaches_def by (rule r_into_rtranclp)
    show ?thesis
    proof (cases "record_request (m_uri request) z (counters (sv_data sv))")
      case (Inl f)
      with run start \<open>p = Inr q\<close> q have "out = Inl f" "s = s2" "d = sv_data sv" "w' = w2" by (auto simp: serve_parts)
      moreover have "conc_reaches e sock (?sv, cbs @ [?cb], w2)
          (?sv\<lparr>sv_fault := Some f\<rparr>, cbs @ [at_pc Read_count ?cb], w2)"
        using conc_count_fails [of request z ?sv f] Inl ok(1) by simp
      ultimately show ?thesis
        using begun unfolding conc_reaches_def by (auto simp: result_server_def intro: rtranclp_trans)
    next
      case (Inr m)
      obtain o' log w3 where c: "conclude (sock i) remote request r z (access_log (sv_data sv)) w2 = (o', log, w3)"
        by (metis surj_pair)
      with run start \<open>p = Inr q\<close> q Inr have res: "out = o'" "s = s2" "w' = w3"
        "d = (sv_data sv)\<lparr>counters := m, access_log := log\<rparr>" by (auto simp: serve_parts)
      have counted: "conc_reaches e sock (?sv, cbs @ [?cb], w2) (set_counters m ?sv, cbs @ [at_pc Counted ?cb], w2)"
        using conc_counted [of request z ?sv m] Inr ok(1) by simp
      have "store_session i s d sv = set_log log (set_counters m ?sv)"
        by (simp add: res store_session_def set_log_def set_counters_def)
      with conc_finishes [of sock i remote request r z "set_counters m ?sv" w2 o' log w3 e cbs] c ok(1)
      have "\<exists>cbs'. conc_step e sock (set_counters m ?sv, cbs @ [at_pc Counted ?cb], w2)
          (result_server i out s d sv, cbs', w') \<and> (sv_fault (result_server i out s d sv) = None \<longrightarrow> busy cbs' = 0)"
        by (cases out) (auto simp: result_server_def res(1,3) ok(2) intro!: exI)
      with begun counted show ?thesis
        unfolding conc_reaches_def by (meson rtranclp.rtrancl_into_rtrancl rtranclp_trans)
    qed
  qed
qed

lemma conc_simulates:
  assumes st: "server_step e sock (sv, w) ev (sv', w')" and idle: "busy cbs = 0"
  shows "\<exists>cbs'. conc_reaches e sock (sv, cbs, w) (sv', cbs', w') \<and> (sv_fault sv' = None \<longrightarrow> busy cbs' = 0)"
  using st
proof (cases rule: server_step.cases)
  case (accepted i)
  with conc_step.accepted [of sv cbs i e sock w Success] idle show ?thesis
    unfolding conc_reaches_def by (intro exI [of _ cbs]) auto
next
  case (accept_failed i error)
  with conc_step.accepted [of sv cbs i e sock w error] idle show ?thesis
    unfolding conc_reaches_def by (intro exI [of _ cbs]) auto
next
  case (served i z s d)
  with conc_serves [of e sock i sv w "Inr z" s d w' cbs] idle show ?thesis by (simp add: result_server_def)
next
  case (failed i f s d)
  with conc_serves [of e sock i sv w "Inl f" s d w' cbs] idle show ?thesis by (simp add: result_server_def)
next
  case (stuck i)
  then have "start_callback e sock i sv w = Some None"
    by (auto simp: serve_parts split: option.splits sum.splits prod.splits)
  with stuck conc_step.stuck [of sv cbs i e sock w] idle show ?thesis
    unfolding conc_reaches_def by (intro exI [of _ cbs]) auto
qed

lemma conc_reaches_atomic:
  assumes "reaches e sock c0 es c"
  shows "\<exists>cbs. conc_reaches e sock (fst c0, [], snd c0) (fst c, cbs, snd c) \<and> (sv_fault (fst c) = None \<longrightarrow> busy cbs = 0)"
  using assms
proof (induction rule: reaches.induct)
  case start
  show ?case unfolding conc_reaches_def by (rule exI [of _ "[]"]) (simp add: busy_def)
next
  case (step es c ev c')
  obtain sv w sv' w' where c: "c = (sv, w)" "c' = (sv', w')" by fastforce
  note st = step.hyps(2) [unfolded c]
  have "sv_fault sv = None" using step_enabled [OF st] by blast
  with step.IH [unfolded c fst_conv snd_conv] obtain cbs where
    before: "conc_reaches e sock (fst c0, [], snd c0) (sv, cbs, w)" and idle: "busy cbs = 0"
    by blast
  from conc_simulates [OF st idle] obtain cbs' where after: "conc_reaches e sock (sv, cbs, w) (sv', cbs', w')"
    and idle': "sv_fault sv' = None \<longrightarrow> busy cbs' = 0" by (elim exE conjE)
  have "conc_reaches e sock (fst c0, [], snd c0) (sv', cbs', w')"
    using before after unfolding conc_reaches_def by (rule rtranclp_trans)
  with idle' show ?case unfolding c fst_conv snd_conv by (intro exI conjI)
qed

section \<open>Running a schedule\<close>

text \<open>The steps of runs in which nothing fails, chosen by a list of actions.\<close>

datatype conc_action = Accept nat | Begin nat | Count nat | Return nat

fun conc_act ::
  "'w server_env \<Rightarrow> (nat \<Rightarrow> 'w socket_api) \<Rightarrow> conc_action \<Rightarrow> 'w pool \<Rightarrow> 'w pool option" where
  "conc_act e sock (Accept i) (sv, cbs, w) =
     (if sv_fault sv = None \<and> busy cbs < sv_workers sv \<and> i \<in> set (sv_accepting sv)
      then Some (handle_accept i Success (sv\<lparr>sv_accepting := remove1 i (sv_accepting sv)\<rparr>), cbs, w) else None)"
| "conc_act e sock (Begin i) (sv, cbs, w) =
     (if sv_fault sv = None \<and> busy cbs < sv_workers sv \<and> i \<in> set (sv_reading sv)
      then (case start_callback e sock i sv w of
              Some (Some (Inr p, s, w')) \<Rightarrow> Some (store_session i s (sv_data sv) sv, cbs @ [new_callback i p], w')
            | _ \<Rightarrow> None) else None)"
| "conc_act e sock (Count k) (sv, cbs, w) =
     (if sv_fault sv = None \<and> k < length cbs \<and> \<not> cb_done (cbs ! k)
      then (case access_counters (cbs ! k) sv of
              Inr (pc, m) \<Rightarrow> Some (set_counters m sv, cbs[k := at_pc pc (cbs ! k)], w)
            | _ \<Rightarrow> None) else None)"
| "conc_act e sock (Return k) (sv, cbs, w) =
     (if sv_fault sv = None \<and> k < length cbs \<and> cb_done (cbs ! k) \<and> \<not> cb_returned (cbs ! k)
      then (case finish_callback sock (cbs ! k) sv w of
              (Inr z, log, w') \<Rightarrow> Some (set_log log sv, cbs[k := (cbs ! k)\<lparr>cb_returned := True\<rparr>], w')
            | _ \<Rightarrow> None) else None)"

fun conc_acts ::
  "'w server_env \<Rightarrow> (nat \<Rightarrow> 'w socket_api) \<Rightarrow> conc_action list \<Rightarrow> 'w pool \<Rightarrow> 'w pool option" where
  "conc_acts e sock [] p = Some p"
| "conc_acts e sock (a # as) p = (case conc_act e sock a p of None \<Rightarrow> None | Some q \<Rightarrow> conc_acts e sock as q)"

lemma conc_act_step: "conc_act e sock a p = Some q \<Longrightarrow> conc_step e sock p q"
  by (cases "(e, sock, a, p)" rule: conc_act.cases)
    (auto split: if_splits option.splits sum.splits prod.splits intro: conc_step.intros)

lemma conc_acts_reaches: "conc_acts e sock as p = Some q \<Longrightarrow> conc_reaches e sock p q"
  unfolding conc_reaches_def
  by (induction e sock as p rule: conc_acts.induct)
    (auto split: option.splits dest: conc_act_step intro: converse_rtranclp_into_rtranclp)

text \<open>Two callbacks that both look up the page before either of them stores its count.\<close>

lemma run_value:
  "(case conc_acts e sock as p of None \<Rightarrow> False | Some (sv, cbs, w) \<Rightarrow> P sv cbs) \<Longrightarrow>
   \<exists>sv cbs w. conc_reaches e sock p (sv, cbs, w) \<and> P sv cbs"
  using conc_acts_reaches [of e sock as p] by (auto simp del: conc_acts.simps split: option.splits)

lemma lost_run:
  "\<exists>sv cbs w. conc_reaches sample_env (\<lambda>i. delivering ''GET /echo/x HTTP/1.1'')
       (Server_create sample_config 4, [], empty_world) (sv, cbs, w) \<and>
     sv_fault sv = None \<and> returned cbs = 2 \<and> busy cbs = 0 \<and> done_for ''/echo/x'' 200 cbs = 2 \<and>
     length (access_log (sv_data sv)) = 2 \<and> request_count (counters (sv_data sv)) ''/echo/x'' 200 = 1"
  by (rule run_value [where as =
      "[Accept 0, Accept 1, Begin 0, Begin 1, Count 0, Count 1, Count 0, Count 1, Return 1, Return 0]"]) code_simp

section \<open>Properties\<close>

text \<open>
  Claim C8. Atomic callbacks are a special case of overlapping ones: every state that the server
  reaches when each callback runs as one step is also reached when the callbacks are taken apart
  into their accesses to the shared data and may overlap.
\<close>

theorem atomic_is_concurrent:
  "reaches e sock (Server_create config n, w0) es (sv, w) \<Longrightarrow>
   \<exists>cbs. conc_reaches e sock (Server_create config n, [], w0) (sv, cbs, w)"
  using conc_reaches_atomic by fastforce

theorem atomic_is_concurrent_witness:
  "\<exists>cbs. conc_reaches sample_env (\<lambda>i. sample_socket) (Server_create sample_config 4, [], empty_world)
     (one_connection, cbs, empty_world)"
  by (rule atomic_is_concurrent [OF sample_reach])

text \<open>
  Claim C7. What the counters of the server are worth when its callbacks overlap: in every
  reachable state, for every URI and status, the counter is not larger than the number of
  callbacks that have counted such an answer, and not zero once one has; the total of the status
  page is not larger than the number of all callbacks that have counted; the log has one line for
  every callback that returned, and never do more callbacks run than there are threads.
\<close>

theorem concurrent_server_counts:
  "conc_reaches e sock (Server_create config n, [], w0) (sv, cbs, w) \<Longrightarrow>
   0 \<le> request_count (counters (sv_data sv)) u c \<and>
   request_count (counters (sv_data sv)) u c \<le> int (done_for u c cbs) \<and>
   (0 < done_for u c cbs \<longrightarrow> 0 < request_count (counters (sv_data sv)) u c) \<and>
   counters_ok (counters (sv_data sv)) \<and> total_requests (counters (sv_data sv)) \<le> int (done_callbacks cbs) \<and>
   length (access_log (sv_data sv)) = returned cbs \<and> busy cbs \<le> workers n"
proof -
  assume "conc_reaches e sock (Server_create config n, [], w0) (sv, cbs, w)"
  then have inv: "conc_inv n (sv, cbs, w)" by (rule conc_inv_reaches)
  from inv conc_inv_counts [OF inv, of u c] conc_inv_total [OF inv] show ?thesis
    by (auto simp: conc_inv_def)
qed

theorem concurrent_server_counts_witness:
  "\<exists>sv cbs w. conc_reaches sample_env (\<lambda>i. delivering ''GET /echo/x HTTP/1.1'')
       (Server_create sample_config 4, [], empty_world) (sv, cbs, w) \<and>
     request_count (counters (sv_data sv)) ''/echo/x'' 200 \<le> 2 \<and>
     0 < request_count (counters (sv_data sv)) ''/echo/x'' 200"
proof -
  obtain sv cbs and w :: mem_world where run: "conc_reaches sample_env (\<lambda>i. delivering ''GET /echo/x HTTP/1.1'')
       (Server_create sample_config 4, [], empty_world) (sv, cbs, w)" and two: "done_for ''/echo/x'' 200 cbs = 2"
    using lost_run by blast
  from concurrent_server_counts [OF run, of "''/echo/x''" 200] two run show ?thesis by auto
qed

text \<open>
  The server loses requests: there is a run in which two clients ask for the same echo
  page, both are answered with status 200 and logged, nothing fails, and the counter of that
  page is 1.
\<close>

theorem concurrent_server_loses:
  "\<exists>sv cbs w. conc_reaches sample_env (\<lambda>i. delivering ''GET /echo/x HTTP/1.1'')
       (Server_create sample_config 4, [], empty_world) (sv, cbs, w) \<and>
     sv_fault sv = None \<and> returned cbs = 2 \<and> busy cbs = 0 \<and> done_for ''/echo/x'' 200 cbs = 2 \<and>
     length (access_log (sv_data sv)) = 2 \<and> request_count (counters (sv_data sv)) ''/echo/x'' 200 = 1"
  using lost_run by blast

end
