(* ===== verification/Reliable_Concurrent.thy ===== *)
theory Reliable_Concurrent
  imports Reliable_Server Concurrent_Server
begin

text \<open>
  The reliable configurations of \<open>Reliable_Server\<close> with callbacks that overlap, when an access to
  the counters is atomic: counting loses requests, but a callback that has its reply can always
  go on, whatever the others do to the counters in between.
\<close>

section \<open>Callbacks that can return\<close>

definition can_return :: "running_call \<Rightarrow> bool" where
  "can_return cb \<longleftrightarrow> is_value (reply_ToString (cb_reply cb)) \<and>
     is_value (strip_line_ends (m_original_request (cb_request cb)))"

lemma can_return_update [simp]:
  "can_return (at_pc pc cb) = can_return cb" "can_return (cb\<lparr>cb_returned := b\<rparr>) = can_return cb"
  by (simp_all add: can_return_def at_pc_def)

lemma finish_reliable:
  assumes "can_return cb" and "good_client (sock (cb_session cb))"
  shows "\<exists>log w'. finish_callback sock cb sv w = (Inr 0, log, w')"
proof -
  obtain str line where str: "reply_ToString (cb_reply cb) = Inr str"
    and line: "strip_line_ends (m_original_request (cb_request cb)) = Inr line"
    using assms(1) by (auto simp: can_return_def is_value_iff)
  have "fst (write_string (sock (cb_session cb)) str w) = Inr ()" using assms(2) by (simp add: good_client_def)
  then obtain w' where "write_string (sock (cb_session cb)) str w = (Inr (), w')" by (metis prod.collapse)
  with str line show ?thesis by (simp add: finish_callback_def conclude_def)
qed

lemma conclude_returns:
  assumes "conclude sock remote request r z log w = (Inr y, log', w')"
  shows "is_value (reply_ToString r) \<and> is_value (strip_line_ends (m_original_request request))"
  using assms by (auto simp: conclude_def is_value_iff split: sum.splits prod.splits)

text \<open>Over a reliable configuration a callback gets its reply, and can return with it.\<close>

lemma start_reliable:
  assumes rel: "reliable_config (env_boost e) config" and b: "boost_documented (env_boost e)"
    and client: "good_client (sock i)" and i: "map_of (sv_sessions sv) i = Some (new_Session config)"
    and counts: "counters_ok (counters (sv_data sv))" "total_requests (counters (sv_data sv)) < int_max"
  shows "\<exists>p s w'. start_callback e sock i sv w = Some (Some (Inr p, s, w')) \<and> can_return (new_callback i p)"
proof -
  obtain s' d' w' where "serve e sock i sv w = Some (Some (Inr 0, s', d', w'))"
    using reliable_serves [OF rel b client counts, of w] by (auto simp: serve_def i)
  then obtain request remote r z s w1 m log where
    start: "start_callback e sock i sv w = Some (Some (Inr (request, remote, r, z), s, w1))"
    and "conclude (sock i) remote request r z (access_log (sv_data sv)) w1 = (Inr 0, log, w')"
    by (auto simp: serve_parts split: option.splits sum.splits prod.splits)
  from conclude_returns [OF this(2)] have "can_return (new_callback i (request, remote, r, z))"
    by (simp add: can_return_def new_callback_def)
  with start show ?thesis by blast
qed

section \<open>No step fails\<close>

definition reliable_inv :: "NginxConfig \<Rightarrow> nat \<Rightarrow> 'w pool \<Rightarrow> bool" where
  "reliable_inv config n p = (case p of (sv, cbs, w) \<Rightarrow>
     sv_fault sv = None \<and> sv_workers sv = workers n \<and> sessions_ok sv \<and> pending_new config sv \<and>
     (\<forall>cb \<in> set cbs. can_return cb))"

lemma done_for_le: "done_for u c cbs \<le> length cbs"
  using length_filter_le [of _ "map cb_thread cbs"] by (simp add: done_for_def counted_for_def)

lemma done_callbacks_le: "done_callbacks cbs \<le> length cbs"
  by (simp add: done_callbacks_def)

lemma access_reliable:
  assumes inv: "conc_inv n (sv, cbs, w)" and few: "int (length cbs) < int_max"
  shows "\<exists>pc m. access_counters cb sv = Inr (pc, m)"
proof (cases "th_pc (cb_thread cb)")
  case Read_count
  let ?z = "request_count (counters (sv_data sv)) (th_uri (cb_thread cb)) (th_code (cb_thread cb))"
  have "0 \<le> ?z" "?z < int_max"
    using conc_inv_counts(1,2) [OF inv, of "th_uri (cb_thread cb)" "th_code (cb_thread cb)"] few
      done_for_le [of "th_uri (cb_thread cb)" "th_code (cb_thread cb)" cbs] by simp_all
  then have "int_add ?z 1 = Inr (?z + 1)" by (simp add: int_add_def fits_int_def int_min_def int_max_def)
  with Read_count show ?thesis by (simp add: access_counters_def count_step_Read_count)
qed (auto simp: access_counters_def count_step.simps Let_def)

lemma reliable_starts:
  assumes rel: "reliable_config (env_boost e) config" and b: "boost_documented (env_boost e)"
    and clients: "\<forall>i. good_client (sock i)"
    and inv: "conc_inv n (sv, cbs, w0)" "reliable_inv config n (sv, cbs, w0)" and few: "int (length cbs) < int_max"
    and i: "i \<in> set (sv_reading sv)"
  shows "\<exists>p s w'. start_callback e sock i sv w = Some (Some (Inr p, s, w')) \<and> can_return (new_callback i p)"
proof (rule start_reliable [OF rel b clients [rule_format]])
  show "map_of (sv_sessions sv) i = Some (new_Session config)"
    using inv(2) i by (simp add: reliable_inv_def pending_new_def)
  show "counters_ok (counters (sv_data sv))" using inv(1) by (simp add: conc_inv_def)
  show "total_requests (counters (sv_data sv)) < int_max"
    using conc_inv_total [OF inv(1)] done_callbacks_le [of cbs] few by simp
qed

lemma shared_data_apart [simp]:
  "sessions_ok (set_counters m sv) = sessions_ok sv" "sessions_ok (set_log log sv) = sessions_ok sv"
  "pending_new config (set_counters m sv) = pending_new config sv"
  "pending_new config (set_log log sv) = pending_new config sv"
  "sv_workers (set_counters m sv) = sv_workers sv" "sv_workers (set_log log sv) = sv_workers sv"
  by (simp_all add: sessions_ok_def session_ids_def pending_new_def set_counters_def set_log_def)

lemma reliable_inv_step:
  assumes rel: "reliable_config (env_boost e) config" and b: "boost_documented (env_boost e)"
    and clients: "\<forall>i. good_client (sock i)"
    and st: "conc_step e sock (sv, cbs, w) (sv', cbs', w')"
    and inv: "conc_inv n (sv, cbs, w)" "reliable_inv config n (sv, cbs, w)" and few: "int (length cbs) < int_max"
  shows "reliable_inv config n (sv', cbs', w')"
proof -
  have ok: "sv_fault sv = None" "sv_workers sv = workers n" "sessions_ok sv" "pending_new config sv"
    and returns: "\<forall>cb \<in> set cbs. can_return cb"
    using inv(2) by (simp_all add: reliable_inv_def)
  note starts = reliable_starts [OF rel b clients inv few]
  have kept: "\<forall>cb \<in> set (cbs[k := cb']). can_return cb" if "can_return cb'" for k cb'
    using returns that set_update_subset_insert [of cbs k cb'] by blast
  from st show ?thesis
  proof (cases rule: conc_step.cases)
    case (begun i p s)
    with starts [of i w] ok returns show ?thesis
      by (auto simp: reliable_inv_def store_session_ok store_session_pending)
  next
    case (begun_failed i f s)
    with starts [of i w] show ?thesis by auto
  next
    case (stuck i)
    with starts [of i w] show ?thesis by auto
  next
    case (counting k pc m)
    with ok kept [of "at_pc pc (cbs ! k)" k] returns show ?thesis by (simp add: reliable_inv_def)
  next
    case (counting_failed k f)
    with access_reliable [OF inv(1) few, of "cbs ! k"] show ?thesis by auto
  next
    case (finished k z log)
    with ok kept [of "(cbs ! k)\<lparr>cb_returned := True\<rparr>" k] returns show ?thesis by (simp add: reliable_inv_def)
  next
    case (finished_failed k f log)
    with finish_reliable [of "cbs ! k" sock sv w] returns clients show ?thesis by auto
  qed (use ok returns in \<open>auto simp: reliable_inv_def handle_accept_ok handle_accept_pending\<close>)
qed

lemma callbacks_grow: "conc_step e sock p q \<Longrightarrow> length (fst (snd p)) \<le> length (fst (snd q))"
  by (induction rule: conc_step.induct) simp_all

lemma reliable_reaches:
  assumes rel: "reliable_config (env_boost e) config" and b: "boost_documented (env_boost e)"
    and clients: "\<forall>i. good_client (sock i)"
    and run: "conc_reaches e sock (Server_create config n, [], w0) p" and few: "int (length (fst (snd p))) < int_max"
  shows "reliable_inv config n p"
  using run few unfolding conc_reaches_def
proof (induction rule: rtranclp_induct)
  case base
  have "sessions_ok (Server_create config n)" using server_inv_start [of n config] by (simp add: server_inv_def)
  then show ?case using pending_start [of config n] by (simp add: reliable_inv_def Server_create_def)
next
  case (step p q)
  obtain sv cbs w sv' cbs' w' where p: "p = (sv, cbs, w)" "q = (sv', cbs', w')" by (metis surj_pair)
  have few: "int (length cbs) < int_max" using callbacks_grow [OF step.hyps(2)] step.prems by (simp add: p)
  have inv: "conc_inv n (sv, cbs, w)"
    using step.hyps(1) unfolding p by (intro conc_inv_reaches) (simp only: conc_reaches_def)
  have "reliable_inv config n (sv, cbs, w)" using step.IH few by (simp add: p)
  from reliable_inv_step [OF rel b clients step.hyps(2) [unfolded p] inv this few] show ?case by (simp only: p)
qed

section \<open>Reliable servers\<close>

text \<open>
  As long as the accesses to the counters are atomic (in C++ two that race are undefined, see
  \<open>Single_Thread\<close> for when they do) a reliable configuration makes a server that cannot fail: in
  every state reached by fewer than 2 to the 31 callbacks nothing has failed, no thread is lost,
  every pending request can be begun as soon as a thread is free, and every callback that has not
  returned can make its next access or return.
\<close>

lemma reliable_concurrent:
  "reliable_config (env_boost e) config \<Longrightarrow> boost_documented (env_boost e) \<Longrightarrow> \<forall>i. good_client (sock i) \<Longrightarrow>
   conc_reaches e sock (Server_create config n, [], w0) (sv, cbs, w) \<Longrightarrow> int (length cbs) < int_max \<Longrightarrow>
   sv_fault sv = None \<and> sv_workers sv = workers n \<and>
   (\<forall>i \<in> set (sv_reading sv). busy cbs < workers n \<longrightarrow>
      (\<exists>s p w'. conc_step e sock (sv, cbs, w) (store_session i s (sv_data sv) sv, cbs @ [new_callback i p], w'))) \<and>
   (\<forall>k < length cbs. \<not> cb_returned (cbs ! k) \<longrightarrow>
      (\<exists>sv' cb w'. conc_step e sock (sv, cbs, w) (sv', cbs[k := cb], w')))"
proof -
  assume rel: "reliable_config (env_boost e) config" and b: "boost_documented (env_boost e)"
    and clients: "\<forall>i. good_client (sock i)"
    and run: "conc_reaches e sock (Server_create config n, [], w0) (sv, cbs, w)" and few: "int (length cbs) < int_max"
  note inv = conc_inv_reaches [OF run] reliable_reaches [OF rel b clients run, simplified, OF few]
  have ok: "sv_fault sv = None" "sv_workers sv = workers n" and returns: "\<forall>cb \<in> set cbs. can_return cb"
    using inv(2) by (simp_all add: reliable_inv_def)
  have "\<exists>s p w'. conc_step e sock (sv, cbs, w) (store_session i s (sv_data sv) sv, cbs @ [new_callback i p], w')"
    if i: "i \<in> set (sv_reading sv)" and free: "busy cbs < workers n" for i
  proof -
    obtain p s w' where "start_callback e sock i sv w = Some (Some (Inr p, s, w'))"
      using reliable_starts [OF rel b clients inv few i, of w] by blast
    from conc_step.begun [OF ok(1) free [folded ok(2)] i this] show ?thesis by blast
  qed
  moreover have "\<exists>sv' cb w'. conc_step e sock (sv, cbs, w) (sv', cbs[k := cb], w')"
    if k: "k < length cbs" and running: "\<not> cb_returned (cbs ! k)" for k
  proof (cases "cb_done (cbs ! k)")
    case True
    obtain log w' where "finish_callback sock (cbs ! k) sv w = (Inr 0, log, w')"
      using finish_reliable [of "cbs ! k" sock sv w] returns clients k by auto
    from conc_step.finished [OF ok(1) k True running this] show ?thesis by blast
  next
    case False
    obtain pc m where "access_counters (cbs ! k) sv = Inr (pc, m)"
      using access_reliable [OF inv(1) few] by blast
    then show ?thesis by (intro exI) (rule conc_step.counting [OF ok(1) k False])
  qed
  ultimately show ?thesis using ok by blast
qed

end
