(* ===== verification/Single_Thread.thy ===== *)
theory Single_Thread
  imports Reliable_Concurrent
begin

text \<open>
  The server with a pool of one thread, and with more. The shared counters are not
  synchronised (\<open>src/session.cc\<close>, lines 98 to 108, and the page that lists them), so what the
  server promises about them depends on the size of the pool. With one thread callbacks do not
  overlap, the counters and the status page are exact, and no two accesses race; with two
  threads every reliable configuration reaches a state with a data race, which is undefined
  behaviour in C++.
\<close>

section \<open>One callback at a time\<close>

lemma one_worker: "n \<le> 1 \<Longrightarrow> workers n = 1"
  by (simp add: workers_def)

lemma others_returned:
  assumes "busy cbs \<le> 1" and "k < length cbs" "\<not> cb_returned (cbs ! k)" and "j < length cbs" "j \<noteq> k"
  shows "cb_returned (cbs ! j)"
proof -
  have "busy (cbs[k := (cbs ! k)\<lparr>cb_returned := True\<rparr>]) = 0"
    using busy_update [OF assms(2), of "(cbs ! k)\<lparr>cb_returned := True\<rparr>"] assms(1,3) by simp
  then have "\<forall>cb \<in> set (cbs[k := (cbs ! k)\<lparr>cb_returned := True\<rparr>]). cb_returned cb"
    by (simp add: busy_def filter_empty_conv)
  moreover have "cbs ! j \<in> set (cbs[k := (cbs ! k)\<lparr>cb_returned := True\<rparr>])"
    using assms(4,5) by (auto simp: in_set_conv_nth intro!: exI [of _ j])
  ultimately show ?thesis by blast
qed

lemma idle_returned: "busy cbs = 0 \<Longrightarrow> returned cbs = length cbs"
  using busy_returned [of cbs] by simp

text \<open>Two callbacks whose next accesses to the shared counters are unsynchronised, one of them a store.\<close>

definition stores_next :: "running_call \<Rightarrow> bool" where
  "stores_next cb = (case th_pc (cb_thread cb) of Write_count n \<Rightarrow> True | _ \<Rightarrow> False)"

definition data_race :: "running_call list \<Rightarrow> bool" where
  "data_race cbs \<longleftrightarrow>
     (\<exists>j<length cbs. \<exists>k<length cbs. j \<noteq> k \<and> stores_next (cbs ! j) \<and> \<not> cb_done (cbs ! k))"

lemma stores_next_running: "stores_next cb \<Longrightarrow> \<not> cb_done cb"
  by (auto simp: stores_next_def cb_done_def split: count_pc.splits)

lemma alone_no_race:
  assumes inv: "conc_inv n (sv, cbs, w)" and n: "n \<le> 1"
  shows "\<not> data_race cbs"
proof
  assume "data_race cbs"
  then obtain j k where jk: "j < length cbs" "k < length cbs" "j \<noteq> k" "\<not> cb_done (cbs ! j)" "\<not> cb_done (cbs ! k)"
    using stores_next_running by (auto simp: data_race_def)
  have returned: "cb_returned cb \<longrightarrow> cb_done cb" if "cb \<in> set cbs" for cb
    using inv that by (simp add: conc_inv_def)
  have "busy cbs \<le> 1" using inv one_worker [OF n] by (simp add: conc_inv_def)
  moreover have "\<not> cb_returned (cbs ! j)" "\<not> cb_returned (cbs ! k)"
    using jk returned [OF nth_mem] by blast+
  ultimately show False using others_returned [OF _ jk(1) _ jk(2)] jk(3) by blast
qed

section \<open>Exact counters\<close>

definition exact_inv :: "running_call list \<Rightarrow> request_map \<Rightarrow> bool" where
  "exact_inv cbs m \<longleftrightarrow>
     (\<forall>u c. request_count m u c = int (done_for u c cbs)) \<and> total_requests m = int (done_callbacks cbs) \<and>
     (\<forall>th \<in> set (map cb_thread cbs). \<forall>v. th_pc th = Write_count v \<longrightarrow>
        fits_int v \<and> v = request_count m (th_uri th) (th_code th) + 1)"

lemma total_touch:
  assumes "map_ok m"
  shows "total_requests (map_touch [] uri m) = total_requests m"
  using sum_map_put [OF assms, of codes_total uri "[]"]
  by (simp add: map_touch_def total_requests_alt codes_total_def split: option.split)

lemma total_store:
  assumes ok: "counters_ok m" and fits: "fits_int (request_count m uri code + 1)"
  shows "total_requests (store_count uri code (request_count m uri code + 1) m) = total_requests m + 1"
proof -
  have "record_request uri code m = Inr (store_count uri code (request_count m uri code + 1) m)"
    using fits
    by (cases "map_find (map_at [] m uri) code")
      (simp_all add: record_request_store request_count_def map_at_def [of 0] int_add_def)
  from record_request_total [OF ok this] show ?thesis .
qed

text \<open>One access, made while nobody else counts.\<close>

lemma exact_access:
  assumes ok: "counters_ok m" and st: "count_step uri code pc m = Inr (pc', m')"
    and read: "pc = Read_count \<longrightarrow> has_count uri code m"
    and pending: "\<forall>v. pc = Write_count v \<longrightarrow> fits_int v \<and> v = request_count m uri code + 1"
  shows "total_requests m' = total_requests m + (if \<exists>v. pc = Write_count v then 1 else 0)"
    and "request_count m' u c = request_count m u c + (if (\<exists>v. pc = Write_count v) \<and> u = uri \<and> c = code then 1 else 0)"
    and "pc' = Write_count v \<Longrightarrow> fits_int v \<and> v = request_count m' uri code + 1"
    and "pc' = Counted \<longleftrightarrow> pc = Counted \<or> (\<exists>v. pc = Write_count v)"
proof -
  note eff = count_step_effect [OF st, unfolded step_effect_def fst_conv snd_conv]
  show "request_count m' u c = request_count m u c + (if (\<exists>v. pc = Write_count v) \<and> u = uri \<and> c = code then 1 else 0)"
    using eff pending by (auto split: count_pc.splits)
  show "pc' = Counted \<longleftrightarrow> pc = Counted \<or> (\<exists>v. pc = Write_count v)" using eff by blast
  have one: "fits_int 1" by (simp add: fits_int_def int_min_def int_max_def)
  have "map_ok m" using ok by (simp add: counters_ok_def)
  note touch = total_touch [OF this, of uri]
  have "total_requests m' = total_requests m + (if \<exists>v. pc = Write_count v then 1 else 0) \<and>
    (\<forall>v. pc' = Write_count v \<longrightarrow> fits_int v \<and> v = request_count m' uri code + 1)"
  proof (cases pc)
    case Find_url
    with st one count_step_Find_url [of uri code m] not_has_count_count [of uri code m] show ?thesis
      by (auto split: if_splits)
  next
    case Find_code
    with st one touch not_has_count_count [of uri code m] show ?thesis
      by (auto simp: count_steps count_touch split: if_splits)
  next
    case Read_count
    with st read show ?thesis by (auto simp: count_steps obind_Inr_iff int_add_def split: if_splits)
  next
    case (Write_count v)
    with st pending total_store [OF ok, of uri code] show ?thesis by auto
  qed (use st in simp)
  then show "total_requests m' = total_requests m + (if \<exists>v. pc = Write_count v then 1 else 0)"
    and "pc' = Write_count v \<Longrightarrow> fits_int v \<and> v = request_count m' uri code + 1" by blast+
qed

lemma done_callbacks_update:
  assumes "k < length cbs" and "\<not> cb_done (cbs ! k)"
  shows "done_callbacks (cbs[k := cb]) = done_callbacks cbs + (if cb_done cb then 1 else 0)"
  using length_filter_update [OF assms(1), of cb_done cb] assms(2) by (simp add: done_callbacks_def)

lemma done_for_update:
  assumes "k < length cbs" and "\<not> cb_done (cbs ! k)"
  shows "done_for u c (cbs[k := at_pc pc (cbs ! k)]) = done_for u c cbs +
    (if pc = Counted \<and> th_uri (cb_thread (cbs ! k)) = u \<and> th_code (cb_thread (cbs ! k)) = c then 1 else 0)"
  using assms counted_for_update [of k "map cb_thread cbs" u c "(cb_thread (cbs ! k))\<lparr>th_pc := pc\<rparr>"]
  by (auto simp: done_for_def map_update counts_for_def cb_done_def)

lemma exact_counting:
  assumes inv: "conc_inv n (sv, cbs, w)" and n: "n \<le> 1" and exact: "exact_inv cbs (counters (sv_data sv))"
    and k: "k < length cbs" and running: "\<not> cb_done (cbs ! k)"
    and st: "access_counters (cbs ! k) sv = Inr (pc, m)"
  shows "exact_inv (cbs[k := at_pc pc (cbs ! k)]) m"
proof -
  let ?th = "cb_thread (cbs ! k)" and ?m = "counters (sv_data sv)"
  have ok: "counters_ok ?m" and busy: "busy cbs \<le> 1" and mem: "cbs ! k \<in> set cbs"
    and counted: "\<And>cb. cb \<in> set cbs \<Longrightarrow> cb_returned cb \<Longrightarrow> cb_done cb"
    and read: "th_pc ?th = Read_count \<longrightarrow> has_count (th_uri ?th) (th_code ?th) ?m"
    using inv k one_worker [OF n] by (auto simp: conc_inv_def reading_present_def)
  have "?th \<in> set (map cb_thread cbs)" using mem by simp
  with exact have pending:
    "\<forall>v. th_pc ?th = Write_count v \<longrightarrow> fits_int v \<and> v = request_count ?m (th_uri ?th) (th_code ?th) + 1"
    unfolding exact_inv_def by blast
  note acc = exact_access [OF ok st [unfolded access_counters_def] read pending]
  have pc: "pc = Counted \<longleftrightarrow> (\<exists>v. th_pc ?th = Write_count v)" using acc(4) running by (auto simp: cb_done_def)
  have others: "cb_done (cbs ! j)" if "j < length cbs" "j \<noteq> k" for j
    using others_returned [OF busy k _ that] counted [OF mem] counted [OF nth_mem [OF that(1)]] running by blast
  have "fits_int v \<and> v = request_count m (th_uri (cb_thread cb)) (th_code (cb_thread cb)) + 1"
    if cb: "cb \<in> set (cbs[k := at_pc pc (cbs ! k)])" and v: "th_pc (cb_thread cb) = Write_count v" for cb v
  proof -
    obtain j where j: "j < length cbs" "cb = cbs[k := at_pc pc (cbs ! k)] ! j"
      using cb by (metis in_set_conv_nth length_list_update)
    with v others [of j] k have "j = k" by (cases "j = k") (auto simp: cb_done_def)
    with j k have cb: "cb = at_pc pc (cbs ! k)" by simp
    with v have "pc = Write_count v" by simp
    moreover have "th_uri (cb_thread cb) = th_uri ?th" "th_code (cb_thread cb) = th_code ?th" by (simp_all add: cb)
    ultimately show ?thesis using acc(3) by metis
  qed
  then show ?thesis
    using exact acc(1,2) pc done_callbacks_update [OF k running, of "at_pc pc (cbs ! k)"] done_for_update [OF k running, of _ _ pc]
    by (auto simp: exact_inv_def)
qed

lemma exact_step:
  assumes st: "conc_step e sock (sv, cbs, w) (sv', cbs', w')" and n: "n \<le> 1"
    and inv: "conc_inv n (sv, cbs, w)" "exact_inv cbs (counters (sv_data sv))"
  shows "exact_inv cbs' (counters (sv_data sv'))"
  using st
proof (cases rule: conc_step.cases)
  case (begun i p s)
  with inv(2) show ?thesis
    by (auto simp: exact_inv_def done_for_def counted_for_def done_callbacks_def cb_done_def)
next
  case (counting k pc m)
  with exact_counting [OF inv(1) n inv(2)] show ?thesis by simp
next
  case (finished k z log)
  have "map cb_thread cbs' = map cb_thread cbs"
    using finished by (simp add: map_update list_update_same_conv)
  moreover have "done_callbacks cbs' = done_callbacks cbs"
    using finished length_filter_update [of k cbs cb_done "(cbs ! k)\<lparr>cb_returned := True\<rparr>"]
    by (simp add: done_callbacks_def cb_done_def)
  moreover have "counters (sv_data sv') = counters (sv_data sv)" using finished by simp
  ultimately have "exact_inv cbs' (counters (sv_data sv')) = exact_inv cbs (counters (sv_data sv))"
    by (simp only: exact_inv_def done_for_def)
  with inv(2) show ?thesis by (simp only:)
qed (use inv(2) in simp_all)

lemma exact_reaches:
  assumes "conc_reaches e sock (Server_create config n, [], w0) p" and n: "n \<le> 1"
  shows "exact_inv (fst (snd p)) (counters (sv_data (fst p)))"
  using assms(1) unfolding conc_reaches_def
proof (induction rule: rtranclp_induct)
  case base
  show ?case
    by (simp add: exact_inv_def Server_create_def request_count_def map_at_def total_requests_def done_for_def
        counted_for_def done_callbacks_def)
next
  case (step p q)
  obtain sv cbs w sv' cbs' w' where p: "p = (sv, cbs, w)" "q = (sv', cbs', w')" by (metis surj_pair)
  have "conc_inv n (sv, cbs, w)"
    using step.hyps(1) unfolding p by (intro conc_inv_reaches) (simp only: conc_reaches_def)
  from exact_step [OF step.hyps(2) [unfolded p] n this] step.IH show ?case by (simp add: p)
qed

section \<open>The status page\<close>

lemma conc_pending:
  assumes "conc_reaches e sock (Server_create config n, [], w0) p"
  shows "sessions_ok (fst p) \<and> pending_new config (fst p)"
  using assms unfolding conc_reaches_def
proof (induction rule: rtranclp_induct)
  case base
  have "sessions_ok (Server_create config n)" using server_inv_start [of n config] by (simp add: server_inv_def)
  then show ?case by (simp add: pending_start)
next
  case (step p q)
  from step.hyps(2) step.IH show ?case
    by (cases rule: conc_step.cases)
      (auto simp: store_session_ok store_session_pending handle_accept_ok handle_accept_pending stuck_ok)
qed

lemma status_prepared:
  assumes b: "boost_documented (env_boost e)" "length msg < 2 ^ 32" "acceptable msg"
    and ip: "so_remote_address sock w = Some ip"
    and routed: "routed (env_boost e) m (with_request config msg) (m_uri (accepted_request msg)) (Inr (Some h))"
    and reply: "handler_HandleRequest e h (accepted_request msg) w = Some (Inr (Some r), w)"
    and z: "r_status_code r = Some z"
  shows "\<exists>s. prepare e sock (with_request config msg) m w = Some (Inr (accepted_request msg, ip, r, z), s, w)"
proof -
  let ?q = "accepted_request msg"
  have "m_valid ?q" by (simp add: accepted_request_def)
  moreover have "length (m_uri ?q) < 2 ^ 32" using accepted_uri_le [of msg] b(2) by simp
  ultimately obtain cs where "choose_reply e m (with_request config msg) ?q w =
      (case handler_HandleRequest e h ?q w of
         None \<Rightarrow> None
       | Some (out, w') \<Rightarrow> Some (obind out (\<lambda>r. Inr (case r of None \<Rightarrow> not_found_reply | Some r \<Rightarrow> r)),
           managed m cs (with_request config msg), w'))"
    using routed_choose [OF routed, of w] by blast
  then have "choose_reply e m (with_request config msg) ?q w =
      Some (Inr r, managed m cs (with_request config msg), w)" by (simp add: reply)
  moreover have "ParseRequest (env_boost e) (get_message_request (with_request config msg)) = Inr ?q"
    using ParseRequest_eq [OF b(1,2)] b(3) by (simp add: get_message_request_def)
  ultimately show ?thesis using ip z by (simp add: prepare_def reply_status_def)
qed

lemma start_pending:
  assumes "pending_new config sv" and "i \<in> set (sv_reading sv)" and "so_read_until (sock i) crlf2 w = ((ec, msg), w1)"
  shows "start_callback e sock i sv w = Some (prepare e (sock i) (with_request config msg) (counters (sv_data sv)) w1)"
  using assms by (simp add: pending_new_def start_callback_def with_request_def new_Session_def)

text \<open>With one thread a status request is answered with the exact page, and can be served in full.\<close>

lemma status_exact:
  assumes run: "conc_reaches e sock (Server_create config n, [], w0) (sv, cbs, w)" and n: "n \<le> 1"
    and idle: "busy cbs = 0" and few: "int (length cbs) < int_max"
    and alive: "sv_fault sv = None" "0 < sv_workers sv"
    and i: "i \<in> set (sv_reading sv)" and read: "so_read_until (sock i) crlf2 w = ((ec, msg), w1)"
    and b: "boost_documented (env_boost e)" "length msg < 2 ^ 32" "acceptable msg"
    and ip: "so_remote_address (sock i) w1 = Some ip"
    and routed: "routed (env_boost e) (counters (sv_data sv)) (with_request config msg)
      (m_uri (accepted_request msg)) (Inr (Some (Status h)))"
  shows "\<exists>hs r s text. handlersToString (env_boost e) h = Inr hs \<and>
    start_callback e sock i sv w = Some (Some (Inr (accepted_request msg, ip, r, 200), s, w1)) \<and>
    reply_ToString r = Inr text \<and>
    text = ''HTTP/1.1 200 OK'' @ crlf @ ''Content-Type: text/plain'' @ crlf @ crlf @
      status_page (counters (sv_data sv)) (int (returned cbs)) @ hs \<and>
    (\<forall>w'. write_string (sock i) text w1 = (Inr (), w') \<longrightarrow>
      (\<exists>s' d cbs'. conc_reaches e sock (sv, cbs, w) (store_session i s' d sv, cbs', w')))"
proof -
  note inv = conc_inv_reaches [OF run] and exact = exact_reaches [OF run n, unfolded fst_conv snd_conv]
  have ok: "counters_ok (counters (sv_data sv))" using inv by (simp add: conc_inv_def)
  have "cb_done cb" if "cb \<in> set cbs" for cb
    using inv idle that by (auto simp: conc_inv_def busy_def filter_empty_conv)
  then have total: "total_requests (counters (sv_data sv)) = int (returned cbs)"
    using exact idle_returned [OF idle] by (simp add: exact_inv_def done_callbacks_def)
  have new: "pending_new config sv" using conc_pending [OF run] by simp
  note map = routed_status(1) [OF routed]
  obtain hs where hs: "handlersToString (env_boost e) h = Inr hs" using routed_status(2) [OF routed] by blast
  let ?r = "SetBody (status_page (counters (sv_data sv)) (int (returned cbs)) @ hs)
    (SetHeader ''Content-Type'' ''text/plain'' (SetStatus 200 new_Reply))"
  have bound: "int (returned cbs) < int_max" using few idle_returned [OF idle] by simp
  have answer: "handler_HandleRequest e (Status h) (accepted_request msg) w1 = Some (Inr (Some ?r), w1)"
    using status_answer [of h "env_boost e" hs "accepted_request msg"] ok total hs bound by (simp add: map)
  have code: "r_status_code ?r = Some 200" by (simp add: reply_ops)
  obtain s where "prepare e (sock i) (with_request config msg) (counters (sv_data sv)) w1 =
      Some (Inr (accepted_request msg, ip, ?r, 200), s, w1)"
    using status_prepared [where m = "counters (sv_data sv)", OF b ip routed answer code] by blast
  with start_pending [where sock = sock, OF new i read] have start:
    "start_callback e sock i sv w = Some (Some (Inr (accepted_request msg, ip, ?r, 200), s, w1))" by simp
  have "\<exists>s' d cbs'. conc_reaches e sock (sv, cbs, w) (store_session i s' d sv, cbs', w')"
    if wr: "write_string (sock i) (''HTTP/1.1 200 OK'' @ crlf @ ''Content-Type: text/plain'' @ crlf @ crlf @
      status_page (counters (sv_data sv)) (int (returned cbs)) @ hs) w1 = (Inr (), w')" for w'
  proof -
    have "\<exists>s' d'. handle_request e (sock i) (with_request config msg) (sv_data sv) w1 = Some (Inr 0, s', d', w')"
      using answered_request [where s = "with_request config msg", unfolded with_request_fields,
          OF b ip routed answer code plain_200_text ok _ wr] total bound by auto
    then obtain s' d' where "serve e sock i sv w = Some (Some (Inr 0, s', d', w'))"
      using serve_pending [where e = e and sock = sock, OF new i read] by metis
    from conc_serves [OF this i alive(1) idle alive(2)] show ?thesis by (auto simp: result_server_def)
  qed
  with hs start show ?thesis
    by (intro exI [of _ hs] exI [of _ ?r] exI [of _ s] exI conjI) (rule plain_200_text refl | assumption | blast)+
qed

section \<open>Reliable configurations\<close>

lemma reliable_answers:
  assumes rel: "reliable_config (env_boost e) config" and b: "boost_documented (env_boost e)"
    and clients: "\<forall>i. good_client (sock i)"
    and run: "conc_reaches e sock (Server_create config n, [], w0) (sv, cbs, w)" and few: "int (length cbs) < int_max"
    and idle: "busy cbs = 0" and i: "i \<in> set (sv_reading sv)"
  shows "\<exists>s d cbs' w'. conc_reaches e sock (sv, cbs, w) (store_session i s d sv, cbs', w') \<and> busy cbs' = 0"
proof -
  note inv = conc_inv_reaches [OF run] reliable_reaches [OF rel b clients run, simplified, OF few]
  have ok: "sv_fault sv = None" "0 < sv_workers sv" using inv(2) by (simp_all add: reliable_inv_def workers_def)
  have session: "map_of (sv_sessions sv) i = Some (new_Session config)"
    using inv(2) i by (simp add: reliable_inv_def pending_new_def)
  have counts: "counters_ok (counters (sv_data sv))" "total_requests (counters (sv_data sv)) < int_max"
    using inv(1) conc_inv_total [OF inv(1)] done_callbacks_le [of cbs] few by (simp_all add: conc_inv_def)
  obtain s d w' where serve: "serve e sock i sv w = Some (Some (Inr 0, s, d, w'))"
    using reliable_serves [OF rel b clients [rule_format] counts, of i w] by (auto simp: serve_def session)
  have "result_server i (Inr 0) s d sv = store_session i s d sv" by (simp add: result_server_def)
  with conc_serves [OF serve i ok(1) idle ok(2)] ok(1) obtain cbs' where
    "conc_reaches e sock (sv, cbs, w) (store_session i s d sv, cbs', w')" "busy cbs' = 0" by auto
  then show ?thesis by blast
qed

text \<open>Two connections that are accepted and begun, one of them about to store its count.\<close>

lemma two_connections:
  "\<exists>sv. conc_reaches e sock (Server_create config n, [], w) (sv, [], w) \<and> sv_reading sv = [0, 1] \<and> counters (sv_data sv) = []"
proof -
  have free: "busy [] < workers n" by (simp add: busy_def workers_def)
  have fields: "sv_fault (Server_create config n) = None" "sv_workers (Server_create config n) = workers n"
    "sv_accepting (Server_create config n) = [0]" "sv_reading (Server_create config n) = []" "counters (sv_data (Server_create config n)) = []" "sv_next (Server_create config n) = 1"
    by (simp_all add: Server_create_def start_accept_def alloc_session_def async_accept_def)
  define sv1 where "sv1 = handle_accept 0 Success ((Server_create config n)\<lparr>sv_accepting := remove1 0 (sv_accepting (Server_create config n))\<rparr>)"
  have sv1: "sv_fault sv1 = None" "sv_workers sv1 = workers n" "sv_accepting sv1 = [1, 2]" "sv_reading sv1 = [0]" "counters (sv_data sv1) = []"
    by (simp_all add: sv1_def handle_accept_Success fields)
  have 1: "conc_step e sock (Server_create config n, [], w) (sv1, [], w)"
    unfolding sv1_def by (rule conc_step.accepted) (simp_all add: fields free)
  have 2: "conc_step e sock (sv1, [], w) (handle_accept 1 Success (sv1\<lparr>sv_accepting := remove1 1 (sv_accepting sv1)\<rparr>), [], w)"
    by (rule conc_step.accepted) (simp_all add: sv1 free)
  have "sv_reading (handle_accept 1 Success (sv1\<lparr>sv_accepting := remove1 1 (sv_accepting sv1)\<rparr>)) = [0, 1]"
    "counters (sv_data (handle_accept 1 Success (sv1\<lparr>sv_accepting := remove1 1 (sv_accepting sv1)\<rparr>))) = []"
    by (simp_all add: handle_accept_Success sv1)
  with 1 2 show ?thesis unfolding conc_reaches_def by (meson r_into_rtranclp rtranclp.rtrancl_into_rtrancl)
qed

lemma begun_reads: "i \<noteq> j \<Longrightarrow> j \<in> set (sv_reading sv) \<Longrightarrow> j \<in> set (sv_reading (store_session i s d sv))"
  by (simp add: store_session_def)

lemma race_reached:
  assumes rel: "reliable_config (env_boost e) config" and b: "boost_documented (env_boost e)"
    and clients: "\<forall>i. good_client (sock i)" and n: "2 \<le> n"
  shows "\<exists>sv cbs w. conc_reaches e sock (Server_create config n, [], w0) (sv, cbs, w) \<and> sv_fault sv = None \<and> data_race cbs"
proof -
  have workers: "workers n = n" using n by (simp add: workers_def)
  obtain sv where run: "conc_reaches e sock (Server_create config n, [], w0) (sv, [], w0)" and reading: "sv_reading sv = [0, 1]"
    and data: "counters (sv_data sv) = []"
    using two_connections [of e sock config n w0] by metis
  note start = reliable_starts [OF rel b clients]
  have small: "int (length ([] :: running_call list)) < int_max" "int (length [cb]) < int_max" for cb :: running_call
    by (simp_all add: int_max_def)
  note inv = conc_inv_reaches [OF run] reliable_reaches [OF rel b clients run, simplified, OF small(1) [simplified]]
  have ok: "sv_fault sv = None" "sv_workers sv = n" using inv(2) by (simp_all add: reliable_inv_def workers)
  obtain p1 s1 w1 where 1: "start_callback e sock 0 sv w0 = Some (Some (Inr p1, s1, w1))"
    using start [OF inv small(1), of 0 w0] reading by auto
  let ?sv1 = "store_session 0 s1 (sv_data sv) sv" and ?cb1 = "new_callback 0 p1"
  have "conc_step e sock (sv, [], w0) (?sv1, [] @ [?cb1], w1)"
    by (rule conc_step.begun [OF ok(1) _ _ 1]) (use n in \<open>simp_all add: reading busy_def ok\<close>)
  with run have run1: "conc_reaches e sock (Server_create config n, [], w0) (?sv1, [?cb1], w1)"
    unfolding conc_reaches_def by (simp add: rtranclp.rtrancl_into_rtrancl)
  note inv1 = conc_inv_reaches [OF run1] reliable_reaches [OF rel b clients run1, simplified, OF small(2) [simplified]]
  have i: "1 \<in> set (sv_reading ?sv1)" by (rule begun_reads) (simp_all add: reading)
  obtain p2 s2 w2 where 2: "start_callback e sock 1 ?sv1 w1 = Some (Some (Inr p2, s2, w2))"
    using start [OF inv1 small(2) i, of w1] by blast
  let ?sv2 = "store_session 1 s2 (sv_data ?sv1) ?sv1" and ?cb2 = "new_callback 1 p2"
  have "conc_step e sock (?sv1, [?cb1], w1) (?sv2, [?cb1] @ [?cb2], w2)"
    by (rule conc_step.begun [OF _ _ i 2]) (use n in \<open>simp_all add: busy_def ok\<close>)
  with run1 have run2: "conc_reaches e sock (Server_create config n, [], w0) (?sv2, [?cb1, ?cb2], w2)"
    unfolding conc_reaches_def by (simp add: rtranclp.rtrancl_into_rtrancl)
  have "counters (sv_data sv) = []"
    using data by simp
  then have acc: "access_counters ?cb1 ?sv2 = Inr (Write_count 1, [])"
    by (simp add: access_counters_def count_step.simps)
  have "conc_step e sock (?sv2, [?cb1, ?cb2], w2) (set_counters [] ?sv2, [?cb1, ?cb2][0 := at_pc (Write_count 1) ([?cb1, ?cb2] ! 0)], w2)"
    by (rule conc_step.counting) (use acc in \<open>simp_all add: ok cb_done_def\<close>)
  with run2 have run3: "conc_reaches e sock (Server_create config n, [], w0) (set_counters [] ?sv2, [at_pc (Write_count 1) ?cb1, ?cb2], w2)"
    unfolding conc_reaches_def by (simp add: rtranclp.rtrancl_into_rtrancl)
  have "data_race [at_pc (Write_count 1) ?cb1, ?cb2]"
    unfolding data_race_def by (rule exI [of _ 0], simp, rule exI [of _ 1]) (simp add: stores_next_def cb_done_def)
  with run3 show ?thesis by (intro exI conjI) (assumption | simp add: ok)+
qed

section \<open>Sample runs with one thread\<close>

lemma counted_run:
  "\<exists>sv cbs w. conc_reaches sample_env (\<lambda>i. delivering ''GET /echo/x HTTP/1.1'')
       (Server_create sample_config 1, [], empty_world) (sv, cbs, w) \<and>
     sv_fault sv = None \<and> returned cbs = 2 \<and> done_for ''/echo/x'' 200 cbs = 2"
  by (rule run_value [where as =
      "[Accept 0, Accept 1, Begin 0, Count 0, Count 0, Return 0, Begin 1, Count 1, Count 1, Count 1, Count 1, Return 1]"])
    code_simp

lemma status_run:
  "\<exists>sv cbs w. conc_reaches sample_env (\<lambda>i. delivering ''GET /status HTTP/1.1'')
       (Server_create status_config 1, [], empty_world) (sv, cbs, w) \<and>
     sv_fault sv = None \<and> 0 < sv_workers sv \<and> busy cbs = 0 \<and> returned cbs = 1 \<and> 1 \<in> set (sv_reading sv)"
  by (rule run_value [where as = "[Accept 0, Accept 1, Begin 0, Count 0, Count 0, Return 0]"]) code_simp

section \<open>Properties\<close>

text \<open>
  Claim C5. With one thread the counters of the server are exact: in every reachable state, each
  access to them being a step of its own, the counter of a URI and status is the number of
  callbacks that have counted such an answer, the total of the status page is the number of all
  that have counted, the log has one line for each that returned, and at most one is running.
\<close>

theorem single_thread_counts:
  "conc_reaches e sock (Server_create config n, [], w0) (sv, cbs, w) \<Longrightarrow> n \<le> 1 \<Longrightarrow>
   request_count (counters (sv_data sv)) u c = int (done_for u c cbs) \<and>
   total_requests (counters (sv_data sv)) = int (done_callbacks cbs) \<and>
   counters_ok (counters (sv_data sv)) \<and> length (access_log (sv_data sv)) = returned cbs \<and> busy cbs \<le> 1"
  using exact_reaches [of e sock config n w0 "(sv, cbs, w)"] conc_inv_reaches [of e sock config n w0 "(sv, cbs, w)"] one_worker [of n]
  by (simp add: exact_inv_def conc_inv_def)

theorem single_thread_counts_witness:
  "\<exists>sv cbs w. conc_reaches sample_env (\<lambda>i. delivering ''GET /echo/x HTTP/1.1'')
       (Server_create sample_config 1, [], empty_world) (sv, cbs, w) \<and>
     returned cbs = 2 \<and> request_count (counters (sv_data sv)) ''/echo/x'' 200 = 2"
proof -
  obtain sv cbs and w :: mem_world where run: "conc_reaches sample_env (\<lambda>i. delivering ''GET /echo/x HTTP/1.1'')
       (Server_create sample_config 1, [], empty_world) (sv, cbs, w)"
    and two: "returned cbs = 2" "done_for ''/echo/x'' 200 cbs = 2"
    using counted_run by blast
  from single_thread_counts [OF run, of "''/echo/x''" 200] two run show ?thesis by auto
qed

text \<open>
  Claim C12. With one thread the status page of the running server tells the truth: whenever the
  thread is free, a request that the configuration routes to a status handler is answered with
  status 200 and a page that lists exactly the counters, each of which is the number of requests
  that got such an answer, and whose total is the number of requests answered before; the list
  of handlers follows, and if the reply can be written the request is served.
\<close>

theorem status_page_single:
  "conc_reaches e sock (Server_create config n, [], w0) (sv, cbs, w) \<Longrightarrow> n \<le> 1 \<Longrightarrow> busy cbs = 0 \<Longrightarrow>
   int (length cbs) < int_max \<Longrightarrow> sv_fault sv = None \<Longrightarrow> 0 < sv_workers sv \<Longrightarrow>
   i \<in> set (sv_reading sv) \<Longrightarrow> so_read_until (sock i) crlf2 w = ((ec, msg), w1) \<Longrightarrow>
   boost_documented (env_boost e) \<Longrightarrow> length msg < 2 ^ 32 \<Longrightarrow> acceptable msg \<Longrightarrow>
   so_remote_address (sock i) w1 = Some ip \<Longrightarrow>
   routed (env_boost e) (counters (sv_data sv)) (with_request config msg)
     (m_uri (accepted_request msg)) (Inr (Some (Status h))) \<Longrightarrow>
   (\<forall>u c. request_count (counters (sv_data sv)) u c = int (done_for u c cbs)) \<and>
   (\<exists>hs r s text. handlersToString (env_boost e) h = Inr hs \<and>
     start_callback e sock i sv w = Some (Some (Inr (accepted_request msg, ip, r, 200), s, w1)) \<and>
     reply_ToString r = Inr text \<and>
     text = ''HTTP/1.1 200 OK'' @ crlf @ ''Content-Type: text/plain'' @ crlf @ crlf @
       status_page (counters (sv_data sv)) (int (returned cbs)) @ hs \<and>
     (\<forall>w'. write_string (sock i) text w1 = (Inr (), w') \<longrightarrow>
       (\<exists>s' d cbs'. conc_reaches e sock (sv, cbs, w) (store_session i s' d sv, cbs', w'))))"
  using exact_reaches [of e sock config n w0 "(sv, cbs, w)"]
  by (intro conjI status_exact) (simp_all add: exact_inv_def)

theorem status_page_single_witness:
  "\<exists>sv cbs w r s hs. conc_reaches sample_env (\<lambda>i. delivering ''GET /status HTTP/1.1'')
       (Server_create status_config 1, [], empty_world) (sv, cbs, w) \<and>
     start_callback sample_env (\<lambda>i. delivering ''GET /status HTTP/1.1'') 1 sv w =
       Some (Some (Inr (accepted_request ''GET /status HTTP/1.1'', ''127.0.0.1'', r, 200), s, w)) \<and>
     reply_ToString r = Inr (''HTTP/1.1 200 OK'' @ crlf @ ''Content-Type: text/plain'' @ crlf @ crlf @
       status_page (counters (sv_data sv)) 1 @ hs)"
proof -
  let ?msg = "''GET /status HTTP/1.1''" and ?sock = "\<lambda>i :: nat. delivering ''GET /status HTTP/1.1'' :: mem_world socket_api"
  obtain sv cbs and w :: mem_world where run: "conc_reaches sample_env ?sock (Server_create status_config 1, [], empty_world) (sv, cbs, w)"
    and ok: "sv_fault sv = None" "0 < sv_workers sv" "busy cbs = 0" "returned cbs = 1" "1 \<in> set (sv_reading sv)"
    using status_run by blast
  have msg: "acceptable ?msg" "m_uri (accepted_request ?msg) = ''/status''" by code_simp+
  have few: "int (length cbs) < int_max" using idle_returned [OF ok(3)] ok(4) by (simp add: int_max_def)
  have read: "so_read_until (?sock 1) crlf2 w = ((Success, ?msg), w)" "so_remote_address (?sock 1) w = Some ''127.0.0.1''"
    by (simp_all add: delivering_def)
  have len: "length ?msg < 2 ^ 32" by simp
  obtain h where h: "routed boost_model (counters (sv_data sv)) (with_request status_config ?msg) ''/status'' (Inr (Some (Status h)))"
    using status_routed by blast
  have b: "env_boost sample_env = boost_model" by (simp add: sample_env_def)
  from status_page_single [where e = sample_env and sock = ?sock, unfolded b,
      OF run order_refl ok(3) few ok(1,2,5) read(1) boost_model_documented len msg(1) read(2)
        h [folded msg(2)]] obtain hs r s where
    "start_callback sample_env ?sock 1 sv w = Some (Some (Inr (accepted_request ?msg, ''127.0.0.1'', r, 200), s, w))"
    and "reply_ToString r = Inr (''HTTP/1.1 200 OK'' @ crlf @ ''Content-Type: text/plain'' @ crlf @ crlf @
       status_page (counters (sv_data sv)) (int (returned cbs)) @ hs)"
    by (elim conjE exE) (simp only:)
  with run ok(4) show ?thesis
    by (intro exI [of _ sv] exI [of _ cbs] exI [of _ w] exI [of _ r] exI [of _ s] exI [of _ hs] conjI) simp_all
qed

text \<open>
  Claim C6. With one thread a reliable configuration makes a server that cannot fail: in every
  state reached by fewer than 2 to the 31 callbacks, with clients that send valid requests and
  take the reply, nothing has failed, the thread is not lost, no two accesses to the shared
  counters race, the running callback can make its next access or return, and when none is
  running every pending request can be answered to the end.
\<close>

theorem reliable_single_thread:
  "reliable_config (env_boost e) config \<Longrightarrow> boost_documented (env_boost e) \<Longrightarrow> \<forall>i. good_client (sock i) \<Longrightarrow>
   conc_reaches e sock (Server_create config n, [], w0) (sv, cbs, w) \<Longrightarrow> n \<le> 1 \<Longrightarrow> int (length cbs) < int_max \<Longrightarrow>
   sv_fault sv = None \<and> sv_workers sv = 1 \<and> \<not> data_race cbs \<and>
   (\<forall>k < length cbs. \<not> cb_returned (cbs ! k) \<longrightarrow>
      (\<exists>sv' cb w'. conc_step e sock (sv, cbs, w) (sv', cbs[k := cb], w'))) \<and>
   (\<forall>i \<in> set (sv_reading sv). busy cbs = 0 \<longrightarrow>
      (\<exists>s d cbs' w'. conc_reaches e sock (sv, cbs, w) (store_session i s d sv, cbs', w') \<and> busy cbs' = 0))"
proof -
  assume rel: "reliable_config (env_boost e) config" and b: "boost_documented (env_boost e)"
    and clients: "\<forall>i. good_client (sock i)"
    and run: "conc_reaches e sock (Server_create config n, [], w0) (sv, cbs, w)" and n: "n \<le> 1"
    and few: "int (length cbs) < int_max"
  from reliable_concurrent [OF rel b clients run few] one_worker [OF n] alone_no_race [OF conc_inv_reaches [OF run] n]
    reliable_answers [OF rel b clients run few]
  show ?thesis by (intro conjI ballI impI) simp_all
qed

theorem reliable_single_thread_witness:
  "\<exists>s d cbs' w'. conc_reaches sample_env (\<lambda>i. delivering ''GET /x HTTP/1.1'') (Server_create two_handlers 1, [], empty_world)
     (store_session 0 s d (handle_accept 0 Success
        ((Server_create two_handlers 1)\<lparr>sv_accepting := remove1 0 (sv_accepting (Server_create two_handlers 1))\<rparr>)), cbs', w') \<and>
     busy cbs' = 0"
proof -
  let ?sv = "handle_accept 0 Success
        ((Server_create two_handlers 1)\<lparr>sv_accepting := remove1 0 (sv_accepting (Server_create two_handlers 1))\<rparr>)"
  let ?sock = "\<lambda>i :: nat. delivering ''GET /x HTTP/1.1'' :: mem_world socket_api"
  have "conc_step sample_env ?sock (Server_create two_handlers 1, [], empty_world) (?sv, [], empty_world)"
    by (rule conc_step.accepted)
      (simp_all add: busy_def Server_create_def workers_def start_accept_def alloc_session_def async_accept_def)
  then have run: "conc_reaches sample_env ?sock (Server_create two_handlers 1, [], empty_world) (?sv, [], empty_world)"
    unfolding conc_reaches_def by (rule r_into_rtranclp)
  have i: "0 \<in> set (sv_reading ?sv)"
    by (simp add: handle_accept_Success Server_create_def start_accept_def alloc_session_def async_accept_def)
  have few: "int (length ([] :: running_call list)) < int_max" "busy [] = 0" by (simp_all add: int_max_def busy_def)
  have hyps: "reliable_config (env_boost sample_env) two_handlers" "boost_documented (env_boost sample_env)" "\<forall>i. good_client (?sock i)"
    by (simp_all add: two_handlers_reliable boost_model_documented)
  from reliable_single_thread [OF hyps run order_refl few(1)] i few(2) obtain s d cbs' w' where
    "conc_reaches sample_env ?sock (?sv, [], empty_world) (store_session 0 s d ?sv, cbs', w')" "busy cbs' = 0" by blast
  with run show ?thesis unfolding conc_reaches_def by (meson rtranclp_trans)
qed

text \<open>
  Claim C9. With two threads or more every reliable configuration reaches a data race: two
  clients that send valid requests are enough to bring the server, without any failure so far,
  to a state in which one callback is about to store into the shared map of counters while
  another is about to access it, with no lock between them. \<open>main\<close> starts four threads.
\<close>

theorem data_race_reachable:
  "reliable_config (env_boost e) config \<Longrightarrow> boost_documented (env_boost e) \<Longrightarrow> \<forall>i. good_client (sock i) \<Longrightarrow> 2 \<le> n \<Longrightarrow>
   \<exists>sv cbs w. conc_reaches e sock (Server_create config n, [], w0) (sv, cbs, w) \<and> sv_fault sv = None \<and> data_race cbs"
  by (rule race_reached)

theorem data_race_reachable_witness:
  "\<exists>sv cbs w. conc_reaches sample_env (\<lambda>i. delivering ''GET /x HTTP/1.1'') (Server_create two_handlers 4, [], empty_world) (sv, cbs, w) \<and>
     sv_fault sv = None \<and> data_race cbs"
  by (rule data_race_reachable) (simp_all add: two_handlers_reliable boost_model_documented)

end
