(* ===== verification/Meme_Service.thy ===== *)
theory Meme_Service
  imports Meme_Spec Server_Spec
begin

text \<open>
  The meme service from the bytes a browser sends to the bytes it gets back: the composition
  of \<open>Request\<close>, \<open>Session\<close>, \<open>HandlerManager\<close>, \<open>MemeHandler\<close>, \<open>Database\<close>, \<open>HtmlBuilder\<close> and \<open>Reply\<close>.
  A form is posted on one connection, and the address it is redirected to is asked for on
  another.
\<close>

section \<open>Requests and replies\<close>

definition create_form :: "int \<Rightarrow> string \<Rightarrow> string \<Rightarrow> (string \<times> string) list" where
  "create_form n a c = [(''template_id'', to_string n), (''top_text'', a), (''bottom_text'', c)]"

definition create_text :: "string list \<Rightarrow> int \<Rightarrow> string \<Rightarrow> string \<Rightarrow> string" where
  "create_text headers n a c = request_text ''POST'' ''/meme/create'' headers (form_encode (create_form n a c))"

definition view_location :: "int \<Rightarrow> string" where
  "view_location i = ''/meme/view?id='' @ to_string i"


definition redirect_text :: "string \<Rightarrow> string" where
  "redirect_text location =
     ''HTTP/1.1 301 Moved Permanently'' @ crlf @ ''Location: '' @ location @ crlf @ crlf"

definition not_found_text :: string where
  "not_found_text =
     ''HTTP/1.1 404 '' @ crlf @ ''Content-Type: text/plain'' @ crlf @ crlf @ ''404 NOT FOUND'' @ crlf"

lemma fixed_texts:
  "reply_ToString (redirect_reply location) = Inr (redirect_text location)"
  "reply_ToString not_found_reply = Inr not_found_text"
proof -
  have "to_string 301 = ''301''" "to_string 404 = ''404''" by code_simp+
  then show "reply_ToString (redirect_reply location) = Inr (redirect_text location)"
    and "reply_ToString not_found_reply = Inr not_found_text"
    by (simp_all add: reply_ToString_def redirect_reply_def redirect_text_def not_found_reply_def
        not_found_text_def reply_ops header_text_def)
qed



lemma create_head: "list_all head_line headers \<Longrightarrow> wf_request_head ''POST'' ''/meme/create'' headers"
proof -
  have "map to_lower ''POST'' = ''post''" by code_simp
  then show "list_all head_line headers \<Longrightarrow> wf_request_head ''POST'' ''/meme/create'' headers"
    by (simp add: wf_request_head_def)
qed




section \<open>Sessions over a database\<close>

text \<open>The configuration sends all addresses under a location to a handler.\<close>

definition routes_to :: "boost_api \<Rightarrow> NginxConfig \<Rightarrow> string \<Rightarrow> Handler \<Rightarrow> bool" where
  "routes_to b config p h \<longleftrightarrow>
     (\<forall>rm msg uri. prefix p uri \<longrightarrow> routed b rm (with_request config msg) uri (Inr (Some h)))"

text \<open>Writing to a client leaves the table of memes alone.\<close>

definition socket_apart :: "'w sqlite_view \<Rightarrow> 'w socket_api \<Rightarrow> bool" where
  "socket_apart v sock \<longleftrightarrow> (\<forall>w. (\<forall>text. v_table v (snd (so_write sock text w)) = v_table v w) \<and>
     v_table v (snd (so_shutdown sock w)) = v_table v w \<and> v_table v (snd (so_close sock w)) = v_table v w)"

lemma write_string_table:
  assumes "socket_apart v sock" and "write_string sock text w = (out, w')"
  shows "v_table v w' = v_table v w"
proof -
  obtain ok w1 where 1: "so_write sock text w = (ok, w1)" by fastforce
  obtain ec w2 where 2: "so_shutdown sock w1 = (ec, w2)" by fastforce
  obtain ok' w3 where 3: "so_close sock w2 = (ok', w3)" by fastforce
  have "v_table v w1 = v_table v w" "v_table v w2 = v_table v w1" "v_table v w3 = v_table v w2"
    using assms(1) 1 2 3 unfolding socket_apart_def by (metis snd_conv)+
  with assms(2) 1 2 3 show ?thesis by (auto simp: write_string_def split: if_splits)
qed

text \<open>A call that returns had an address, and wrote the reply of the handler or the 404 page.\<close>

lemma handled_cases:
  assumes b: "boost_documented (env_boost e)" "length msg < 2 ^ 32" "acceptable msg"
    and routed: "routed (env_boost e) (counters d) (with_request config msg)
      (m_uri (accepted_request msg)) (Inr (Some h))"
    and run: "handle_request e sock (with_request config msg) d w = Some (Inr z, s', d', w')"
  obtains a w1 str where "handler_HandleRequest e h (accepted_request msg) w = Some (Inr a, w1)"
    and "reply_ToString (case a of None \<Rightarrow> not_found_reply | Some r \<Rightarrow> r) = Inr str"
    and "write_string sock str w1 = (Inr (), w')"
proof -
  obtain ip where ip: "so_remote_address sock w = Some ip"
    using run by (auto simp: handle_request_def split: sum.splits option.splits)
  obtain s1 where "handle_request e sock (with_request config msg) d w =
     (case handler_HandleRequest e h (accepted_request msg) w of
        None \<Rightarrow> None
      | Some (Inl f, w') \<Rightarrow> Some (Inl f, s1, d, w')
      | Some (Inr a, w') \<Rightarrow>
          (case send_reply sock ip (accepted_request msg) (case a of None \<Rightarrow> not_found_reply | Some r \<Rightarrow> r) d w' of
             (out, d', w'') \<Rightarrow> Some (out, s1, d', w'')))"
    using request_routed_cases [where s = "with_request config msg", unfolded with_request_fields, OF b ip routed]
    by blast
  with run obtain a w1 where a: "handler_HandleRequest e h (accepted_request msg) w = Some (Inr a, w1)"
    and send: "send_reply sock ip (accepted_request msg) (case a of None \<Rightarrow> not_found_reply | Some r \<Rightarrow> r) d w1 = (Inr z, d', w')"
    by (auto split: option.splits sum.splits prod.splits)
  from send_reply_sent [OF send] that [OF a] show thesis by metis
qed



text \<open>What a call that returns has done with a submitted form.\<close>

lemma form_session:
  assumes b: "boost_documented (env_boost e)" "length msg < 2 ^ 32" "acceptable msg"
    and doc: "sqlite_documented (env_sql e) v" "queries_succeed (env_sql e) v"
    and apart: "socket_apart v sock" and routes: "routes_to (env_boost e) config ''/meme/'' (Memes h)"
    and h: "mh_uri_prefix h = ''/meme''" and t: "v_table v w = Some t" "small_ids t"
    and q: "m_uri (accepted_request msg) = ''/meme/create''" "map to_lower (m_method (accepted_request msg)) = ''post''"
      "map_at [] (m_params (accepted_request msg)) ''update'' = []"
    and n: "atoi (c_str (map_at [] (m_params (accepted_request msg)) ''template_id'')) = Inr n" "0 \<le> n" "n \<le> int_max"
    and run: "handle_request e sock (with_request config msg) d w = Some (Inr z, s', d', w')"
  shows "(\<exists>w1. write_string sock not_found_text w1 = (Inr (), w') \<and> v_table v w' = Some t) \<or>
    (\<exists>i w1. t i = None \<and> 0 < i \<and> i \<le> int_max \<and>
      write_string sock (redirect_text (view_location i)) w1 = (Inr (), w') \<and>
      v_table v w' = Some (t(i \<mapsto> (n,
        Some (c_str (pseudoDecode (map_at [] (m_params (accepted_request msg)) ''top_text''))),
        Some (c_str (pseudoDecode (map_at [] (m_params (accepted_request msg)) ''bottom_text'')))))))"
proof -
  let ?q = "accepted_request msg"
  have "prefix ''/meme/'' ''/meme/create''" by simp
  then have "routed (env_boost e) (counters d) (with_request config msg) (m_uri ?q) (Inr (Some (Memes h)))"
    using routes unfolding routes_to_def q(1) by blast
  from handled_cases [OF b this run] obtain ans w1 str where
    ans: "MemeHandler_HandleRequest (env_boost e) (env_files e) (env_sql e) (env_stack e) h ?q w = Some (Inr ans, w1)"
    and str: "reply_ToString (case ans of None \<Rightarrow> not_found_reply | Some r \<Rightarrow> r) = Inr str"
    and wr: "write_string sock str w1 = (Inr (), w')"
    by auto
  note t' = write_string_table [OF apart wr]
  from create_request [OF doc b(1) t h q n ans] show ?thesis
  proof (elim disjE exE conjE)
    assume "ans = None" "v_table v w1 = Some t"
    with str wr t' show ?thesis by (auto simp: fixed_texts)
  next
    fix i
    assume i: "t i = None" "0 < i" "i \<le> int_max" and r: "ans = Some (redirect_reply (''/meme/view?id='' @ to_string i))"
      and row: "v_table v w1 = Some (t(i \<mapsto> (sint (word_of_int n :: uint32_t),
        Some (c_str (pseudoDecode (map_at [] (m_params ?q) ''top_text''))),
        Some (c_str (pseudoDecode (map_at [] (m_params ?q) ''bottom_text''))))))"
    from r str have "str = redirect_text (view_location i)" by (simp add: fixed_texts view_location_def)
    with i wr t' row id_as_int [OF n(2,3)] show ?thesis by auto
  qed
qed

lemma create_accepted:
  assumes "list_all head_line headers"
  shows "acceptable (request_text ''POST'' ''/meme/create'' headers body)"
    and "m_uri (accepted_request (request_text ''POST'' ''/meme/create'' headers body)) = ''/meme/create''"
    and "map to_lower (m_method (accepted_request (request_text ''POST'' ''/meme/create'' headers body))) = ''post''"
    and "m_params (accepted_request (request_text ''POST'' ''/meme/create'' headers body)) = params_loop [] body"
proof -
  have "map to_lower ''POST'' = ''post''" by code_simp
  then show "map to_lower (m_method (accepted_request (request_text ''POST'' ''/meme/create'' headers body))) = ''post''"
    by (simp add: request_text_accepted [OF create_head [OF assms]])
qed (simp_all add: request_text_accepted [OF create_head [OF assms]])



text \<open>A session reads once, when it starts; what later reads would give makes no difference.\<close>

lemma session_start_new:
  "so_read_until sock crlf2 w = ((ec, msg), w1) \<Longrightarrow>
   Session_start e sock (new_Session config) d w = handle_request e sock (with_request config msg) d w1"
  by (simp add: Session_start_def with_request_def new_Session_def)

lemma reads_apart [simp]:
  "write_string (sock\<lparr>so_read_until := rd\<rparr>) = write_string sock"
  "send_reply (sock\<lparr>so_read_until := rd\<rparr>) = send_reply sock"
  "handle_request e (sock\<lparr>so_read_until := rd\<rparr>) = handle_request e sock"
proof -
  have fields: "so_write (sock\<lparr>so_read_until := rd\<rparr>) = so_write sock" "so_shutdown (sock\<lparr>so_read_until := rd\<rparr>) = so_shutdown sock"
    "so_close (sock\<lparr>so_read_until := rd\<rparr>) = so_close sock"
    "so_remote_address (sock\<lparr>so_read_until := rd\<rparr>) = so_remote_address sock" by simp_all
  show writes: "write_string (sock\<lparr>so_read_until := rd\<rparr>) = write_string sock"
    unfolding write_string_def [abs_def] fields ..
  show sends: "send_reply (sock\<lparr>so_read_until := rd\<rparr>) = send_reply sock"
    unfolding send_reply_def [abs_def] writes ..
  show "handle_request e (sock\<lparr>so_read_until := rd\<rparr>) = handle_request e sock"
    unfolding handle_request_def [abs_def] sends fields ..
qed

lemma session_reads_once:
  "Session_start e (sock\<lparr>so_read_until := (\<lambda>delim u. if u = w then so_read_until sock delim u else later delim u)\<rparr>) s d w =
   Session_start e sock s d w"
  by (simp add: Session_start_def)

section \<open>A sample service\<close>

definition meme_block :: NginxConfig where
  "meme_block = Config [Statement [''name'', ''meme''] None, Statement [''location'', ''/meme''] None,
     Statement [''root'', ''/static/memes''] None]"

definition meme_config :: NginxConfig where
  "meme_config = Config [Statement [''root'', ''.''] None, Statement [''handler''] (Some meme_block)]"

lemma meme_routes: "routes_to boost_model meme_config ''/meme/'' (Memes sample_memes)"
  unfolding routes_to_def
proof (intro allI impI)
  fix rm msg uri
  assume uri: "prefix ''/meme/'' uri"
  have finds: "FindBlocks boost_model meme_config ''handler'' = Inr [meme_block]"
    "Find boost_model meme_config ''root'' = Inr ''.''"
    "Find boost_model meme_block ''location'' = Inr ''/meme''"
    "Find boost_model meme_block ''name'' = Inr ''meme''"
    "MemeHandler_Init boost_model meme_block ''.'' = Inr sample_memes"
    by code_simp+
  have blocks: "\<forall>c \<in> set [meme_block]. readable_block boost_model (\<lambda>c. ''/meme'') (\<lambda>c. ''meme'') c"
    by (simp add: readable_block_def finds)
  have "best (\<lambda>c. ''/meme'') uri [meme_block] meme_block"
    using uri unfolding best_def by (intro exI [of _ "[]"]) (auto simp: matches_def prefix_def)
  from routedI [OF _ blocks this, of "with_request meme_config msg" "''.''" rm]
  show "routed boost_model rm (with_request meme_config msg) uri (Inr (Some (Memes sample_memes)))"
    by (simp add: finds createByName_def create_defs)
qed


lemma mem_delivering_apart: "socket_apart mem_view (delivering msg)"
  by (simp add: socket_apart_def delivering_def sample_socket_def)

definition show_template :: "piece list" where
  "show_template = [Text ''<body>'', Mark ''not-found'', Mark ''meme'', Text ''</body>'']"

definition meme_files :: file_env where
  "meme_files = sample_files\<lparr>file_text :=
     [''./static/memes/partials/_meme.html'' \<mapsto> page_text meme_partial, ''./static/memes/show.html'' \<mapsto> page_text show_template]\<rparr>"

definition meme_env :: "mem_world server_env" where
  "meme_env = sample_env\<lparr>env_files := meme_files\<rparr>"


lemma sample_parts:
  "env_boost meme_env = boost_model" "env_files meme_env = meme_files" "env_sql meme_env = mem_api"
  by (simp_all add: meme_env_def sample_env_def)

definition meme_world :: mem_world where
  "meme_world = empty_world\<lparr>m_table := Some []\<rparr>"

lemma meme_world_table: "v_table mem_view meme_world = Some Map.empty" "small_ids Map.empty"
  by (simp_all add: mem_view_def small_ids_def meme_world_def)

text \<open>Two calls that return: with the whole form in the buffer, and with the head alone.\<close>

definition sample_form :: string where
  "sample_form = create_text [''Host: h''] 2 ''hi+there'' ''x''"

definition sample_head :: string where
  "sample_head = request_text ''POST'' ''/meme/create'' [''Host: h''] []"

lemma sample_lengths: "length sample_form < 2 ^ 32" "length sample_head < 2 ^ 32"
proof -
  have "length sample_form \<le> 150" "length sample_head \<le> 150" by code_simp+
  then show "length sample_form < 2 ^ 32" "length sample_head < 2 ^ 32" by simp_all
qed

lemma returned_value:
  "(case x of Some (Inr z, s', d', w') \<Rightarrow> P w' | _ \<Rightarrow> False) \<Longrightarrow> \<exists>z s' d' w'. x = Some (Inr z, s', d', w') \<and> P w'"
  by (auto split: option.splits prod.splits sum.splits)

lemma sample_returns:
  "\<exists>z s' d' w'. handle_request meme_env sample_socket (with_request meme_config sample_form) fresh_data meme_world =
     Some (Inr z, s', d', w') \<and> m_table w' \<noteq> Some []"
  "\<exists>z s' d' w'. Session_start meme_env (delivering sample_head) (new_Session meme_config) fresh_data meme_world =
     Some (Inr z, s', d', w') \<and> m_table w' \<noteq> Some []"
  by (rule returned_value, code_simp)+

section \<open>Properties\<close>



text \<open>
  Claim C28. A body that comes late is lost. The session starts by reading until the empty line;
  when that read delivers the head of a POST to /meme/create and nothing more, no further read
  is made, whatever the client still sends: if the callback returns, it has sent either the 404
  page and left the table as it was, or the redirect to a new meme with template 0 and two empty
  texts, and has read from the socket just once.
\<close>

theorem late_body_lost:
  "boost_documented (env_boost e) \<Longrightarrow> sqlite_documented (env_sql e) v \<Longrightarrow> queries_succeed (env_sql e) v \<Longrightarrow>
   socket_apart v sock \<Longrightarrow> routes_to (env_boost e) config ''/meme/'' (Memes h) \<Longrightarrow> mh_uri_prefix h = ''/meme'' \<Longrightarrow>
   so_read_until sock crlf2 w = ((ec, request_text ''POST'' ''/meme/create'' headers []), w1) \<Longrightarrow>
   v_table v w1 = Some t \<Longrightarrow> small_ids t \<Longrightarrow> list_all head_line headers \<Longrightarrow>
   length (request_text ''POST'' ''/meme/create'' headers []) < 2 ^ 32 \<Longrightarrow>
   Session_start e sock (new_Session config) d w = Some (Inr z, s', d', w') \<Longrightarrow>
   ((\<exists>w2. write_string sock not_found_text w2 = (Inr (), w') \<and> v_table v w' = Some t) \<or>
    (\<exists>i w2. t i = None \<and> write_string sock (redirect_text (view_location i)) w2 = (Inr (), w') \<and>
      v_table v w' = Some (t(i \<mapsto> (0, Some [], Some []))))) \<and>
   (\<forall>later. Session_start e (sock\<lparr>so_read_until := (\<lambda>delim u. if u = w then so_read_until sock delim u else later delim u)\<rparr>)
      (new_Session config) d w = Some (Inr z, s', d', w'))"
proof -
  assume b: "boost_documented (env_boost e)" and doc: "sqlite_documented (env_sql e) v" "queries_succeed (env_sql e) v"
    and apart: "socket_apart v sock" and routes: "routes_to (env_boost e) config ''/meme/'' (Memes h)"
    and h: "mh_uri_prefix h = ''/meme''"
    and read: "so_read_until sock crlf2 w = ((ec, request_text ''POST'' ''/meme/create'' headers []), w1)"
    and t: "v_table v w1 = Some t" "small_ids t"
    and headers: "list_all head_line headers"
    and len: "length (request_text ''POST'' ''/meme/create'' headers []) < 2 ^ 32"
    and run: "Session_start e sock (new_Session config) d w = Some (Inr z, s', d', w')"
  note accepted = create_accepted [OF headers, of "[]"]
  have empty: "map_at [] (params_loop [] []) k = []" "c_str [] = []" "pseudoDecode [] = []" "atoi [] = Inr 0" for k
    by code_simp+
  have range: "(0::int) \<le> 0" "0 \<le> int_max" by (simp_all add: int_max_def)
  have "handle_request e sock (with_request config (request_text ''POST'' ''/meme/create'' headers [])) d w1 =
      Some (Inr z, s', d', w')"
    using run by (simp add: session_start_new [OF read])
  from form_session [OF b len accepted(1) doc apart routes h t accepted(2,3) _ _ range this,
      unfolded accepted(4) empty, OF refl refl]
  have "(\<exists>w2. write_string sock not_found_text w2 = (Inr (), w') \<and> v_table v w' = Some t) \<or>
    (\<exists>i w2. t i = None \<and> write_string sock (redirect_text (view_location i)) w2 = (Inr (), w') \<and>
      v_table v w' = Some (t(i \<mapsto> (0, Some [], Some []))))" by blast
  moreover have "Session_start e (sock\<lparr>so_read_until := (\<lambda>delim u. if u = w then so_read_until sock delim u else later delim u)\<rparr>)
      (new_Session config) d w = Some (Inr z, s', d', w')" for later
    using run by (rule session_reads_once [THEN trans])
  ultimately show ?thesis by blast
qed

theorem late_body_lost_witness:
  "\<exists>i w' s' z d'. Session_start meme_env (delivering sample_head) (new_Session meme_config) fresh_data meme_world =
         Some (Inr z, s', d', w') \<and>
     v_table mem_view w' = Some [i \<mapsto> (0, Some [], Some [])]"
proof -
  obtain z s' d' w' where run: "Session_start meme_env (delivering sample_head) (new_Session meme_config) fresh_data meme_world =
         Some (Inr z, s', d', w')"
    and new: "m_table w' \<noteq> Some []"
    using sample_returns(2) by blast
  have table: "v_table mem_view w' \<noteq> Some Map.empty" using new by (auto simp: mem_view_def)
  have hyps: "list_all head_line [''Host: h'']" "mh_uri_prefix sample_memes = ''/meme''" by code_simp+
  have read: "so_read_until (delivering sample_head) crlf2 meme_world = ((Success, sample_head), meme_world)"
    by (simp add: delivering_def)
  from late_body_lost [where e = meme_env, unfolded sample_parts, OF boost_model_documented mem_documented
      mem_queries_succeed mem_delivering_apart meme_routes hyps(2) read [unfolded sample_head_def] meme_world_table hyps(1)
      sample_lengths(2) [unfolded sample_head_def] run [unfolded sample_head_def]] run table
  show ?thesis by blast
qed

end
