(* ===== verification/Sqlite_Constants.thy ===== *)
theory Sqlite_Constants
  imports Sqlite_Codes
begin

text \<open>
  The other constants of \<open>include/sqlite3.h\<close>, family by family, by name and value and in the
  order of the header: sets of flags, which the calls take or return combined by a bitwise or,
  and enumerations. The lemmas show that the names of a family can be read back: a set of flags
  from its combination, a member of an enumeration from its number.
\<close>

unbundle bit_operations_syntax

section \<open>Flags\<close>

definition open_flags :: "(string \<times> int) list" where
  "open_flags =
    [(''SQLITE_OPEN_READONLY'', 0x00000001),
     (''SQLITE_OPEN_READWRITE'', 0x00000002),
     (''SQLITE_OPEN_CREATE'', 0x00000004),
     (''SQLITE_OPEN_DELETEONCLOSE'', 0x00000008),
     (''SQLITE_OPEN_EXCLUSIVE'', 0x00000010),
     (''SQLITE_OPEN_AUTOPROXY'', 0x00000020),
     (''SQLITE_OPEN_URI'', 0x00000040),
     (''SQLITE_OPEN_MEMORY'', 0x00000080),
     (''SQLITE_OPEN_MAIN_DB'', 0x00000100),
     (''SQLITE_OPEN_TEMP_DB'', 0x00000200),
     (''SQLITE_OPEN_TRANSIENT_DB'', 0x00000400),
     (''SQLITE_OPEN_MAIN_JOURNAL'', 0x00000800),
     (''SQLITE_OPEN_TEMP_JOURNAL'', 0x00001000),
     (''SQLITE_OPEN_SUBJOURNAL'', 0x00002000),
     (''SQLITE_OPEN_MASTER_JOURNAL'', 0x00004000),
     (''SQLITE_OPEN_NOMUTEX'', 0x00008000),
     (''SQLITE_OPEN_FULLMUTEX'', 0x00010000),
     (''SQLITE_OPEN_SHAREDCACHE'', 0x00020000),
     (''SQLITE_OPEN_PRIVATECACHE'', 0x00040000),
     (''SQLITE_OPEN_WAL'', 0x00080000)]"

definition io_capabilities :: "(string \<times> int) list" where
  "io_capabilities =
    [(''SQLITE_IOCAP_ATOMIC'', 0x00000001),
     (''SQLITE_IOCAP_ATOMIC512'', 0x00000002),
     (''SQLITE_IOCAP_ATOMIC1K'', 0x00000004),
     (''SQLITE_IOCAP_ATOMIC2K'', 0x00000008),
     (''SQLITE_IOCAP_ATOMIC4K'', 0x00000010),
     (''SQLITE_IOCAP_ATOMIC8K'', 0x00000020),
     (''SQLITE_IOCAP_ATOMIC16K'', 0x00000040),
     (''SQLITE_IOCAP_ATOMIC32K'', 0x00000080),
     (''SQLITE_IOCAP_ATOMIC64K'', 0x00000100),
     (''SQLITE_IOCAP_SAFE_APPEND'', 0x00000200),
     (''SQLITE_IOCAP_SEQUENTIAL'', 0x00000400),
     (''SQLITE_IOCAP_UNDELETABLE_WHEN_OPEN'', 0x00000800),
     (''SQLITE_IOCAP_POWERSAFE_OVERWRITE'', 0x00001000),
     (''SQLITE_IOCAP_IMMUTABLE'', 0x00002000),
     (''SQLITE_IOCAP_BATCH_ATOMIC'', 0x00004000)]"

definition shm_flags :: "(string \<times> int) list" where
  "shm_flags =
    [(''SQLITE_SHM_UNLOCK'', 1),
     (''SQLITE_SHM_LOCK'', 2),
     (''SQLITE_SHM_SHARED'', 4),
     (''SQLITE_SHM_EXCLUSIVE'', 8)]"

definition trace_events :: "(string \<times> int) list" where
  "trace_events =
    [(''SQLITE_TRACE_STMT'', 0x01),
     (''SQLITE_TRACE_PROFILE'', 0x02),
     (''SQLITE_TRACE_ROW'', 0x04),
     (''SQLITE_TRACE_CLOSE'', 0x08)]"

section \<open>Enumerations\<close>

definition lock_levels :: "(string \<times> int) list" where
  "lock_levels =
    [(''SQLITE_LOCK_NONE'', 0),
     (''SQLITE_LOCK_SHARED'', 1),
     (''SQLITE_LOCK_RESERVED'', 2),
     (''SQLITE_LOCK_PENDING'', 3),
     (''SQLITE_LOCK_EXCLUSIVE'', 4)]"

definition file_controls :: "(string \<times> int) list" where
  "file_controls =
    [(''SQLITE_FCNTL_LOCKSTATE'', 1),
     (''SQLITE_FCNTL_GET_LOCKPROXYFILE'', 2),
     (''SQLITE_FCNTL_SET_LOCKPROXYFILE'', 3),
     (''SQLITE_FCNTL_LAST_ERRNO'', 4),
     (''SQLITE_FCNTL_SIZE_HINT'', 5),
     (''SQLITE_FCNTL_CHUNK_SIZE'', 6),
     (''SQLITE_FCNTL_FILE_POINTER'', 7),
     (''SQLITE_FCNTL_SYNC_OMITTED'', 8),
     (''SQLITE_FCNTL_WIN32_AV_RETRY'', 9),
     (''SQLITE_FCNTL_PERSIST_WAL'', 10),
     (''SQLITE_FCNTL_OVERWRITE'', 11),
     (''SQLITE_FCNTL_VFSNAME'', 12),
     (''SQLITE_FCNTL_POWERSAFE_OVERWRITE'', 13),
     (''SQLITE_FCNTL_PRAGMA'', 14),
     (''SQLITE_FCNTL_BUSYHANDLER'', 15),
     (''SQLITE_FCNTL_TEMPFILENAME'', 16),
     (''SQLITE_FCNTL_MMAP_SIZE'', 18),
     (''SQLITE_FCNTL_TRACE'', 19),
     (''SQLITE_FCNTL_HAS_MOVED'', 20),
     (''SQLITE_FCNTL_SYNC'', 21),
     (''SQLITE_FCNTL_COMMIT_PHASETWO'', 22),
     (''SQLITE_FCNTL_WIN32_SET_HANDLE'', 23),
     (''SQLITE_FCNTL_WAL_BLOCK'', 24),
     (''SQLITE_FCNTL_ZIPVFS'', 25),
     (''SQLITE_FCNTL_RBU'', 26),
     (''SQLITE_FCNTL_VFS_POINTER'', 27),
     (''SQLITE_FCNTL_JOURNAL_POINTER'', 28),
     (''SQLITE_FCNTL_WIN32_GET_HANDLE'', 29),
     (''SQLITE_FCNTL_PDB'', 30),
     (''SQLITE_FCNTL_BEGIN_ATOMIC_WRITE'', 31),
     (''SQLITE_FCNTL_COMMIT_ATOMIC_WRITE'', 32),
     (''SQLITE_FCNTL_ROLLBACK_ATOMIC_WRITE'', 33)]"

definition access_modes :: "(string \<times> int) list" where
  "access_modes =
    [(''SQLITE_ACCESS_EXISTS'', 0),
     (''SQLITE_ACCESS_READWRITE'', 1),
     (''SQLITE_ACCESS_READ'', 2)]"

definition config_options :: "(string \<times> int) list" where
  "config_options =
    [(''SQLITE_CONFIG_SINGLETHREAD'', 1),
     (''SQLITE_CONFIG_MULTITHREAD'', 2),
     (''SQLITE_CONFIG_SERIALIZED'', 3),
     (''SQLITE_CONFIG_MALLOC'', 4),
     (''SQLITE_CONFIG_GETMALLOC'', 5),
     (''SQLITE_CONFIG_SCRATCH'', 6),
     (''SQLITE_CONFIG_PAGECACHE'', 7),
     (''SQLITE_CONFIG_HEAP'', 8),
     (''SQLITE_CONFIG_MEMSTATUS'', 9),
     (''SQLITE_CONFIG_MUTEX'', 10),
     (''SQLITE_CONFIG_GETMUTEX'', 11),
     (''SQLITE_CONFIG_LOOKASIDE'', 13),
     (''SQLITE_CONFIG_PCACHE'', 14),
     (''SQLITE_CONFIG_GETPCACHE'', 15),
     (''SQLITE_CONFIG_LOG'', 16),
     (''SQLITE_CONFIG_URI'', 17),
     (''SQLITE_CONFIG_PCACHE2'', 18),
     (''SQLITE_CONFIG_GETPCACHE2'', 19),
     (''SQLITE_CONFIG_COVERING_INDEX_SCAN'', 20),
     (''SQLITE_CONFIG_SQLLOG'', 21),
     (''SQLITE_CONFIG_MMAP_SIZE'', 22),
     (''SQLITE_CONFIG_WIN32_HEAPSIZE'', 23),
     (''SQLITE_CONFIG_PCACHE_HDRSZ'', 24),
     (''SQLITE_CONFIG_PMASZ'', 25),
     (''SQLITE_CONFIG_STMTJRNL_SPILL'', 26),
     (''SQLITE_CONFIG_SMALL_MALLOC'', 27)]"

definition db_config_options :: "(string \<times> int) list" where
  "db_config_options =
    [(''SQLITE_DBCONFIG_MAINDBNAME'', 1000),
     (''SQLITE_DBCONFIG_LOOKASIDE'', 1001),
     (''SQLITE_DBCONFIG_ENABLE_FKEY'', 1002),
     (''SQLITE_DBCONFIG_ENABLE_TRIGGER'', 1003),
     (''SQLITE_DBCONFIG_ENABLE_FTS3_TOKENIZER'', 1004),
     (''SQLITE_DBCONFIG_ENABLE_LOAD_EXTENSION'', 1005),
     (''SQLITE_DBCONFIG_NO_CKPT_ON_CLOSE'', 1006),
     (''SQLITE_DBCONFIG_ENABLE_QPSG'', 1007),
     (''SQLITE_DBCONFIG_TRIGGER_EQP'', 1008)]"

definition authorizer_actions :: "(string \<times> int) list" where
  "authorizer_actions =
    [(''SQLITE_CREATE_INDEX'', 1),
     (''SQLITE_CREATE_TABLE'', 2),
     (''SQLITE_CREATE_TEMP_INDEX'', 3),
     (''SQLITE_CREATE_TEMP_TABLE'', 4),
     (''SQLITE_CREATE_TEMP_TRIGGER'', 5),
     (''SQLITE_CREATE_TEMP_VIEW'', 6),
     (''SQLITE_CREATE_TRIGGER'', 7),
     (''SQLITE_CREATE_VIEW'', 8),
     (''SQLITE_DELETE'', 9),
     (''SQLITE_DROP_INDEX'', 10),
     (''SQLITE_DROP_TABLE'', 11),
     (''SQLITE_DROP_TEMP_INDEX'', 12),
     (''SQLITE_DROP_TEMP_TABLE'', 13),
     (''SQLITE_DROP_TEMP_TRIGGER'', 14),
     (''SQLITE_DROP_TEMP_VIEW'', 15),
     (''SQLITE_DROP_TRIGGER'', 16),
     (''SQLITE_DROP_VIEW'', 17),
     (''SQLITE_INSERT'', 18),
     (''SQLITE_PRAGMA'', 19),
     (''SQLITE_READ'', 20),
     (''SQLITE_SELECT'', 21),
     (''SQLITE_TRANSACTION'', 22),
     (''SQLITE_UPDATE'', 23),
     (''SQLITE_ATTACH'', 24),
     (''SQLITE_DETACH'', 25),
     (''SQLITE_ALTER_TABLE'', 26),
     (''SQLITE_REINDEX'', 27),
     (''SQLITE_ANALYZE'', 28),
     (''SQLITE_CREATE_VTABLE'', 29),
     (''SQLITE_DROP_VTABLE'', 30),
     (''SQLITE_FUNCTION'', 31),
     (''SQLITE_SAVEPOINT'', 32),
     (''SQLITE_COPY'', 0),
     (''SQLITE_RECURSIVE'', 33)]"

definition limit_categories :: "(string \<times> int) list" where
  "limit_categories =
    [(''SQLITE_LIMIT_LENGTH'', 0),
     (''SQLITE_LIMIT_SQL_LENGTH'', 1),
     (''SQLITE_LIMIT_COLUMN'', 2),
     (''SQLITE_LIMIT_EXPR_DEPTH'', 3),
     (''SQLITE_LIMIT_COMPOUND_SELECT'', 4),
     (''SQLITE_LIMIT_VDBE_OP'', 5),
     (''SQLITE_LIMIT_FUNCTION_ARG'', 6),
     (''SQLITE_LIMIT_ATTACHED'', 7),
     (''SQLITE_LIMIT_LIKE_PATTERN_LENGTH'', 8),
     (''SQLITE_LIMIT_VARIABLE_NUMBER'', 9),
     (''SQLITE_LIMIT_TRIGGER_DEPTH'', 10),
     (''SQLITE_LIMIT_WORKER_THREADS'', 11)]"

definition text_encodings :: "(string \<times> int) list" where
  "text_encodings =
    [(''SQLITE_UTF8'', 1),
     (''SQLITE_UTF16LE'', 2),
     (''SQLITE_UTF16BE'', 3),
     (''SQLITE_UTF16'', 4),
     (''SQLITE_ANY'', 5),
     (''SQLITE_UTF16_ALIGNED'', 8)]"

definition index_constraints :: "(string \<times> int) list" where
  "index_constraints =
    [(''SQLITE_INDEX_CONSTRAINT_EQ'', 2),
     (''SQLITE_INDEX_CONSTRAINT_GT'', 4),
     (''SQLITE_INDEX_CONSTRAINT_LE'', 8),
     (''SQLITE_INDEX_CONSTRAINT_LT'', 16),
     (''SQLITE_INDEX_CONSTRAINT_GE'', 32),
     (''SQLITE_INDEX_CONSTRAINT_MATCH'', 64),
     (''SQLITE_INDEX_CONSTRAINT_LIKE'', 65),
     (''SQLITE_INDEX_CONSTRAINT_GLOB'', 66),
     (''SQLITE_INDEX_CONSTRAINT_REGEXP'', 67),
     (''SQLITE_INDEX_CONSTRAINT_NE'', 68),
     (''SQLITE_INDEX_CONSTRAINT_ISNOT'', 69),
     (''SQLITE_INDEX_CONSTRAINT_ISNOTNULL'', 70),
     (''SQLITE_INDEX_CONSTRAINT_ISNULL'', 71),
     (''SQLITE_INDEX_CONSTRAINT_IS'', 72)]"

definition status_parameters :: "(string \<times> int) list" where
  "status_parameters =
    [(''SQLITE_STATUS_MEMORY_USED'', 0),
     (''SQLITE_STATUS_PAGECACHE_USED'', 1),
     (''SQLITE_STATUS_PAGECACHE_OVERFLOW'', 2),
     (''SQLITE_STATUS_SCRATCH_USED'', 3),
     (''SQLITE_STATUS_SCRATCH_OVERFLOW'', 4),
     (''SQLITE_STATUS_MALLOC_SIZE'', 5),
     (''SQLITE_STATUS_PARSER_STACK'', 6),
     (''SQLITE_STATUS_PAGECACHE_SIZE'', 7),
     (''SQLITE_STATUS_SCRATCH_SIZE'', 8),
     (''SQLITE_STATUS_MALLOC_COUNT'', 9)]"

definition db_status_parameters :: "(string \<times> int) list" where
  "db_status_parameters =
    [(''SQLITE_DBSTATUS_LOOKASIDE_USED'', 0),
     (''SQLITE_DBSTATUS_CACHE_USED'', 1),
     (''SQLITE_DBSTATUS_SCHEMA_USED'', 2),
     (''SQLITE_DBSTATUS_STMT_USED'', 3),
     (''SQLITE_DBSTATUS_LOOKASIDE_HIT'', 4),
     (''SQLITE_DBSTATUS_LOOKASIDE_MISS_SIZE'', 5),
     (''SQLITE_DBSTATUS_LOOKASIDE_MISS_FULL'', 6),
     (''SQLITE_DBSTATUS_CACHE_HIT'', 7),
     (''SQLITE_DBSTATUS_CACHE_MISS'', 8),
     (''SQLITE_DBSTATUS_CACHE_WRITE'', 9),
     (''SQLITE_DBSTATUS_DEFERRED_FKS'', 10),
     (''SQLITE_DBSTATUS_CACHE_USED_SHARED'', 11)]"

definition stmt_status_counters :: "(string \<times> int) list" where
  "stmt_status_counters =
    [(''SQLITE_STMTSTATUS_FULLSCAN_STEP'', 1),
     (''SQLITE_STMTSTATUS_SORT'', 2),
     (''SQLITE_STMTSTATUS_AUTOINDEX'', 3),
     (''SQLITE_STMTSTATUS_VM_STEP'', 4),
     (''SQLITE_STMTSTATUS_REPREPARE'', 5),
     (''SQLITE_STMTSTATUS_RUN'', 6),
     (''SQLITE_STMTSTATUS_MEMUSED'', 99)]"

definition checkpoint_modes :: "(string \<times> int) list" where
  "checkpoint_modes =
    [(''SQLITE_CHECKPOINT_PASSIVE'', 0),
     (''SQLITE_CHECKPOINT_FULL'', 1),
     (''SQLITE_CHECKPOINT_RESTART'', 2),
     (''SQLITE_CHECKPOINT_TRUNCATE'', 3)]"

definition scan_status_fields :: "(string \<times> int) list" where
  "scan_status_fields =
    [(''SQLITE_SCANSTAT_NLOOP'', 0),
     (''SQLITE_SCANSTAT_NVISIT'', 1),
     (''SQLITE_SCANSTAT_EST'', 2),
     (''SQLITE_SCANSTAT_NAME'', 3),
     (''SQLITE_SCANSTAT_EXPLAIN'', 4),
     (''SQLITE_SCANSTAT_SELECTID'', 5)]"

text \<open>
  The types a column can have. \<open>SQLITE_TEXT\<close> is undefined again when version 2 of the library
  has defined it, and then only \<open>SQLITE3_TEXT\<close> is left.
\<close>

definition column_types :: "bool \<Rightarrow> (string \<times> int) list" where
  "column_types version_2 =
    [(''SQLITE_INTEGER'', 1), (''SQLITE_FLOAT'', 2), (''SQLITE_BLOB'', 4), (''SQLITE_NULL'', 5)] @
    (if version_2 then [] else [(''SQLITE_TEXT'', 3)]) @
    [(''SQLITE3_TEXT'', 3)]"

section \<open>Sets of flags are read back\<close>

definition combine :: "int list \<Rightarrow> int" where
  "combine vs = foldr (OR) vs 0"

definition flags_in :: "(string \<times> int) list \<Rightarrow> int \<Rightarrow> string list" where
  "flags_in family v = map fst (filter (\<lambda>(name, b). v AND b \<noteq> 0) family)"

text \<open>A family of flags: every value is a single bit, and no two have the same one.\<close>

definition single_bits :: "(string \<times> int) list \<Rightarrow> bool" where
  "single_bits family \<longleftrightarrow> distinct (map snd family) \<and>
     (\<forall>b \<in> set (map snd family). b \<in> (\<lambda>k. 2 ^ k) ` {..<31})"

lemma combine_simps [simp]: "combine [] = 0" "combine (v # vs) = v OR combine vs"
  by (simp_all add: combine_def)

lemma power_bits: "(2 ^ i AND 2 ^ j :: int) = (if i = j then 2 ^ i else 0)"
  by (rule bit_eqI) (auto simp: bit_simps)

lemma and_combine:
  assumes "\<forall>v \<in> set vs. \<exists>j. v = 2 ^ j"
  shows "combine vs AND 2 ^ k \<noteq> 0 \<longleftrightarrow> 2 ^ k \<in> set vs"
  using assms
proof (induction vs)
  case (Cons v vs)
  then obtain j where v: "v = 2 ^ j" by auto
  have "(v OR combine vs) AND 2 ^ k = (v AND 2 ^ k) OR (combine vs AND 2 ^ k)"
    by (rule bit_eqI) (auto simp: bit_simps)
  moreover have "a OR b = 0 \<longleftrightarrow> a = 0 \<and> b = 0" for a b :: int
    by (metis or_eq_0_iff)
  ultimately show ?case using Cons by (auto simp: v power_bits split: if_splits)
qed simp

lemma flags_read_back:
  assumes "single_bits family" and "set chosen \<subseteq> set family"
  shows "set (flags_in family (combine (map snd chosen))) = fst ` set chosen"
proof -
  have bits: "\<exists>j. b = 2 ^ j" if "b \<in> snd ` set family" for b
    using assms(1) that by (auto simp: single_bits_def)
  have "combine (map snd chosen) AND b \<noteq> 0 \<longleftrightarrow> (name, b) \<in> set chosen" if m: "(name, b) \<in> set family" for name b
  proof -
    obtain j where b: "b = 2 ^ j" using bits m by force
    have inj: "inj_on snd (set family)" using assms(1) by (simp add: single_bits_def distinct_map)
    have "name' = name" if "(name', b) \<in> set family" for name'
      using inj_onD [OF inj _ that m] by simp
    then have "(name', b) \<in> set chosen \<Longrightarrow> (name, b) \<in> set chosen" for name'
      using assms(2) by blast
    then have "b \<in> snd ` set chosen \<longleftrightarrow> (name, b) \<in> set chosen" by force
    moreover have "\<forall>v \<in> set (map snd chosen). \<exists>j. v = 2 ^ j"
      using assms(2) bits by fastforce
    ultimately show ?thesis using and_combine [of "map snd chosen" j] by (simp add: b)
  qed
  with assms(2) show ?thesis by (force simp: flags_in_def)
qed

lemma flag_families: "list_all single_bits [open_flags, io_capabilities, shm_flags, trace_events]"
  by code_simp

section \<open>Members of enumerations are read back\<close>

definition unambiguous :: "(string \<times> int) list \<Rightarrow> bool" where
  "unambiguous family \<longleftrightarrow> distinct (map fst family) \<and> distinct (map snd family)"

lemma number_read_back:
  "unambiguous family \<Longrightarrow> (name, n) \<in> set family \<Longrightarrow>
   map_of family name = Some n \<and> map_of (map (\<lambda>(name, n). (n, name)) family) n = Some name"
  by (force simp: unambiguous_def o_def case_prod_unfold image_iff intro!: map_of_is_SomeI)

lemma enumerations: "list_all unambiguous
   [lock_levels, file_controls, access_modes, config_options, db_config_options, authorizer_actions, limit_categories, text_encodings, index_constraints, status_parameters, db_status_parameters, stmt_status_counters, checkpoint_modes, scan_status_fields]"
  by code_simp

text \<open>Only with version 2 has every type one name.\<close>

lemma column_type_names: "unambiguous (column_types True)" "\<not> unambiguous (column_types False)"
  by code_simp+

end
