(* ===== verification/Spec2Isabelle.thy ===== *)
theory Spec2Isabelle
  imports Config_Query Config_Roundtrip Static_Handler Status_Handler Html_Builder
    Proxy_Exchange Database_Search Database_Refine Meme_Spec Session_Spec Server_Spec Main_Spec Logging
    Single_Thread Meme_Service Sqlite_Constants
begin

text \<open>
  A verification development for the amazon-echo-server, an HTTP server in C++ that is
  configured by a file in the style of nginx.

  \<^bold>\<open>The program.\<close> \<open>main\<close> reads a configuration, prepares the table of memes and starts a
  \<open>Server\<close>. The server accepts connections on one port; every connection is a \<open>Session\<close> that
  reads one request, answers it and closes. To answer, the session parses the text into a
  \<open>Request\<close>, looks for the block of the configuration whose location is the longest prefix of
  the URI, lets the \<open>HandlerManager\<close> make the handler that block names, calls its
  \<open>HandleRequest\<close>, prints the \<open>Reply\<close> and counts the request. The handlers echo, sleep, report
  health or an error, serve files, show the counters (\<open>StatusHandler\<close>), forward to another
  server (\<open>ReverseProxyHandler\<close>) or manage memes in an SQLite database through templates
  (\<open>MemeHandler\<close>, \<open>Database\<close>, \<open>HtmlBuilder\<close>).

  \<^bold>\<open>Theories and sources.\<close> A definition has the name of the function it translates; where a name
  would be ambiguous the class is put in front (\<open>StaticHandler_GetPath\<close>). The fields of an
  object are a record, a method takes it as an argument and returns it changed.

  \<^item> \<open>Prelude\<close>: the ways an operation can fail (\<open>fault\<close>), results that may fail (\<open>outcome\<close>),
    machine integers. \<open>Cpp_String\<close>, \<open>Cpp_Map\<close>: what the code uses of \<open>std::string\<close> and \<open>std::map\<close>.
    \<open>Http_Text\<close>: head lines, empty line and body of a message.
  \<^item> \<open>Boost_Api\<close>: the four Boost functions the code calls, as a parameter.
  \<^item> \<open>Config_Parser\<close> (\<open>src/config_parser.cc\<close>, \<open>include/config_parser.h\<close>): lexer, driver with its
    stack of open blocks, printer, the queries \<open>Find\<close> and \<open>FindBlocks\<close>; \<open>Config_Roundtrip\<close> and
    \<open>Config_Query\<close>: their theorems.
  \<^item> \<open>Request\<close> (\<open>src/request.cc\<close>), \<open>Reply\<close> (\<open>src/reply.cc\<close>) and their headers.
  \<^item> \<open>Handlers\<close> (\<open>src/echo_handler.cc\<close>, \<open>not_found_handler.cc\<close>, \<open>bad_request_handler.cc\<close>,
    \<open>sleep_handler.cc\<close>, \<open>health_check_handler.cc\<close> and \<open>include/handler.h\<close>), \<open>Static_Handler\<close>
    (\<open>src/static_handler.cc\<close>), \<open>Status_Handler\<close> (\<open>src/status_handler.cc\<close> and the counting code of
    \<open>src/session.cc\<close>).
  \<^item> \<open>Reverse_Proxy\<close> (\<open>src/reverse_proxy_handler.cc\<close>); \<open>Proxy_Properties\<close> on the answer it reads,
    \<open>Proxy_Exchange\<close> on whole calls.
  \<^item> \<open>Sqlite_Codes\<close> (the result codes of \<open>include/sqlite3.h\<close>), \<open>Sqlite_Api\<close> (the functions as
    a parameter, and their documented behaviour), \<open>Sqlite_Memory\<close> (an instance of it),
    \<open>Sqlite_Constants\<close> (the flags and enumerations of the header).
  \<^item> \<open>Database\<close> (\<open>src/database.cc\<close>, \<open>include/meme.h\<close>); \<open>Database_Spec\<close>, \<open>Database_Search\<close> on single
    operations, \<open>Database_Refine\<close> on sequences of them.
  \<^item> \<open>Html_Builder\<close> (\<open>src/html_builder.cc\<close>), \<open>Meme_Handler\<close> (\<open>src/meme_handler.cc\<close>), \<open>Meme_Spec\<close>.
  \<^item> \<open>Handler_Manager\<close> (\<open>src/handler_manager.cc\<close>): the sum of the handler classes, the factory
    and the virtual call.
  \<^item> \<open>Session\<close> (\<open>src/session.cc\<close>), \<open>Session_Spec\<close>; \<open>Server\<close> (\<open>src/server.cc\<close>), \<open>Server_Spec\<close>;
    \<open>Server_Main\<close> (\<open>src/server_main.cc\<close>), \<open>Main_Spec\<close>.
  \<^item> \<open>Counter_Race\<close>: the counting code of \<open>src/session.cc\<close> once more, cut into its accesses to the
    shared map, for several threads and any schedule. \<open>Concurrent_Server\<close>: the whole server with
    callbacks that overlap and access the counters one after the other in any order.
  \<^item> \<open>Status_Service\<close>, \<open>Meme_Service\<close>: compositions, from the bytes a session has read, in a
    reachable state of the server or over several connections, to the bytes it writes.
    \<open>Reliable_Server\<close>, \<open>Reliable_Concurrent\<close>: the configurations and clients with which a
    callback cannot fail, with atomic and with overlapping callbacks. \<open>Single_Thread\<close>: what the
    server promises when its pool has one thread, and the data race when it has more.
  \<^item> \<open>Logging\<close> (\<open>src/logging.cc\<close>): the set-up of the sinks.

  \<^bold>\<open>What is shown.\<close>

  \<^item> Configurations: printing and parsing are inverse on well-formed configurations, every
    accepted text gives one, the parser never leaves its stack or a vector, the queries meet
    their reference definitions; and an unterminated last token is lost.
  \<^item> Messages: the scanner of the request line against its words, the fields of valid and
    invalid requests, forms read back, replies read back by the proxy; texts built from a request line,
    header lines and a form are parsed into them.
  \<^item> Handlers: what the static handler serves, the counters and the status page, the template
    engine against one-pass replacement and on whole templates, the proxy on good, failing and redirecting servers.
  \<^item> Memes: the database is a refinement of an abstract store; adding, updating, deleting,
    searching; from the bytes of the submitted form through the redirect to the page of the new
    meme on a later connection, which shows the texts if nothing in them looks like a marker; and
    what is left of a form that arrives late.
  \<^item> Routing: the longest matching location wins, the first of equals; what happens to requests
    that are echoed, refused or not served; a call that returns has been counted and logged.
  \<^item> The server: invariants of all reachable states by induction over the steps, and when it
    can still make one; how every start of the program ends.
  \<^item> One thread: counters, total and status page are exact; with self-contained handlers, one of
    them for \<open>/\<close>, and clients that send valid requests nothing fails, no two accesses to the
    counters race and every pending request can be answered.
  \<^item> Counting by several threads: an uninterrupted thread does what \<open>record_request\<close> says; the
    results of all schedules of n threads are exactly k + 1 to k + n.
  \<^item> Overlapping callbacks, as long as an access to the counters is atomic: the server with atomic
    callbacks is a special case; no counter is too large and none is missing; a run in which one of
    two requests is lost. With two threads or more, so with the four of \<open>main\<close>, every reliable
    configuration reaches a data race, where C++ promises nothing: then these theorems are the best
    case and not a guarantee.

  \<^bold>\<open>Interfaces.\<close> \<open>request_handler\<close> is what a session relies on in a handler; it is interpreted for
  every handler class and for the virtual call. \<open>meme_store\<close> is what callers of the database
  rely on; it is interpreted on the operations of \<open>Database\<close>. \<open>ordered_map\<close> is the contract of
  \<open>std::map\<close>.

  \<^bold>\<open>Parameters and hypotheses.\<close> Code outside the repository is an argument: \<open>boost_api\<close> (string
  algorithms and \<open>lexical_cast\<close>, with \<open>boost_documented\<close>), \<open>sqlite_api\<close> (with
  \<open>sqlite_documented\<close>), \<open>asio\<close> (the client sockets of the proxy) and \<open>socket_api\<close> (the socket of a
  session), both without hypothesis, \<open>file_env\<close> (\<open>stat\<close> and the texts of files), the acceptor
  and the messages of library exceptions. They work on a world of any type, which is passed
  through. \<open>boost_model\<close> and \<open>mem_api\<close> satisfy the documented behaviour, and the witnesses run
  the model on them. A value the code reads without having set it is an argument too, or the
  fault \<open>Indeterminate_value\<close>.

  \<^bold>\<open>Bounds.\<close> \<open>int\<close> additions and conversions are checked or wrapped as the code does them; the
  counters are shown not to overflow before 2 to the 31 requests. Theorems about requests
  and routing assume texts shorter than 2 to the 32: the scanner's index and the match length
  are \<open>unsigned int\<close>, and the scanner loops for ever on a longer text without a line end. The depth of
  the parser's blocks and a few lengths that the code keeps in an \<open>int\<close> are unbounded here. Loops are total functions with a measure, with
  two exceptions: following redirects and fetching rows need not end, so these are partial
  functions where \<open>None\<close> is a call that does not return (following redirects is a recursion in the
  code, which would exhaust its stack). \<open>proxy_run\<close> bounds the number of redirects.

  \<^bold>\<open>Not modelled.\<close> Boost.Log output and the diagnostics on the standard streams, except the line
  of the access log and what \<open>main\<close> prints; the time the sleep handler waits; what
  happens after a data race (\<open>Concurrent_Server\<close> takes a callback apart
  at the shared counters, where one access to the map is atomic, and computing the reply, with the
  status page and the database calls in it, is one step);
  the effects of a handler call that never returns; the inside of
  SQLite and of Boost, the patterns of \<open>std::regex\<close> beyond the one the code builds (literals and
  a run of digits); the order \<open>std::sort\<close> gives equal keys; the tests, build files,
  container images and the templates other than that of one meme.
\<close>

end
